(* ===== verification/Prelude.thy ===== *)
theory Prelude
  imports Main "HOL-Library.Word" "HOL-Library.Code_Target_Numeral"
begin

text \<open>
  Shared vocabulary of the development. JavaScript strings are sequences of UTF-16 code
  units (\<open>String.prototype.length\<close> and indexing count code units), so a string is a
  list of 16-bit words, \<open>jstr\<close>; ASCII literals of the sources are written \<open>js ''...''\<close>.
  The helpers below model the ECMAScript built-ins the sources call: indexing with the
  \<open>|| ''\<close> default, \<open>trim\<close> and \<open>split\<close> on a one-unit separator. A callback that throws
  completes abruptly: \<open>'s completion\<close> is either the state at the throw with the error,
  or the state after a normal return. Generic lemmas on lists and on the 53-bit draws of
  \<open>Math.random\<close> close the theory.
\<close>

named_theorems js_simps "evaluation rules of the JavaScript built-in helpers"

type_synonym code_unit = "16 word"
type_synonym jstr = "code_unit list"

text \<open>A draw of \<open>Math.random()\<close>: engines produce a double \<open>k / 2^53\<close> from 53 random bits.\<close>

type_synonym rand53 = "53 word"

definition js :: "string \<Rightarrow> jstr" where
  "js s = map of_char s"

text \<open>\<open>s[i] || ''\<close>: the one-unit string at \<open>i\<close>, or the empty string out of range.\<close>

definition js_at :: "jstr \<Rightarrow> nat \<Rightarrow> jstr" where
  "js_at s i = (if i < length s then [s ! i] else [])"

text \<open>\<open>s[i]\<close> alone: \<open>undefined\<close> (here \<open>None\<close>) out of range.\<close>

definition js_unit_at :: "jstr \<Rightarrow> nat \<Rightarrow> jstr option" where
  "js_unit_at s i = (if i < length s then Some [s ! i] else None)"

text \<open>\<open>xs[i]\<close> on an array: \<open>undefined\<close> (here \<open>None\<close>) out of range.\<close>

definition js_nth :: "'a list \<Rightarrow> nat \<Rightarrow> 'a option" where
  "js_nth xs i = (if i < length xs then Some (xs ! i) else None)"

datatype js_error = TypeError

type_synonym 's completion = "(js_error \<times> 's) + 's"

definition state_of :: "'s completion \<Rightarrow> 's" where
  "state_of c = (case c of Inl (_, s) \<Rightarrow> s | Inr s \<Rightarrow> s)"

text \<open>
  WhiteSpace and LineTerminator code units of ECMAScript, the set \<open>trim\<close> removes:
  TAB, LF, VT, FF, CR, SPACE, NBSP, the Zs separators, LS, PS and the BOM.
\<close>

definition js_ws :: "code_unit \<Rightarrow> bool" where
  "js_ws c \<longleftrightarrow> c \<in> set [0x09, 0x0A, 0x0B, 0x0C, 0x0D, 0x20, 0xA0, 0x1680,
     0x2000, 0x2001, 0x2002, 0x2003, 0x2004, 0x2005, 0x2006, 0x2007, 0x2008, 0x2009, 0x200A,
     0x2028, 0x2029, 0x202F, 0x205F, 0x3000, 0xFEFF]"

definition js_trim :: "jstr \<Rightarrow> jstr" where
  "js_trim s = rev (dropWhile js_ws (rev (dropWhile js_ws s)))"

text \<open>\<open>s.split(d)\<close> for a one-unit separator: \<open>''.split(',')\<close> is \<open>['']\<close>.\<close>

fun js_split :: "code_unit \<Rightarrow> jstr \<Rightarrow> jstr list" where
  "js_split d [] = [[]]"
| "js_split d (c # cs) =
     (if c = d then [] # js_split d cs
      else (case js_split d cs of [] \<Rightarrow> [[c]] | w # ws \<Rightarrow> (c # w) # ws))"

text \<open>\<open>ws.join(d)\<close>, the inverse of \<open>split\<close>.\<close>

fun js_join :: "code_unit \<Rightarrow> jstr list \<Rightarrow> jstr" where
  "js_join d [] = []"
| "js_join d [w] = w"
| "js_join d (w # ws) = w @ d # js_join d ws"

text \<open>A trimmed string neither starts nor ends with white space.\<close>

definition js_trimmed :: "jstr \<Rightarrow> bool" where
  "js_trimmed s \<longleftrightarrow> (s \<noteq> [] \<longrightarrow> \<not> js_ws (hd s) \<and> \<not> js_ws (last s))"

subsection \<open>Lemmas shared by the components\<close>

lemma js_Nil [simp]: "js [] = []"
  and js_Cons [simp]: "js (c # s) = of_char c # js s"
  by (simp_all add: js_def)

lemma length_js [simp]: "length (js s) = length s"
  by (simp add: js_def)

lemma js_at_lt [simp, js_simps]: "i < length s \<Longrightarrow> js_at s i = [s ! i]"
  and js_at_ge [simp, js_simps]: "length s \<le> i \<Longrightarrow> js_at s i = []"
  by (simp_all add: js_at_def)

lemma length_js_at: "length (js_at s i) \<le> 1"
  by (simp add: js_at_def)

text \<open>Reading every position below \<open>n \<ge> length s\<close> with the default gives \<open>s\<close> back.\<close>

lemma concat_map_js_at:
  "length s \<le> n \<Longrightarrow> concat (map (js_at s) [i..<n]) = drop i s"
proof (induction "n - i" arbitrary: i)
  case 0
  then show ?case by simp
next
  case (Suc k)
  then have "i < n" by simp
  then have "[i..<n] = i # [Suc i..<n]" by (rule upt_conv_Cons)
  moreover from Suc have "concat (map (js_at s) [Suc i..<n]) = drop (Suc i) s" by simp
  ultimately show ?case
    by (cases "i < length s") (simp_all add: Cons_nth_drop_Suc)
qed

lemma js_nth_Some [simp, js_simps]: "i < length xs \<Longrightarrow> js_nth xs i = Some (xs ! i)"
  and js_nth_None [simp, js_simps]: "length xs \<le> i \<Longrightarrow> js_nth xs i = None"
  by (simp_all add: js_nth_def)

lemma js_unit_at_Some: "js_unit_at s i = Some u \<Longrightarrow> u = [s ! i] \<and> i < length s"
  by (simp add: js_unit_at_def split: if_splits)

lemma state_of_simps [simp]: "state_of (Inl (e, s)) = s" "state_of (Inr s) = s"
  by (simp_all add: state_of_def)

lemma js_split_nonempty [simp]: "js_split d s \<noteq> []"
  by (induction s) (auto split: list.splits)

text \<open>Splitting a joined list of separator-free pieces gives the pieces back.\<close>

lemma js_split_append_sep:
  "d \<notin> set w \<Longrightarrow> js_split d (w @ d # rest) = w # js_split d rest"
  by (induction w) auto

lemma js_split_no_sep: "d \<notin> set w \<Longrightarrow> js_split d w = [w]"
  by (induction w) auto

lemma js_split_join:
  "ws \<noteq> [] \<Longrightarrow> (\<forall>w \<in> set ws. d \<notin> set w) \<Longrightarrow> js_split d (js_join d ws) = ws"
proof (induction ws rule: induct_list012)
  case 1
  then show ?case by simp
next
  case (2 w)
  then show ?case by (simp add: js_split_no_sep)
next
  case (3 w v ws)
  have "js_join d (w # v # ws) = w @ d # js_join d (v # ws)"
    by simp
  with 3 show ?case by (simp add: js_split_append_sep)
qed

lemma js_join_Cons_head [simp]: "js_join d ((c # w) # ws) = c # js_join d (w # ws)"
  by (cases ws) simp_all

lemma js_join_split: "js_join d (js_split d s) = s"
proof (induction s)
  case Nil
  then show ?case by simp
next
  case (Cons c cs)
  show ?case
  proof (cases "c = d")
    case True
    with Cons show ?thesis by (cases "js_split d cs") (auto split: list.splits)
  next
    case False
    with Cons show ?thesis
      by (cases "js_split d cs") (auto split: list.splits)
  qed
qed

text \<open>\<open>trim\<close> yields a trimmed string and leaves one unchanged.\<close>

lemma dropWhile_hd_not: "dropWhile P xs \<noteq> [] \<Longrightarrow> \<not> P (hd (dropWhile P xs))"
  by (induction xs) auto

lemma js_trim_trimmed: "js_trimmed (js_trim s)"
proof -
  let ?a = "dropWhile js_ws s"
  let ?b = "dropWhile js_ws (rev ?a)"
  have "rev ?a = takeWhile js_ws (rev ?a) @ ?b" by simp
  then have a: "?a = rev ?b @ rev (takeWhile js_ws (rev ?a))" by (metis rev_append rev_rev_ident)
  show ?thesis
  proof (cases "?b = []")
    case True
    then show ?thesis by (simp add: js_trim_def js_trimmed_def)
  next
    case False
    then have "\<not> js_ws (hd ?b)" by (rule dropWhile_hd_not)
    moreover have "hd ?a = hd (rev ?b)" using a False by (metis hd_append2 Nil_is_rev_conv)
    moreover have "?a \<noteq> []" using a False by (metis append_is_Nil_conv Nil_is_rev_conv)
    then have "\<not> js_ws (hd ?a)" by (rule dropWhile_hd_not)
    ultimately show ?thesis using False by (simp add: js_trim_def js_trimmed_def hd_rev last_rev)
  qed
qed

lemma js_trim_id: "js_trimmed s \<Longrightarrow> js_trim s = s"
proof (cases s rule: rev_cases)
  case Nil
  then show ?thesis by (simp add: js_trim_def)
next
  case (snoc ys y)
  assume t: "js_trimmed s"
  with snoc have "\<not> js_ws (hd s)" "\<not> js_ws y" by (simp_all add: js_trimmed_def)
  then have "dropWhile js_ws s = s" by (cases s) simp_all
  with snoc \<open>\<not> js_ws y\<close> show ?thesis by (simp add: js_trim_def)
qed

lemma js_trim_idem [simp]: "js_trim (js_trim s) = js_trim s"
  by (rule js_trim_id [OF js_trim_trimmed])

text \<open>A draw scaled by \<open>n\<close> and floored stays below \<open>n\<close>: \<open>Math.floor(Math.random() * n) < n\<close>.\<close>

lemma unat_rand53_bound: "unat (k :: rand53) < 2 ^ 53"
proof -
  have "unat k < 2 ^ LENGTH(53)" by (rule unsigned_less)
  then show ?thesis by simp
qed

lemma scaled_draw_bound: "0 < n \<Longrightarrow> unat (k :: rand53) * n div 2 ^ 53 < n"
proof -
  assume "0 < n"
  then have "unat k * n < 2 ^ 53 * n" using unat_rand53_bound [of k] by simp
  then show ?thesis by (simp add: div_less_iff_less_mult mult.commute)
qed

end
