(* ===== verification/Host.thy ===== *)
theory Host
  imports Prelude
begin

text \<open>
  The host environment the modules run in, as far as they use it: the engine's
  \<open>Math.random\<close> stream, \<open>requestAnimationFrame\<close> and \<open>cancelAnimationFrame\<close>,
  \<open>setTimeout\<close> and \<open>clearTimeout\<close> against a millisecond clock, and promises with
  their \<open>then\<close> reactions and the microtask queue. The record is generic in the type
  \<open>'cb\<close> of callbacks: each module that registers callbacks fixes a datatype of the
  closures it creates, and the event loop of that module dispatches on it. Handles of
  frames, timers and promises are drawn from one counter (the browser keeps separate
  counters; only their freshness matters here). \<open>null\<close> handles are \<open>None\<close>, and
  cancelling or clearing \<open>None\<close> does nothing, as cancelling \<open>null\<close> does.
  The operations are specified by the HTML and ECMAScript standards, not by the
  repository's sources.
\<close>

record 'cb host =
  rand :: "nat \<Rightarrow> rand53"
  rand_pos :: nat
  handle_next :: nat
  frames :: "(nat \<times> 'cb) list"
  timers :: "(nat \<times> int \<times> 'cb) list"
  now :: int
  settled :: "nat list"
  reactions :: "(nat \<times> 'cb) list"
  jobs :: "'cb list"

named_theorems host_simps "how the host operations change each field"

subsection \<open>Random numbers\<close>

definition math_random :: "'cb host \<Rightarrow> rand53 \<times> 'cb host" where
  "math_random h = (rand h (rand_pos h), h\<lparr>rand_pos := Suc (rand_pos h)\<rparr>)"

text \<open>\<open>Math.floor(Math.random() * n)\<close>, with the product of the double and \<open>n\<close> exact.\<close>

definition rand_floor :: "nat \<Rightarrow> 'cb host \<Rightarrow> nat \<times> 'cb host" where
  "rand_floor n h = (let (k, h') = math_random h in (unat k * n div 2 ^ 53, h'))"

text \<open>\<open>Math.random() < p / q\<close>.\<close>

definition rand_below :: "nat \<Rightarrow> nat \<Rightarrow> 'cb host \<Rightarrow> bool \<times> 'cb host" where
  "rand_below p q h = (let (k, h') = math_random h in (q * unat k < p * 2 ^ 53, h'))"

subsection \<open>Animation frames and timers\<close>

definition request_frame :: "'cb \<Rightarrow> 'cb host \<Rightarrow> nat \<times> 'cb host" where
  "request_frame cb h =
     (handle_next h, h\<lparr>handle_next := Suc (handle_next h), frames := frames h @ [(handle_next h, cb)]\<rparr>)"

definition cancel_frame :: "nat option \<Rightarrow> 'cb host \<Rightarrow> 'cb host" where
  "cancel_frame r h =
     (case r of None \<Rightarrow> h | Some i \<Rightarrow> h\<lparr>frames := filter (\<lambda>(j, _). j \<noteq> i) (frames h)\<rparr>)"

text \<open>A negative delay is taken as \<open>0\<close>.\<close>

definition set_timeout :: "'cb \<Rightarrow> int \<Rightarrow> 'cb host \<Rightarrow> nat \<times> 'cb host" where
  "set_timeout cb d h =
     (handle_next h, h\<lparr>handle_next := Suc (handle_next h),
        timers := timers h @ [(handle_next h, now h + max 0 d, cb)]\<rparr>)"

definition clear_timeout :: "nat option \<Rightarrow> 'cb host \<Rightarrow> 'cb host" where
  "clear_timeout r h =
     (case r of None \<Rightarrow> h | Some i \<Rightarrow> h\<lparr>timers := filter (\<lambda>(j, _). j \<noteq> i) (timers h)\<rparr>)"

subsection \<open>Promises\<close>

definition new_promise :: "'cb host \<Rightarrow> nat \<times> 'cb host" where
  "new_promise h = (handle_next h, h\<lparr>handle_next := Suc (handle_next h)\<rparr>)"

text \<open>\<open>p.then(cb)\<close>: a reaction while \<open>p\<close> is pending, a job at once once it is settled.\<close>

definition promise_then :: "nat \<Rightarrow> 'cb \<Rightarrow> 'cb host \<Rightarrow> 'cb host" where
  "promise_then p cb h =
     (if p \<in> set (settled h) then h\<lparr>jobs := jobs h @ [cb]\<rparr>
      else h\<lparr>reactions := reactions h @ [(p, cb)]\<rparr>)"

text \<open>Calling a resolve function: a second call on a settled promise does nothing.\<close>

definition resolve_promise :: "nat \<Rightarrow> 'cb host \<Rightarrow> 'cb host" where
  "resolve_promise p h =
     (if p \<in> set (settled h) then h
      else h\<lparr>settled := p # settled h,
             jobs := jobs h @ map snd (filter (\<lambda>(q, _). q = p) (reactions h)),
             reactions := filter (\<lambda>(q, _). q \<noteq> p) (reactions h)\<rparr>)"

text \<open>Only the position in the random stream moved: what code that draws random numbers does.\<close>

definition rand_only :: "'cb host \<Rightarrow> 'cb host \<Rightarrow> bool" where
  "rand_only h h' \<longleftrightarrow> (\<exists>k. h' = h\<lparr>rand_pos := k\<rparr>)"

text \<open>The host when a page has loaded: nothing scheduled, the clock at \<open>0\<close>, a given random stream.\<close>

definition page_host :: "(nat \<Rightarrow> rand53) \<Rightarrow> 'cb host" where
  "page_host r = \<lparr>rand = r, rand_pos = 0, handle_next = 1, frames = [], timers = [], now = 0,
     settled = [], reactions = [], jobs = []\<rparr>"

subsection \<open>Well-formed hosts\<close>

text \<open>Every handle in use was drawn from the counter, which starts at \<open>1\<close> (\<open>0\<close> is never a handle).\<close>

definition host_wf :: "'cb host \<Rightarrow> bool" where
  "host_wf h \<longleftrightarrow> 0 < handle_next h
     \<and> (\<forall>(i, _) \<in> set (frames h). i < handle_next h)
     \<and> (\<forall>(i, _, _) \<in> set (timers h). i < handle_next h)
     \<and> (\<forall>p \<in> set (settled h). p < handle_next h)
     \<and> (\<forall>(p, _) \<in> set (reactions h). p < handle_next h)"

subsection \<open>How each operation changes the host\<close>

lemma math_random_fields [host_simps]:
  "math_random h = (k, h') \<Longrightarrow>
     k = rand h (rand_pos h) \<and> h' = h\<lparr>rand_pos := Suc (rand_pos h)\<rparr>"
  by (auto simp: math_random_def)

lemma rand_floor_bound:
  assumes "0 < n" and "rand_floor n h = (r, h')"
  shows "r < n"
  using assms scaled_draw_bound [of n "rand h (rand_pos h)"]
  by (auto simp: rand_floor_def math_random_def)

lemma rand_floor_host [host_simps]:
  "snd (rand_floor n h) = h\<lparr>rand_pos := Suc (rand_pos h)\<rparr>"
  by (simp add: rand_floor_def math_random_def)

lemma rand_below_host [host_simps]:
  "snd (rand_below p q h) = h\<lparr>rand_pos := Suc (rand_pos h)\<rparr>"
  by (simp add: rand_below_def math_random_def)

lemma rand_floor_Pair [host_simps]:
  "rand_floor n h = (r, h') \<Longrightarrow> h' = h\<lparr>rand_pos := Suc (rand_pos h)\<rparr>"
  by (simp add: rand_floor_def math_random_def)

lemma rand_below_Pair [host_simps]:
  "rand_below p q h = (b, h') \<Longrightarrow> h' = h\<lparr>rand_pos := Suc (rand_pos h)\<rparr>"
  by (simp add: rand_below_def math_random_def)

lemma rand_only_refl [simp, intro]: "rand_only h h"
  unfolding rand_only_def by (rule exI [of _ "rand_pos h"]) simp

lemma rand_only_trans [trans]: "rand_only h h1 \<Longrightarrow> rand_only h1 h2 \<Longrightarrow> rand_only h h2"
  unfolding rand_only_def by auto

lemma rand_only_fields:
  assumes "rand_only h h'"
  shows "frames h' = frames h" "timers h' = timers h" "handle_next h' = handle_next h"
    "settled h' = settled h" "reactions h' = reactions h" "jobs h' = jobs h" "now h' = now h"
    "rand h' = rand h"
  using assms unfolding rand_only_def by auto

lemma rand_floor_rand_only: "rand_floor n h = (r, h') \<Longrightarrow> rand_only h h'"
  by (auto simp: rand_floor_def math_random_def rand_only_def)

lemma rand_below_rand_only: "rand_below p q h = (b, h') \<Longrightarrow> rand_only h h'"
  by (auto simp: rand_below_def math_random_def rand_only_def)

lemma request_frame_simps [host_simps]:
  "fst (request_frame cb h) = handle_next h"
  "snd (request_frame cb h) =
     h\<lparr>handle_next := Suc (handle_next h), frames := frames h @ [(handle_next h, cb)]\<rparr>"
  by (simp_all add: request_frame_def)

lemma set_timeout_simps [host_simps]:
  "fst (set_timeout cb d h) = handle_next h"
  "snd (set_timeout cb d h) =
     h\<lparr>handle_next := Suc (handle_next h), timers := timers h @ [(handle_next h, now h + max 0 d, cb)]\<rparr>"
  by (simp_all add: set_timeout_def)

lemma new_promise_simps [host_simps]:
  "fst (new_promise h) = handle_next h"
  "snd (new_promise h) = h\<lparr>handle_next := Suc (handle_next h)\<rparr>"
  by (simp_all add: new_promise_def)

lemma cancel_frame_frames [simp]:
  "frames (cancel_frame r h) = (case r of None \<Rightarrow> frames h | Some i \<Rightarrow> filter (\<lambda>(j, _). j \<noteq> i) (frames h))"
  by (simp add: cancel_frame_def split: option.splits)

lemma cancel_frame_other [simp]:
  "handle_next (cancel_frame r h) = handle_next h" "settled (cancel_frame r h) = settled h"
  "rand_pos (cancel_frame r h) = rand_pos h" "timers (cancel_frame r h) = timers h"
  "reactions (cancel_frame r h) = reactions h" "jobs (cancel_frame r h) = jobs h"
  "now (cancel_frame r h) = now h" "rand (cancel_frame r h) = rand h"
  by (simp_all add: cancel_frame_def split: option.splits)

lemma clear_timeout_timers [simp]:
  "timers (clear_timeout r h) = (case r of None \<Rightarrow> timers h | Some i \<Rightarrow> filter (\<lambda>(j, _). j \<noteq> i) (timers h))"
  by (simp add: clear_timeout_def split: option.splits)

lemma clear_timeout_other [simp]:
  "handle_next (clear_timeout r h) = handle_next h" "settled (clear_timeout r h) = settled h"
  "frames (clear_timeout r h) = frames h" "reactions (clear_timeout r h) = reactions h"
  "jobs (clear_timeout r h) = jobs h" "rand_pos (clear_timeout r h) = rand_pos h"
  "now (clear_timeout r h) = now h" "rand (clear_timeout r h) = rand h"
  by (simp_all add: clear_timeout_def split: option.splits)

lemma resolve_promise_settled [simp]:
  "set (settled (resolve_promise p h)) = insert p (set (settled h))"
  by (auto simp: resolve_promise_def)

lemma resolve_promise_other [simp]:
  "handle_next (resolve_promise p h) = handle_next h" "frames (resolve_promise p h) = frames h"
  "timers (resolve_promise p h) = timers h" "rand_pos (resolve_promise p h) = rand_pos h"
  "now (resolve_promise p h) = now h" "rand (resolve_promise p h) = rand h"
  by (simp_all add: resolve_promise_def)

lemma promise_then_other [simp]:
  "handle_next (promise_then p cb h) = handle_next h" "frames (promise_then p cb h) = frames h"
  "timers (promise_then p cb h) = timers h" "settled (promise_then p cb h) = settled h"
  "rand_pos (promise_then p cb h) = rand_pos h" "now (promise_then p cb h) = now h"
  "rand (promise_then p cb h) = rand h"
  by (simp_all add: promise_then_def)

text \<open>A second resolve is a no-op: the notification is delivered at most once.\<close>

lemma resolve_promise_idem: "resolve_promise p (resolve_promise p h) = resolve_promise p h"
  by (simp add: resolve_promise_def)

lemma resolve_promise_jobs:
  "p \<notin> set (settled h) \<Longrightarrow>
     jobs (resolve_promise p h) = jobs h @ map snd (filter (\<lambda>(q, _). q = p) (reactions h))"
  by (simp add: resolve_promise_def)

lemma cancel_frame_rand_pos: "cancel_frame r (h\<lparr>rand_pos := k\<rparr>) = (cancel_frame r h)\<lparr>rand_pos := k\<rparr>"
  by (simp add: cancel_frame_def split: option.splits)

lemma rand_only_cancel: "rand_only h h' \<Longrightarrow> rand_only (cancel_frame r h) (cancel_frame r h')"
  by (auto simp: rand_only_def cancel_frame_rand_pos)

subsection \<open>Operations keep hosts well-formed\<close>

lemma host_wf_page [simp]: "host_wf (page_host rnd)"
  by (simp add: host_wf_def page_host_def)

lemma host_wf_rand_only: "rand_only h h' \<Longrightarrow> host_wf h' = host_wf h"
  by (simp add: host_wf_def rand_only_fields)

lemma host_wf_cancel [simp]: "host_wf h \<Longrightarrow> host_wf (cancel_frame r h)"
  by (auto simp: host_wf_def split: option.splits)

lemma host_wf_clear [simp]: "host_wf h \<Longrightarrow> host_wf (clear_timeout r h)"
  by (auto simp: host_wf_def split: option.splits)

lemma host_wf_set_timeout: "host_wf h \<Longrightarrow> host_wf (snd (set_timeout cb d h))"
  by (auto simp: host_wf_def set_timeout_def)

lemma host_wf_request_frame: "host_wf h \<Longrightarrow> host_wf (snd (request_frame cb h))"
  by (auto simp: host_wf_def request_frame_def)

lemma host_wf_bump: "host_wf h \<Longrightarrow> host_wf (h\<lparr>handle_next := Suc (handle_next h)\<rparr>)"
  by (auto simp: host_wf_def)

lemma host_wf_then: "host_wf h \<Longrightarrow> p < handle_next h \<Longrightarrow> host_wf (promise_then p cb h)"
  by (auto simp: host_wf_def promise_then_def)

lemma host_wf_resolve: "host_wf h \<Longrightarrow> p < handle_next h \<Longrightarrow> host_wf (resolve_promise p h)"
  by (auto simp: host_wf_def resolve_promise_def)

lemma host_wf_jobs [simp]: "host_wf (h\<lparr>jobs := q\<rparr>) = host_wf h"
  and host_wf_now [simp]: "host_wf (h\<lparr>now := t\<rparr>) = host_wf h"
  by (simp_all add: host_wf_def)

lemma host_wf_frames_sub: "host_wf h \<Longrightarrow> set fs \<subseteq> set (frames h) \<Longrightarrow> host_wf (h\<lparr>frames := fs\<rparr>)"
  by (auto simp: host_wf_def)

lemma host_wf_timers_sub: "host_wf h \<Longrightarrow> set ts \<subseteq> set (timers h) \<Longrightarrow> host_wf (h\<lparr>timers := ts\<rparr>)"
  by (auto simp: host_wf_def)

lemma host_wf_fresh_settled: "host_wf h \<Longrightarrow> handle_next h \<notin> set (settled h)"
  by (auto simp: host_wf_def)

lemma host_wf_fresh_reactions: "host_wf h \<Longrightarrow> (handle_next h, c) \<notin> set (reactions h)"
  by (auto simp: host_wf_def)

lemma resolve_promise_fresh:
  "(\<forall>(q, c) \<in> set (reactions h). q \<noteq> p) \<Longrightarrow> p \<notin> set (settled h) \<Longrightarrow>
     resolve_promise p h = h\<lparr>settled := p # settled h\<rparr>"
proof -
  assume a: "\<forall>(q, c) \<in> set (reactions h). q \<noteq> p" and b: "p \<notin> set (settled h)"
  from a have "filter (\<lambda>(q, _). q = p) (reactions h) = []" "filter (\<lambda>(q, _). q \<noteq> p) (reactions h) = reactions h"
    by (auto simp: filter_empty_conv filter_id_conv)
  with b show ?thesis by (simp add: resolve_promise_def)
qed

end
