(* ===== verification/Scramble.thy ===== *)
theory Scramble
  imports Host
begin

text \<open>
  The text-scramble engine, class \<open>TextScramble\<close> of the kinetic-typography module
  (\<open>src/unnamed/part_001\<close>, lines 48--111). A scrambler owns one element; its
  content is the list of nodes the last \<open>innerHTML\<close> write produced: text nodes for
  the \<open>from\<close> and \<open>to\<close> characters, \<open><span class="scramble-char">\<close> elements for the
  random glyphs, so that \<open>textContent\<close>, which the next \<open>setText\<close> reads, is their
  concatenation. \<open>setText\<close> builds one task per code-unit position, cancels the pending
  frame, restarts the frame counter and runs \<open>update\<close> once; \<open>update\<close> renders every
  task for the current frame and either resolves the session's promise (all tasks have
  reached their end frame) or requests the next frame and advances the counter.
  The operations are generic in the callback type of the host: \<open>cb\<close> is the closure
  \<open>this.update\<close> of this scrambler. \<open>animate\<close> fires that callback as the browser
  would while nothing else happens, with fuel counting frames.
\<close>

subsection \<open>Data\<close>

datatype piece = Text jstr | Glyph jstr

record task =
  t_from :: jstr
  t_to :: jstr
  t_start :: nat
  t_end :: nat
  t_char :: "jstr option"

record scrambler =
  el :: "piece list"
  glyphs :: jstr
  frame_request :: "nat option"
  frame :: nat
  queue :: "task list"
  resolve :: "nat option"

text \<open>\<open>'!<>-_\\/[]{}\<mdash>=+*^?#'\<close>: eighteen code units, the dash being U+2014.\<close>

definition scramble_glyphs :: jstr where
  "scramble_glyphs = [0x21, 0x3C, 0x3E, 0x2D, 0x5F, 0x5C, 0x2F, 0x5B, 0x5D, 0x7B, 0x7D,
     0x2014, 0x3D, 0x2B, 0x2A, 0x5E, 0x3F, 0x23]"

definition new_scrambler :: "piece list \<Rightarrow> scrambler" where
  "new_scrambler content =
     \<lparr>el = content, glyphs = scramble_glyphs, frame_request = None, frame = 0,
      queue = [], resolve = None\<rparr>"

fun piece_text :: "piece \<Rightarrow> jstr" where
  "piece_text (Text s) = s"
| "piece_text (Glyph s) = s"

definition text_content :: "piece list \<Rightarrow> jstr" where
  "text_content ps = concat (map piece_text ps)"

subsection \<open>setText: one task per position\<close>

fun make_queue :: "jstr \<Rightarrow> jstr \<Rightarrow> nat \<Rightarrow> nat \<Rightarrow> 'cb host \<Rightarrow> task list \<times> 'cb host" where
  "make_queue old new i 0 h = ([], h)"
| "make_queue old new i (Suc n) h =
     (let (st, h1) = rand_floor 40 h;
          (d, h2) = rand_floor 40 h1;
          (rest, h3) = make_queue old new (Suc i) n h2
      in (\<lparr>t_from = js_at old i, t_to = js_at new i, t_start = st, t_end = st + d, t_char = None\<rparr> # rest, h3))"

subsection \<open>update: one frame\<close>

text \<open>\<open>!char\<close>: the property is unset or the empty string.\<close>

definition char_unset :: "jstr option \<Rightarrow> bool" where
  "char_unset c = (case c of None \<Rightarrow> True | Some u \<Rightarrow> u = [])"

text \<open>\<open>${char}\<close>: an unset property prints as \<open>undefined\<close>.\<close>

definition shown :: "jstr option \<Rightarrow> jstr" where
  "shown c = (case c of None \<Rightarrow> js ''undefined'' | Some u \<Rightarrow> u)"

definition refresh_glyph :: "jstr \<Rightarrow> task \<Rightarrow> 'cb host \<Rightarrow> task \<times> 'cb host" where
  "refresh_glyph gl t h =
     (let (redraw, h1) = (if char_unset (t_char t) then (True, h) else rand_below 28 100 h)
      in if redraw then (let (k, h2) = rand_floor (length gl) h1 in (t\<lparr>t_char := js_unit_at gl k\<rparr>, h2))
         else (t, h1))"

fun update_loop :: "nat \<Rightarrow> jstr \<Rightarrow> task list \<Rightarrow> 'cb host \<Rightarrow> piece list \<times> nat \<times> task list \<times> 'cb host" where
  "update_loop f gl [] h = ([], 0, [], h)"
| "update_loop f gl (t # ts) h =
     (if t_end t \<le> f then
        (let (out, c, ts', h') = update_loop f gl ts h in (Text (t_to t) # out, Suc c, t # ts', h'))
      else if t_start t \<le> f then
        (let (t1, h1) = refresh_glyph gl t h;
             (out, c, ts', h') = update_loop f gl ts h1
         in (Glyph (shown (t_char t1)) # out, c, t1 # ts', h'))
      else
        (let (out, c, ts', h') = update_loop f gl ts h in (Text (t_from t) # out, c, t # ts', h')))"

definition update :: "'cb \<Rightarrow> scrambler \<Rightarrow> 'cb host \<Rightarrow> (scrambler \<times> 'cb host) completion" where
  "update cb s h =
     (let (out, c, q, h1) = update_loop (frame s) (glyphs s) (queue s) h;
          s1 = s\<lparr>queue := q, el := out\<rparr>
      in if c = length (queue s) then
           (case resolve s of
              None \<Rightarrow> Inl (TypeError, (s1, h1))
            | Some p \<Rightarrow> Inr (s1, resolve_promise p h1))
         else
           (let (r, h2) = request_frame cb h1
            in Inr (s1\<lparr>frame_request := Some r, frame := Suc (frame s)\<rparr>, h2)))"

definition setText :: "'cb \<Rightarrow> jstr \<Rightarrow> scrambler \<Rightarrow> 'cb host \<Rightarrow> (nat \<times> scrambler \<times> 'cb host) completion" where
  "setText cb new s h =
     (let old = text_content (el s);
          n = max (length old) (length new);
          (p, h1) = new_promise h;
          (q, h2) = make_queue old new 0 n h1;
          s1 = s\<lparr>resolve := Some p, queue := q\<rparr>;
          h3 = cancel_frame (frame_request s1) h2;
          s2 = s1\<lparr>frame := 0\<rparr>
      in (case update cb s2 h3 of
            Inl (e, st) \<Rightarrow> Inl (e, (p, st))
          | Inr st \<Rightarrow> Inr (p, st)))"

subsection \<open>The animation left to itself\<close>

text \<open>The scrambler's frame callback is pending when its last request is still queued.\<close>

definition frame_pending :: "'cb \<Rightarrow> scrambler \<Rightarrow> 'cb host \<Rightarrow> bool" where
  "frame_pending cb s h \<longleftrightarrow> (case frame_request s of None \<Rightarrow> False | Some r \<Rightarrow> (r, cb) \<in> set (frames h))"

text \<open>Firing the pending frame: the browser dequeues the callback and runs it.\<close>

definition fire_update :: "'cb \<Rightarrow> scrambler \<Rightarrow> 'cb host \<Rightarrow> (scrambler \<times> 'cb host) completion" where
  "fire_update cb s h = update cb s (cancel_frame (frame_request s) h)"

fun animate :: "nat \<Rightarrow> 'cb \<Rightarrow> scrambler \<Rightarrow> 'cb host \<Rightarrow> (scrambler \<times> 'cb host) completion" where
  "animate 0 cb s h = Inr (s, h)"
| "animate (Suc n) cb s h =
     (if frame_pending cb s h then
        (case fire_update cb s h of Inl e \<Rightarrow> Inl e | Inr (s', h') \<Rightarrow> animate n cb s' h')
      else Inr (s, h))"

subsection \<open>What a frame shows\<close>

text \<open>The node one task contributes at frame \<open>f\<close>, read off \<open>update\<close>'s three branches.\<close>

definition render_task :: "nat \<Rightarrow> task \<Rightarrow> piece" where
  "render_task f t =
     (if t_end t \<le> f then Text (t_to t)
      else if t_start t \<le> f then Glyph (shown (t_char t))
      else Text (t_from t))"

definition max_end :: "task list \<Rightarrow> nat" where
  "max_end q = foldr (\<lambda>t m. max (t_end t) m) q 0"

text \<open>A task without its glyph: \<open>update\<close> changes nothing else.\<close>

definition strip :: "task \<Rightarrow> task" where
  "strip t = t\<lparr>t_char := None\<rparr>"

text \<open>A glyph property holds nothing or one unit of the glyph set.\<close>

definition glyph_from :: "jstr \<Rightarrow> jstr option \<Rightarrow> bool" where
  "glyph_from gl c = (case c of None \<Rightarrow> True | Some u \<Rightarrow> (\<exists>g \<in> set gl. u = [g]))"

text \<open>Every task has reached its end frame: \<open>complete === this.queue.length\<close>.\<close>

definition all_done :: "nat \<Rightarrow> task list \<Rightarrow> bool" where
  "all_done f q \<longleftrightarrow> (\<forall>t \<in> set q. t_end t \<le> f)"

text \<open>A scrambler in the middle of a session, one task with window \<open>[1, 3)\<close>, at frame \<open>f\<close>.\<close>

definition demo_scrambler :: "nat \<Rightarrow> scrambler" where
  "demo_scrambler f = \<lparr>el = [], glyphs = scramble_glyphs, frame_request = None, frame = f,
     queue = [\<lparr>t_from = js ''a'', t_to = js ''b'', t_start = 1, t_end = 3, t_char = None\<rparr>], resolve = Some 1\<rparr>"

subsection \<open>Building the queue\<close>

lemma make_queue_spec:
  assumes "make_queue old new i n h = (q, h')"
  shows "length q = n \<and> map t_to q = map (js_at new) [i..<i + n]
    \<and> map t_from q = map (js_at old) [i..<i + n]
    \<and> (\<forall>t \<in> set q. t_start t < 40 \<and> t_start t \<le> t_end t \<and> t_end t < t_start t + 40 \<and> t_char t = None)
    \<and> h' = h\<lparr>rand_pos := rand_pos h + 2 * n\<rparr>"
  using assms
proof (induction n arbitrary: i h q h')
  case 0
  then show ?case by simp
next
  case (Suc n)
  obtain st h1 where r1: "rand_floor 40 h = (st, h1)" by fastforce
  obtain d h2 where r2: "rand_floor 40 h1 = (d, h2)" by fastforce
  obtain rest h3 where r3: "make_queue old new (Suc i) n h2 = (rest, h3)" by fastforce
  have q: "q = \<lparr>t_from = js_at old i, t_to = js_at new i, t_start = st, t_end = st + d, t_char = None\<rparr> # rest"
    and h': "h' = h3"
    using Suc.prems r1 r2 r3 by simp_all
  have "st < 40" "d < 40" using rand_floor_bound [OF _ r1] rand_floor_bound [OF _ r2] by simp_all
  moreover have "h1 = h\<lparr>rand_pos := Suc (rand_pos h)\<rparr>" "h2 = h1\<lparr>rand_pos := Suc (rand_pos h1)\<rparr>"
    using r1 r2 by (simp_all add: rand_floor_Pair)
  moreover have "[i..<i + Suc n] = i # [Suc i..<Suc i + n]"
    by (simp add: upt_conv_Cons)
  ultimately show ?case using Suc.IH [OF r3] q h' by auto
qed

lemma refresh_glyph_spec:
  assumes "refresh_glyph gl t h = (t', h')"
  shows "strip t' = strip t \<and> rand_only h h'"
  using assms
  by (auto simp: refresh_glyph_def strip_def Let_def split: prod.splits if_splits
           intro: rand_only_trans dest: rand_floor_rand_only rand_below_rand_only)

lemma draw_glyph_in:
  "gl \<noteq> [] \<Longrightarrow> rand_floor (length gl) h = (k, h') \<Longrightarrow> \<exists>g \<in> set gl. js_unit_at gl k = Some [g]"
  using rand_floor_bound [of "length gl" h k h'] by (auto simp: js_unit_at_def)

lemma refresh_glyph_set:
  assumes "gl \<noteq> []" and "glyph_from gl (t_char t)" and "refresh_glyph gl t h = (t', h')"
  shows "\<exists>g \<in> set gl. t_char t' = Some [g]"
proof -
  note draw = draw_glyph_in [OF assms(1)]
  show ?thesis
    using assms(2,3) draw
    by (auto simp: refresh_glyph_def glyph_from_def char_unset_def Let_def
             split: prod.splits if_splits option.splits)
qed

lemma update_loop_spec:
  assumes "update_loop f gl ts h = (out, c, ts', h')"
  shows "map strip ts' = map strip ts \<and> out = map (render_task f) ts'
    \<and> c = length (filter (\<lambda>t. t_end t \<le> f) ts) \<and> rand_only h h'"
  using assms
proof (induction f gl ts h arbitrary: out c ts' h' rule: update_loop.induct)
  case (1 f gl h)
  then show ?case by auto
next
  case (2 f gl t ts h)
  show ?case
  proof (cases "t_end t \<le> f")
    case True
    with "2.prems" "2.IH"(1) [OF True] show ?thesis
      by (auto simp: render_task_def split: prod.splits)
  next
    case False
    show ?thesis
    proof (cases "t_start t \<le> f")
      case True
      obtain t1 h1 where r: "refresh_glyph gl t h = (t1, h1)" by fastforce
      obtain out0 c0 ts0 h0 where r0: "update_loop f gl ts h1 = (out0, c0, ts0, h0)"
        by (metis prod.exhaust)
      from refresh_glyph_spec [OF r] have st: "strip t1 = strip t" and h1: "rand_only h h1"
        by blast+
      from st have "t_end t1 = t_end t" "t_start t1 = t_start t"
        by (metis strip_def task.select_convs task.surjective task.update_convs)+
      moreover have IH: "map strip ts0 = map strip ts \<and> out0 = map (render_task f) ts0
          \<and> c0 = length (filter (\<lambda>t. t_end t \<le> f) ts) \<and> rand_only h1 h0"
        using "2.IH"(2) [OF False True r [symmetric] refl] r0 by simp
      moreover from "2.prems" False True r r0 have "out = Glyph (shown (t_char t1)) # out0"
        "c = c0" "ts' = t1 # ts0" "h' = h0" by simp_all
      moreover have "rand_only h h0"
        using IH h1 by (blast intro: rand_only_trans)
      ultimately show ?thesis using st False True
        by (simp add: render_task_def)
    next
      case F2: False
      with "2.prems" "2.IH"(3) [OF False F2] False show ?thesis
        by (auto simp: render_task_def split: prod.splits)
    qed
  qed
qed

subsection \<open>One frame of update\<close>

lemma length_filter_eq_iff: "length (filter P xs) = length xs \<longleftrightarrow> (\<forall>x \<in> set xs. P x)"
proof
  assume "length (filter P xs) = length xs"
  then show "\<forall>x \<in> set xs. P x"
    using length_filter_less [of _ xs P] by (metis less_irrefl)
qed simp

lemma update_loop_all_done:
  "all_done f ts \<Longrightarrow> update_loop f gl ts h = (map (\<lambda>t. Text (t_to t)) ts, length ts, ts, h)"
  by (induction ts) (auto simp: all_done_def)

lemma update_done:
  assumes "all_done (frame s) (queue s)" and "resolve s = Some p"
  shows "update cb s h = Inr (s\<lparr>el := map (\<lambda>t. Text (t_to t)) (queue s)\<rparr>, resolve_promise p h)"
  using assms by (simp add: update_def update_loop_all_done)

lemma update_step:
  assumes "\<not> all_done (frame s) (queue s)"
  obtains q h1 where "update cb s h = Inr (s\<lparr>queue := q, el := map (render_task (frame s)) q,
        frame_request := Some (handle_next h), frame := Suc (frame s)\<rparr>,
      h1\<lparr>handle_next := Suc (handle_next h), frames := frames h @ [(handle_next h, cb)]\<rparr>)"
    and "map strip q = map strip (queue s)" and "rand_only h h1"
proof -
  obtain out c q h1 where r: "update_loop (frame s) (glyphs s) (queue s) h = (out, c, q, h1)"
    by (metis prod.exhaust)
  note spec = update_loop_spec [OF r]
  with assms have "c \<noteq> length (queue s)"
    by (simp add: all_done_def length_filter_eq_iff)
  with r spec have "update cb s h = Inr (s\<lparr>queue := q, el := map (render_task (frame s)) q,
        frame_request := Some (handle_next h1), frame := Suc (frame s)\<rparr>,
      h1\<lparr>handle_next := Suc (handle_next h1), frames := frames h1 @ [(handle_next h1, cb)]\<rparr>)"
    by (simp add: update_def request_frame_def)
  moreover from spec have "handle_next h1 = handle_next h" "frames h1 = frames h"
    by (simp_all add: rand_only_fields)
  ultimately show ?thesis using that spec by simp
qed

text \<open>
  C3. \<open>update\<close> throws exactly in one situation: every task has reached its end
  frame and no resolver is stored (\<open>this.resolve\<close> is still \<open>null\<close>, as after
  the constructor). The throw is a \<open>TypeError\<close>, the element has been rewritten
  to the target text before it, and the host is left unchanged.
\<close>

theorem update_done_throws:
  "((\<exists>x. update cb s h = Inl x) \<longleftrightarrow> all_done (frame s) (queue s) \<and> resolve s = None)
   \<and> (all_done (frame s) (queue s) \<longrightarrow> resolve s = None \<longrightarrow>
        update cb s h = Inl (TypeError, (s\<lparr>el := map (\<lambda>t. Text (t_to t)) (queue s)\<rparr>, h)))"
proof (cases "all_done (frame s) (queue s)")
  case True
  then show ?thesis
    by (cases "resolve s") (simp_all add: update_def update_loop_all_done)
next
  case False
  from update_step [OF False, of cb h] obtain x where "update cb s h = Inr x" by blast
  then show ?thesis using False by simp
qed

text \<open>A task and its stripped copy have the same window and characters.\<close>

lemma strip_windows: "map strip q = map strip q' \<Longrightarrow> map t_end q = map t_end q' \<and> map t_start q = map t_start q' \<and> map t_to q = map t_to q' \<and> map t_from q = map t_from q'"
proof -
  assume "map strip q = map strip q'"
  then have "map (t_end \<circ> strip) q = map (t_end \<circ> strip) q'" "map (t_start \<circ> strip) q = map (t_start \<circ> strip) q'"
    "map (t_to \<circ> strip) q = map (t_to \<circ> strip) q'" "map (t_from \<circ> strip) q = map (t_from \<circ> strip) q'"
    by (metis map_map)+
  then show ?thesis by (simp add: strip_def comp_def)
qed

lemma max_end_strip: "map strip q = map strip q' \<Longrightarrow> max_end q = max_end q'"
proof -
  assume "map strip q = map strip q'"
  then have "map t_end q = map t_end q'" using strip_windows by blast
  moreover have "max_end xs = foldr max (map t_end xs) 0" for xs
    by (induction xs) (simp_all add: max_end_def)
  ultimately show ?thesis by metis
qed

lemma all_done_max_end: "all_done f q \<longleftrightarrow> max_end q \<le> f"
  by (induction q) (auto simp: all_done_def max_end_def)

lemma all_done_strip: "map strip q = map strip q' \<Longrightarrow> all_done f q = all_done f q'"
  using max_end_strip [of q q'] by (simp add: all_done_max_end)

subsection \<open>Sessions run to completion\<close>

lemma text_content_done: "text_content (map (\<lambda>t. Text (t_to t)) q) = concat (map t_to q)"
  by (induction q) (simp_all add: text_content_def)

lemma strip_image: "map strip q = map strip q' \<Longrightarrow> strip ` set q = strip ` set q'"
  by (metis set_map)

lemma setText_eq:
  assumes "make_queue (text_content (el s)) new 0 (max (length (text_content (el s))) (length new))
             (h\<lparr>handle_next := Suc (handle_next h)\<rparr>) = (q, h2)"
  shows "setText cb new s h =
    (case update cb (s\<lparr>resolve := Some (handle_next h), queue := q, frame := 0\<rparr>) (cancel_frame (frame_request s) h2) of
       Inl (e, st) \<Rightarrow> Inl (e, (handle_next h, st))
     | Inr st \<Rightarrow> Inr (handle_next h, st))"
  using assms by (simp add: setText_def new_promise_def Let_def)

lemma animate_idle: "\<not> frame_pending cb s h \<Longrightarrow> animate n cb s h = Inr (s, h)"
  by (cases n) simp_all

lemma not_pending_after_cancel:
  "frame_request s = Some r \<Longrightarrow> frames h = filter (\<lambda>(j, _). j \<noteq> r) fs \<Longrightarrow> \<not> frame_pending cb s h"
  by (auto simp: frame_pending_def)

lemma animate_run:
  assumes "frame_pending cb s h" and "resolve s = Some p"
    and "frame s \<le> max_end (queue s)" and "max_end (queue s) < frame s + n"
  shows "\<exists>s' h'. animate n cb s h = Inr (s', h') \<and> p \<in> set (settled h')
    \<and> frame s' = max_end (queue s) \<and> map strip (queue s') = map strip (queue s)
    \<and> el s' = map (\<lambda>t. Text (t_to t)) (queue s') \<and> \<not> frame_pending cb s' h'"
  using assms
proof (induction n arbitrary: s h)
  case 0
  then show ?case by simp
next
  case (Suc n)
  from Suc.prems(1) obtain r where r: "frame_request s = Some r" "(r, cb) \<in> set (frames h)"
    by (auto simp: frame_pending_def split: option.splits)
  let ?h0 = "cancel_frame (frame_request s) h"
  show ?case
  proof (cases "all_done (frame s) (queue s)")
    case True
    let ?s' = "s\<lparr>el := map (\<lambda>t. Text (t_to t)) (queue s)\<rparr>"
    have u: "fire_update cb s h = Inr (?s', resolve_promise p ?h0)"
      using update_done [OF True Suc.prems(2)] by (simp add: fire_update_def)
    have np: "\<not> frame_pending cb ?s' (resolve_promise p ?h0)"
      using r by (intro not_pending_after_cancel [of _ r _ "frames h"]) simp_all
    have "frame s = max_end (queue s)"
      using True Suc.prems(3) by (simp add: all_done_max_end)
    with u np Suc.prems(1) show ?thesis by (simp add: animate_idle)
  next
    case False
    from update_step [OF False, of cb ?h0] obtain q h1 where
      u: "update cb s ?h0 = Inr (s\<lparr>queue := q, el := map (render_task (frame s)) q,
          frame_request := Some (handle_next ?h0), frame := Suc (frame s)\<rparr>,
          h1\<lparr>handle_next := Suc (handle_next ?h0), frames := frames ?h0 @ [(handle_next ?h0, cb)]\<rparr>)"
      and st: "map strip q = map strip (queue s)" by blast
    let ?s1 = "s\<lparr>queue := q, el := map (render_task (frame s)) q,
          frame_request := Some (handle_next ?h0), frame := Suc (frame s)\<rparr>"
    let ?h1 = "h1\<lparr>handle_next := Suc (handle_next ?h0), frames := frames ?h0 @ [(handle_next ?h0, cb)]\<rparr>"
    have me: "max_end q = max_end (queue s)" by (rule max_end_strip [OF st])
    have "frame s < max_end (queue s)"
      using False by (simp add: all_done_max_end)
    then have pre: "frame_pending cb ?s1 ?h1" "resolve ?s1 = Some p"
      "frame ?s1 \<le> max_end (queue ?s1)" "max_end (queue ?s1) < frame ?s1 + n"
      using Suc.prems me by (simp_all add: frame_pending_def)
    from Suc.IH [OF pre] obtain s' h' where
      res: "animate n cb ?s1 ?h1 = Inr (s', h') \<and> p \<in> set (settled h')
        \<and> frame s' = max_end (queue ?s1) \<and> map strip (queue s') = map strip (queue ?s1)
        \<and> el s' = map (\<lambda>t. Text (t_to t)) (queue s') \<and> \<not> frame_pending cb s' h'" by blast
    have "animate (Suc n) cb s h = animate n cb ?s1 ?h1"
      using Suc.prems(1) u by (simp add: fire_update_def)
    with res me st show ?thesis by auto
  qed
qed

lemma setText_result:
  assumes mq: "make_queue (text_content (el s)) new 0 (max (length (text_content (el s))) (length new))
                 (h\<lparr>handle_next := Suc (handle_next h)\<rparr>) = (q, h2)"
  shows "\<exists>s' h'. setText cb new s h = Inr (handle_next h, s', h') \<and> resolve s' = Some (handle_next h)
    \<and> map strip (queue s') = map strip q \<and> glyphs s' = glyphs s
    \<and> (if all_done 0 q then el s' = map (\<lambda>t. Text (t_to t)) (queue s') \<and> handle_next h \<in> set (settled h')
           \<and> \<not> frame_pending cb s' h' \<and> frame s' = 0
       else frame_pending cb s' h' \<and> frame s' = 1 \<and> el s' = map (render_task 0) (queue s'))"
proof -
  let ?p = "handle_next h"
  let ?s2 = "s\<lparr>resolve := Some ?p, queue := q, frame := 0\<rparr>"
  let ?h3 = "cancel_frame (frame_request s) h2"
  note eq = setText_eq [OF mq, of cb]
  show ?thesis
  proof (cases "all_done 0 q")
    case True
    then have d: "all_done (frame ?s2) (queue ?s2)" by simp
    have np: "\<not> frame_pending cb (?s2\<lparr>el := map (\<lambda>t. Text (t_to t)) (queue ?s2)\<rparr>) (resolve_promise ?p ?h3)"
      by (auto simp: frame_pending_def split: option.splits)
    show ?thesis using eq update_done [OF d, of ?p cb ?h3] True np by simp
  next
    case False
    then have d: "\<not> all_done (frame ?s2) (queue ?s2)" by simp
    from update_step [OF d, of cb ?h3] obtain q' h1 where
      u: "update cb ?s2 ?h3 = Inr (?s2\<lparr>queue := q', el := map (render_task (frame ?s2)) q',
          frame_request := Some (handle_next ?h3), frame := Suc (frame ?s2)\<rparr>,
          h1\<lparr>handle_next := Suc (handle_next ?h3), frames := frames ?h3 @ [(handle_next ?h3, cb)]\<rparr>)"
      and st: "map strip q' = map strip (queue ?s2)" by blast
    show ?thesis using eq u st False by (simp add: frame_pending_def)
  qed
qed

lemma max_end_bound: "\<forall>t \<in> set q. t_end t < Suc b \<Longrightarrow> max_end q \<le> b"
  by (induction q) (auto simp: max_end_def)

text \<open>
  C2. \<open>setText\<close> returns a fresh promise and builds one task per position of the longer
  of the displayed and the new text; task \<open>i\<close> goes from \<open>oldText[i] || ''\<close> to
  \<open>newText[i] || ''\<close>, starts in \<open>[0, 40)\<close> and ends in \<open>[start, start + 40)\<close>.
\<close>

theorem setText_queue_spec:
  assumes "setText cb new s h = Inr (p, s', h')"
  defines "old \<equiv> text_content (el s)" and "n \<equiv> max (length (text_content (el s))) (length new)"
  shows "p = handle_next h \<and> resolve s' = Some p \<and> length (queue s') = n
    \<and> map t_to (queue s') = map (js_at new) [0..<n] \<and> map t_from (queue s') = map (js_at old) [0..<n]
    \<and> (\<forall>t \<in> set (queue s'). t_start t < 40 \<and> t_start t \<le> t_end t \<and> t_end t < t_start t + 40)"
proof -
  obtain q h2 where mq: "make_queue old new 0 n (h\<lparr>handle_next := Suc (handle_next h)\<rparr>) = (q, h2)"
    by fastforce
  note spec = make_queue_spec [OF mq]
  from setText_result [OF mq [unfolded old_def n_def], of cb] assms(1) have
    r: "p = handle_next h" "resolve s' = Some p" and st: "map strip (queue s') = map strip q"
    by auto
  from strip_windows [OF st] have "length (queue s') = length q"
    "map t_to (queue s') = map t_to q" "map t_from (queue s') = map t_from q"
    by (metis length_map)+
  moreover have "\<forall>t \<in> set (queue s'). t_start t < 40 \<and> t_start t \<le> t_end t \<and> t_end t < t_start t + 40"
  proof
    fix t assume "t \<in> set (queue s')"
    then have "strip t \<in> strip ` set q" using strip_image [OF st] by blast
    then obtain t' where "t' \<in> set q" "strip t = strip t'" by blast
    moreover have "t_start (strip x) = t_start x" "t_end (strip x) = t_end x" for x
      by (simp_all add: strip_def)
    ultimately show "t_start t < 40 \<and> t_start t \<le> t_end t \<and> t_end t < t_start t + 40" using spec by metis
  qed
  ultimately show ?thesis using r spec by simp
qed

lemma setText_Inr_exists: "\<exists>p s' h'. setText cb new s h = Inr (p, s', h')"
proof -
  obtain q h2 where "make_queue (text_content (el s)) new 0 (max (length (text_content (el s))) (length new))
                 (h\<lparr>handle_next := Suc (handle_next h)\<rparr>) = (q, h2)" by fastforce
  from setText_result [OF this, of cb] show ?thesis by blast
qed

text \<open>
  C1. A session started by \<open>setText\<close> completes without outside help: if nothing else
  happens, at most 78 animation frames later the session's promise is resolved, the
  element shows exactly the new text, and no frame of the scrambler is pending any more.
\<close>

theorem setText_completes:
  assumes "setText cb new s h = Inr (p, s1, h1)"
  shows "\<exists>s2 h2. animate 78 cb s1 h1 = Inr (s2, h2) \<and> p \<in> set (settled h2)
    \<and> text_content (el s2) = new \<and> \<not> frame_pending cb s2 h2"
proof -
  let ?old = "text_content (el s)" and ?n = "max (length (text_content (el s))) (length new)"
  obtain q h2 where mq: "make_queue ?old new 0 ?n (h\<lparr>handle_next := Suc (handle_next h)\<rparr>) = (q, h2)"
    by fastforce
  note spec = make_queue_spec [OF mq]
  obtain s' h' where r: "setText cb new s h = Inr (handle_next h, s', h')" and
    facts: "resolve s' = Some (handle_next h)" "map strip (queue s') = map strip q"
      "if all_done 0 q then el s' = map (\<lambda>t. Text (t_to t)) (queue s') \<and> handle_next h \<in> set (settled h')
           \<and> \<not> frame_pending cb s' h' \<and> frame s' = 0
       else frame_pending cb s' h' \<and> frame s' = 1 \<and> el s' = map (render_task 0) (queue s')"
    using setText_result [OF mq, of cb] by blast
  with assms have eqs: "p = handle_next h" "s1 = s'" "h1 = h'" by simp_all
  have tos: "concat (map t_to (queue s')) = new"
  proof -
    have "map t_to (queue s') = map t_to q" using strip_windows [OF facts(2)] by blast
    then have "concat (map t_to (queue s')) = concat (map (js_at new) [0..<?n])" using spec by simp
    also have "\<dots> = new" by (simp add: concat_map_js_at)
    finally show ?thesis .
  qed
  have me: "max_end (queue s') = max_end q" by (rule max_end_strip [OF facts(2)])
  have "max_end q \<le> 78" using spec by (intro max_end_bound) fastforce
  show ?thesis
  proof (cases "all_done 0 q")
    case True
    with facts eqs tos show ?thesis by (simp add: animate_idle text_content_done)
  next
    case False
    with facts have pre: "frame_pending cb s' h'" "frame s' \<le> max_end (queue s')"
      "max_end (queue s') < frame s' + 78"
      using me \<open>max_end q \<le> 78\<close> by (simp_all add: all_done_max_end)
    from animate_run [OF pre(1) facts(1) pre(2,3)] obtain s2 h2 where
      "animate 78 cb s' h' = Inr (s2, h2)" "handle_next h \<in> set (settled h2)"
      "map strip (queue s2) = map strip (queue s')" "el s2 = map (\<lambda>t. Text (t_to t)) (queue s2)"
      "\<not> frame_pending cb s2 h2" by blast
    moreover from this(3) have "map t_to (queue s2) = map t_to (queue s')"
      using strip_windows by blast
    ultimately show ?thesis using eqs tos by (auto simp: text_content_done)
  qed
qed

lemma setText_host:
  assumes "setText cb new s h = Inr (p, s', h')"
  obtains h1 where "p = handle_next h" and "resolve s' = Some p"
    and "rand_only (cancel_frame (frame_request s) (h\<lparr>handle_next := Suc (handle_next h)\<rparr>)) h1"
    and "all_done 0 (queue s') \<Longrightarrow> h' = resolve_promise p h1 \<and> frame_request s' = frame_request s \<and> frame s' = 0"
    and "\<not> all_done 0 (queue s') \<Longrightarrow> h' = h1\<lparr>handle_next := Suc (Suc (handle_next h)), frames := frames h1 @ [(Suc (handle_next h), cb)]\<rparr>
           \<and> frame_request s' = Some (Suc (handle_next h)) \<and> frame s' = 1"
proof -
  let ?old = "text_content (el s)" and ?n = "max (length (text_content (el s))) (length new)"
  let ?h0 = "h\<lparr>handle_next := Suc (handle_next h)\<rparr>"
  obtain q h2 where mq: "make_queue ?old new 0 ?n ?h0 = (q, h2)" by fastforce
  have r2: "rand_only ?h0 h2" using make_queue_spec [OF mq] by (auto simp: rand_only_def)
  let ?s2 = "s\<lparr>resolve := Some (handle_next h), queue := q, frame := 0\<rparr>"
  let ?h3 = "cancel_frame (frame_request s) h2"
  have r3: "rand_only (cancel_frame (frame_request s) ?h0) ?h3" by (rule rand_only_cancel [OF r2])
  have hn3: "handle_next ?h3 = Suc (handle_next h)" "frames ?h3 = frames (cancel_frame (frame_request s) ?h0)"
    using rand_only_fields [OF r3] by simp_all
  note eq = setText_eq [OF mq, of cb]
  show ?thesis
  proof (cases "all_done 0 q")
    case True
    then have d: "all_done (frame ?s2) (queue ?s2)" by simp
    from eq update_done [OF d, of "handle_next h" cb ?h3] assms have
      "p = handle_next h" "s' = ?s2\<lparr>el := map (\<lambda>t. Text (t_to t)) q\<rparr>" "h' = resolve_promise p ?h3" by simp_all
    with r3 True show ?thesis using that by simp
  next
    case False
    then have d: "\<not> all_done (frame ?s2) (queue ?s2)" by simp
    from update_step [OF d, of cb ?h3] obtain q' h4 where
      u: "update cb ?s2 ?h3 = Inr (?s2\<lparr>queue := q', el := map (render_task (frame ?s2)) q',
          frame_request := Some (handle_next ?h3), frame := Suc (frame ?s2)\<rparr>,
          h4\<lparr>handle_next := Suc (handle_next ?h3), frames := frames ?h3 @ [(handle_next ?h3, cb)]\<rparr>)"
      and st: "map strip q' = map strip (queue ?s2)" and r4: "rand_only ?h3 h4" by blast
    have r5: "rand_only (cancel_frame (frame_request s) ?h0) h4" using r3 r4 by (rule rand_only_trans)
    from eq u assms have e: "p = handle_next h" "s' = ?s2\<lparr>queue := q', el := map (render_task 0) q',
          frame_request := Some (Suc (handle_next h)), frame := 1\<rparr>"
      "h' = h4\<lparr>handle_next := Suc (Suc (handle_next h)), frames := frames ?h3 @ [(Suc (handle_next h), cb)]\<rparr>"
      using hn3 by simp_all
    have "\<not> all_done 0 q'" using False all_done_strip [OF st] by simp
    moreover have "frames h4 = frames ?h3" using rand_only_fields [OF r4] by simp
    ultimately show ?thesis using that [of h4] r5 e by simp
  qed
qed

subsection \<open>What the frames show\<close>

lemma update_loop_glyphs:
  assumes "gl \<noteq> []" and "update_loop f gl ts h = (out, c, ts', h')"
    and "\<forall>t \<in> set ts. glyph_from gl (t_char t)"
  shows "\<forall>t \<in> set ts'. glyph_from gl (t_char t) \<and> (t_start t \<le> f \<and> f < t_end t \<longrightarrow> t_char t \<noteq> None)"
  using assms
proof (induction f gl ts h arbitrary: out c ts' h' rule: update_loop.induct)
  case (1 f gl h)
  then show ?case by simp
next
  case (2 f gl t ts h)
  show ?case
  proof (cases "t_end t \<le> f")
    case True
    with "2.prems" "2.IH"(1) [OF True] show ?thesis by (auto split: prod.splits)
  next
    case False
    show ?thesis
    proof (cases "t_start t \<le> f")
      case True
      obtain t1 h1 where r: "refresh_glyph gl t h = (t1, h1)" by fastforce
      obtain out0 c0 ts0 h0 where r0: "update_loop f gl ts h1 = (out0, c0, ts0, h0)"
        by (metis prod.exhaust)
      from "2.prems"(3) have gt: "glyph_from gl (t_char t)" by simp
      have "\<exists>g \<in> set gl. t_char t1 = Some [g]" by (rule refresh_glyph_set [OF "2.prems"(1) gt r])
      then obtain g where "g \<in> set gl" "t_char t1 = Some [g]" by blast
      then have "glyph_from gl (t_char t1)" by (simp add: glyph_from_def)
      moreover have "\<forall>t \<in> set ts0. glyph_from gl (t_char t) \<and> (t_start t \<le> f \<and> f < t_end t \<longrightarrow> t_char t \<noteq> None)"
        using "2.IH"(2) [OF False True r [symmetric] refl "2.prems"(1) r0] "2.prems"(3) by simp
      moreover from "2.prems"(2) False True r r0 have "ts' = t1 # ts0" by simp
      ultimately show ?thesis using \<open>t_char t1 = Some [g]\<close> by simp
    next
      case F2: False
      with "2.prems" "2.IH"(3) [OF False F2] False show ?thesis by (auto split: prod.splits)
    qed
  qed
qed

lemma update_cases:
  assumes "update cb s h = Inr (s', h')"
  shows "map strip (queue s') = map strip (queue s) \<and> resolve s' = resolve s \<and> glyphs s' = glyphs s
    \<and> el s' = map (render_task (frame s)) (queue s')
    \<and> (\<exists>h1. update_loop (frame s) (glyphs s) (queue s) h = (el s', length (filter (\<lambda>t. t_end t \<le> frame s) (queue s)), queue s', h1))"
proof -
  obtain out c q h1 where r: "update_loop (frame s) (glyphs s) (queue s) h = (out, c, q, h1)"
    by (metis prod.exhaust)
  note spec = update_loop_spec [OF r]
  show ?thesis
    using assms r spec
    by (auto simp: update_def request_frame_def Let_def split: if_splits option.splits)
qed

text \<open>
  C4. Every scramble glyph a frame shows is one code unit of the scrambler's glyph set,
  when the set is not empty and the tasks' glyphs came from it.
\<close>

theorem update_glyphs_in_set:
  assumes "update cb s h = Inr (s', h')" and "glyphs s \<noteq> []"
    and "\<forall>t \<in> set (queue s). glyph_from (glyphs s) (t_char t)"
  shows "\<forall>u. Glyph u \<in> set (el s') \<longrightarrow> (\<exists>g \<in> set (glyphs s). u = [g])"
proof (intro allI impI)
  fix u assume u: "Glyph u \<in> set (el s')"
  from update_cases [OF assms(1)] obtain h1 where
    el: "el s' = map (render_task (frame s)) (queue s')" and
    r: "update_loop (frame s) (glyphs s) (queue s) h = (el s', length (filter (\<lambda>t. t_end t \<le> frame s) (queue s)), queue s', h1)"
    by blast
  note g = update_loop_glyphs [OF assms(2) r assms(3)]
  from u el obtain t where t: "t \<in> set (queue s')" "render_task (frame s) t = Glyph u" by auto
  then have w: "t_start t \<le> frame s" "frame s < t_end t" "u = shown (t_char t)"
    by (auto simp: render_task_def split: if_splits)
  with g t obtain v where "t_char t = Some v" "glyph_from (glyphs s) (Some v)" by fastforce
  with w show "\<exists>g \<in> set (glyphs s). u = [g]" by (auto simp: glyph_from_def shown_def)
qed

text \<open>
  C5. Once the frame counter has reached a task's end frame, the frame shows that task's
  target character at its position.
\<close>

theorem update_frozen:
  assumes "update cb s h = Inr (s', h')" and "i < length (queue s)"
    and "t_end (queue s ! i) \<le> frame s"
  shows "el s' ! i = Text (t_to (queue s ! i))"
proof -
  from update_cases [OF assms(1)] have st: "map strip (queue s') = map strip (queue s)"
    and el: "el s' = map (render_task (frame s)) (queue s')" by blast+
  from strip_windows [OF st] have len: "length (queue s') = length (queue s)"
    and e: "t_end (queue s' ! i) = t_end (queue s ! i)" and o: "t_to (queue s' ! i) = t_to (queue s ! i)"
    using assms(2) by (metis length_map, metis length_map nth_map, metis length_map nth_map)
  with el assms(2,3) show ?thesis by (simp add: render_task_def)
qed

text \<open>
  C6. The first frame of a session shows, at every position whose window has not opened
  yet, the character of the text that was displayed when \<open>setText\<close> was called
  (partly scrambled text included).
\<close>

theorem setText_frame0_from:
  assumes "setText cb new s h = Inr (p, s', h')" and "i < length (queue s')"
    and "0 < t_start (queue s' ! i)"
  shows "el s' ! i = Text (js_at (text_content (el s)) i)"
proof -
  let ?old = "text_content (el s)" and ?n = "max (length (text_content (el s))) (length new)"
  obtain q h2 where mq: "make_queue ?old new 0 ?n (h\<lparr>handle_next := Suc (handle_next h)\<rparr>) = (q, h2)"
    by fastforce
  note spec = make_queue_spec [OF mq]
  from setText_result [OF mq, of cb] assms(1) have st: "map strip (queue s') = map strip q"
    and cases: "if all_done 0 q then el s' = map (\<lambda>t. Text (t_to t)) (queue s') \<and> p \<in> set (settled h')
           \<and> \<not> frame_pending cb s' h' \<and> frame s' = 0
       else frame_pending cb s' h' \<and> frame s' = 1 \<and> el s' = map (render_task 0) (queue s')"
    by auto
  from strip_windows [OF st] have len: "length (queue s') = length q"
    and se: "t_start (queue s' ! i) = t_start (q ! i)" "t_end (queue s' ! i) = t_end (q ! i)"
    and fr: "t_from (queue s' ! i) = t_from (q ! i)"
    using assms(2) by (metis length_map, (metis length_map nth_map)+)
  have qi: "q ! i \<in> set q" using assms(2) len by simp
  with spec have "t_start (q ! i) \<le> t_end (q ! i)" by blast
  with assms(3) se have pos: "0 < t_end (queue s' ! i)" by simp
  have "\<not> all_done 0 q"
    using pos se qi by (auto simp: all_done_def)
  with cases have el: "el s' = map (render_task 0) (queue s')" by simp
  have "t_from (q ! i) = js_at ?old i"
  proof -
    have "map t_from q ! i = map (js_at ?old) [0..<?n] ! i" using spec by simp
    moreover have "i < ?n" using assms(2) len spec by simp
    ultimately show ?thesis using assms(2) len by simp
  qed
  with el assms(2,3) pos fr show ?thesis by (simp add: render_task_def)
qed

subsection \<open>Witnesses\<close>

text \<open>Facts the rotator uses: \<open>update\<close> with a stored resolver returns, and what
  \<open>update\<close> and \<open>setText\<close> do to the promises of the host.\<close>

lemma update_Inr:
  assumes "resolve s = Some p"
  shows "\<exists>x. update cb s h = Inr x"
proof (cases "all_done (frame s) (queue s)")
  case True
  show ?thesis using update_done [OF True assms, of cb h] by simp
next
  case False
  show ?thesis by (rule update_step [OF False, of cb h]) simp
qed

lemma update_settled:
  assumes "state_of (update cb s h) = (s', h')"
  shows "set (settled h') \<subseteq> set (settled h) \<union> {p. resolve s = Some p}
    \<and> handle_next h \<le> handle_next h' \<and> resolve s' = resolve s"
proof -
  obtain out c q h1 where r: "update_loop (frame s) (glyphs s) (queue s) h = (out, c, q, h1)"
    by (metis prod.exhaust)
  have "rand_only h h1" using update_loop_spec [OF r] by simp
  then have "settled h1 = settled h" "handle_next h1 = handle_next h" by (simp_all add: rand_only_fields)
  then show ?thesis using assms r
    by (auto simp: update_def request_frame_def Let_def split: if_splits option.splits)
qed

lemma setText_settled:
  assumes "setText cb new s h = Inr (p, s', h')"
  shows "p = handle_next h \<and> resolve s' = Some p \<and> set (settled h') \<subseteq> insert p (set (settled h))
    \<and> handle_next h < handle_next h'"
proof -
  from setText_host [OF assms] obtain h1 where p: "p = handle_next h" and rs: "resolve s' = Some p"
    and r1: "rand_only (cancel_frame (frame_request s) (h\<lparr>handle_next := Suc (handle_next h)\<rparr>)) h1"
    and dn: "all_done 0 (queue s') \<Longrightarrow> h' = resolve_promise p h1"
    and nd: "\<not> all_done 0 (queue s') \<Longrightarrow> h' = h1\<lparr>handle_next := Suc (Suc (handle_next h)), frames := frames h1 @ [(Suc (handle_next h), cb)]\<rparr>"
    by blast
  have h1: "settled h1 = settled h" "handle_next h1 = Suc (handle_next h)"
    using rand_only_fields [OF r1] by simp_all
  show ?thesis
    using p rs h1 dn nd by (cases "all_done 0 (queue s')") auto
qed

text \<open>The target characters of the queue spell the new text.\<close>

lemma setText_target:
  assumes "setText cb new s h = Inr (p, s', h')"
  shows "concat (map t_to (queue s')) = new"
proof -
  let ?n = "max (length (text_content (el s))) (length new)"
  obtain q h2 where mq: "make_queue (text_content (el s)) new 0 ?n (h\<lparr>handle_next := Suc (handle_next h)\<rparr>) = (q, h2)"
    by fastforce
  from setText_result [OF mq, of cb] assms have "map strip (queue s') = map strip q" by auto
  then have "map t_to (queue s') = map t_to q" using strip_windows by blast
  moreover have "map t_to q = map (js_at new) [0..<?n]" using make_queue_spec [OF mq] by simp
  ultimately show ?thesis using concat_map_js_at [of new ?n 0] by (simp add: map_concat)
qed

lemmas scramble_eval = setText_def page_host_def new_scrambler_def text_content_def update_def Let_def
  rand_floor_def math_random_def new_promise_def cancel_frame_def request_frame_def render_task_def
  refresh_glyph_def char_unset_def shown_def js_unit_at_def resolve_promise_def scramble_glyphs_def

theorem setText_completes_witness:
  "\<exists>s1 h1. setText (0::nat) (js ''Go'') (new_scrambler [Text (js ''AB'')]) (page_host (\<lambda>_. 2 ^ 52)) = Inr (1, s1, h1)
     \<and> (\<exists>s2 h2. animate 78 (0::nat) s1 h1 = Inr (s2, h2) \<and> 1 \<in> set (settled h2) \<and> text_content (el s2) = js ''Go'')"
proof -
  have "\<exists>s1 h1. setText (0::nat) (js ''Go'') (new_scrambler [Text (js ''AB'')]) (page_host (\<lambda>_. 2 ^ 52)) = Inr (1, s1, h1)"
    by (simp add: scramble_eval)
  then obtain s1 h1 where r: "setText (0::nat) (js ''Go'') (new_scrambler [Text (js ''AB'')]) (page_host (\<lambda>_. 2 ^ 52)) = Inr (1, s1, h1)"
    by blast
  from setText_completes [OF r] r show ?thesis by blast
qed

theorem setText_queue_spec_witness:
  "\<exists>s' h'. setText (0::nat) (js ''Go'') (new_scrambler [Text (js ''ABC'')]) (page_host (\<lambda>_. 2 ^ 52)) = Inr (1, s', h')
     \<and> length (queue s') = 3 \<and> map t_to (queue s') = [js ''G'', js ''o'', []]
     \<and> map t_from (queue s') = [js ''A'', js ''B'', js ''C'']"
proof -
  have "\<exists>s' h'. setText (0::nat) (js ''Go'') (new_scrambler [Text (js ''ABC'')]) (page_host (\<lambda>_. 2 ^ 52)) = Inr (1, s', h')"
    by (simp add: scramble_eval)
  then obtain s' h' where r: "setText (0::nat) (js ''Go'') (new_scrambler [Text (js ''ABC'')]) (page_host (\<lambda>_. 2 ^ 52)) = Inr (1, s', h')"
    by blast
  from setText_queue_spec [OF r] r show ?thesis
    by (simp add: new_scrambler_def text_content_def upt_rec)
qed

theorem update_glyphs_in_set_witness:
  "\<exists>s' h'. update (0::nat) (demo_scrambler 2) (page_host (\<lambda>_. 0)) = Inr (s', h')
     \<and> el s' = [Glyph [0x21]] \<and> (\<exists>g \<in> set scramble_glyphs. [0x21] = [g])"
proof -
  have "\<exists>s' h'. update (0::nat) (demo_scrambler 2) (page_host (\<lambda>_. 0)) = Inr (s', h') \<and> el s' = [Glyph [0x21]]"
    by (simp add: scramble_eval demo_scrambler_def)
  then obtain s' h' where r: "update (0::nat) (demo_scrambler 2) (page_host (\<lambda>_. 0)) = Inr (s', h')"
    and e: "el s' = [Glyph [0x21]]" by blast
  have "glyphs (demo_scrambler 2) \<noteq> []" "\<forall>t \<in> set (queue (demo_scrambler 2)). glyph_from (glyphs (demo_scrambler 2)) (t_char t)"
    by (simp_all add: demo_scrambler_def scramble_glyphs_def glyph_from_def)
  from update_glyphs_in_set [OF r this] e r show ?thesis
    by (simp add: demo_scrambler_def)
qed

theorem update_frozen_witness:
  "\<exists>s' h'. update (0::nat) (demo_scrambler 5) (page_host (\<lambda>_. 0)) = Inr (s', h') \<and> el s' ! 0 = Text (js ''b'')"
proof -
  have "\<exists>s' h'. update (0::nat) (demo_scrambler 5) (page_host (\<lambda>_. 0)) = Inr (s', h')"
    by (simp add: scramble_eval demo_scrambler_def)
  then obtain s' h' where r: "update (0::nat) (demo_scrambler 5) (page_host (\<lambda>_. 0)) = Inr (s', h')"
    by blast
  have "0 < length (queue (demo_scrambler 5))" "t_end (queue (demo_scrambler 5) ! 0) \<le> frame (demo_scrambler 5)"
    by (simp_all add: demo_scrambler_def)
  from update_frozen [OF r this] r show ?thesis by (auto simp: demo_scrambler_def)
qed

theorem setText_frame0_from_witness:
  "\<exists>s' h'. setText (0::nat) (js ''Go'') (new_scrambler [Text (js ''AB'')]) (page_host (\<lambda>_. 2 ^ 52)) = Inr (1, s', h')
     \<and> el s' ! 0 = Text (js ''A'')"
proof -
  have "\<exists>s' h'. setText (0::nat) (js ''Go'') (new_scrambler [Text (js ''AB'')]) (page_host (\<lambda>_. 2 ^ 52)) = Inr (1, s', h')
     \<and> 0 < length (queue s') \<and> 0 < t_start (queue s' ! 0)"
    by (simp add: scramble_eval)
  then obtain s' h' where r: "setText (0::nat) (js ''Go'') (new_scrambler [Text (js ''AB'')]) (page_host (\<lambda>_. 2 ^ 52)) = Inr (1, s', h')"
    and c: "0 < length (queue s')" "0 < t_start (queue s' ! 0)" by blast
  from setText_frame0_from [OF r c] r show ?thesis
    by (simp add: new_scrambler_def text_content_def)
qed

theorem update_done_throws_witness:
  "update (0::nat) ((demo_scrambler 5)\<lparr>resolve := None\<rparr>) (page_host (\<lambda>_. 0))
     = Inl (TypeError, ((demo_scrambler 5)\<lparr>resolve := None, el := [Text (js ''b'')]\<rparr>, page_host (\<lambda>_. 0)))"
proof -
  have "all_done (frame ((demo_scrambler 5)\<lparr>resolve := None\<rparr>)) (queue ((demo_scrambler 5)\<lparr>resolve := None\<rparr>))"
    "resolve ((demo_scrambler 5)\<lparr>resolve := None\<rparr>) = None"
    by (simp_all add: demo_scrambler_def all_done_def)
  then show ?thesis using update_done_throws [of "0::nat" "(demo_scrambler 5)\<lparr>resolve := None\<rparr>" "page_host (\<lambda>_. 0)"]
    by (simp add: demo_scrambler_def all_done_def)
qed

end
