(* ===== verification/Rotator.thy ===== *)
theory Rotator
  imports Scramble
begin

text \<open>
  The word rotator, class \<open>WordRotator\<close> of the kinetic-typography module
  (\<open>src/unnamed/part_001\<close>, lines 116--146), and the event loop that drives it.
  A rotator owns a scrambler and cycles it through a word list: \<open>next\<close> starts the
  transition to the current word, registers a \<open>then\<close> reaction on the session's
  promise and advances the index at once; the reaction arms a timeout of
  \<open>options.interval\<close> milliseconds whose callback calls \<open>next\<close> again; \<open>stop\<close>
  clears the stored timeout. The closures the rotator creates are the constructors of
  \<open>rcb\<close>: the scrambler's \<open>this.update\<close>, the \<open>then\<close> reaction and the timeout
  callback. \<open>loop_step\<close> is the browser's event loop over the rotator and the host:
  a queued microtask runs first; otherwise a frame callback, a due timer, the clock or a
  call of \<open>stop()\<close> by page code may come next. A callback that throws leaves the state
  it reached, as an uncaught exception in an event handler does.
\<close>

datatype rcb = RUpdate | RThen | RNext

record rotator =
  words :: "jstr list"
  interval :: int
  current_index :: nat
  scr :: scrambler
  timeout_id :: "nat option"

type_synonym world = "rotator \<times> rcb host"

text \<open>The constructor's fields, before it calls \<open>start()\<close>; \<open>{interval: 3000, ...options}\<close>.\<close>

definition rotator_fields :: "piece list \<Rightarrow> jstr list \<Rightarrow> int option \<Rightarrow> rotator" where
  "rotator_fields content ws opt =
     \<lparr>words = ws, interval = (case opt of None \<Rightarrow> 3000 | Some v \<Rightarrow> v), current_index = 0,
      scr = new_scrambler content, timeout_id = None\<rparr>"

text \<open>
  \<open>next()\<close>: \<open>this.words[this.currentIndex]\<close> is \<open>undefined\<close> out of range, and
  \<open>setText(undefined)\<close> throws reading \<open>newText.length\<close> before it changes anything.
\<close>

definition rot_next :: "rotator \<Rightarrow> rcb host \<Rightarrow> (rotator \<times> rcb host) completion" where
  "rot_next r h =
     (case js_nth (words r) (current_index r) of
        None \<Rightarrow> Inl (TypeError, (r, h))
      | Some w \<Rightarrow>
          (case setText RUpdate w (scr r) h of
             Inl (e, (p, s, h')) \<Rightarrow> Inl (e, (r\<lparr>scr := s\<rparr>, h'))
           | Inr (p, s, h') \<Rightarrow>
               Inr (r\<lparr>scr := s, current_index := (current_index r + 1) mod length (words r)\<rparr>,
                    promise_then p RThen h')))"

text \<open>The \<open>then\<close> reaction: \<open>this.timeoutId = setTimeout(() => this.next(), interval)\<close>.\<close>

definition rot_then :: "rotator \<Rightarrow> rcb host \<Rightarrow> rotator \<times> rcb host" where
  "rot_then r h = (let (i, h') = set_timeout RNext (interval r) h in (r\<lparr>timeout_id := Some i\<rparr>, h'))"

definition rot_stop :: "rotator \<Rightarrow> rcb host \<Rightarrow> rotator \<times> rcb host" where
  "rot_stop r h = (r, clear_timeout (timeout_id r) h)"

text \<open>\<open>new WordRotator(element, words, options)\<close>: the fields, then \<open>start()\<close>, which is \<open>next()\<close>.\<close>

definition new_rotator :: "piece list \<Rightarrow> jstr list \<Rightarrow> int option \<Rightarrow> rcb host \<Rightarrow> (rotator \<times> rcb host) completion" where
  "new_rotator content ws opt h = rot_next (rotator_fields content ws opt) h"

fun run_cb :: "rcb \<Rightarrow> rotator \<Rightarrow> rcb host \<Rightarrow> (rotator \<times> rcb host) completion" where
  "run_cb RUpdate r h =
     (case update RUpdate (scr r) h of
        Inl (e, (s, h')) \<Rightarrow> Inl (e, (r\<lparr>scr := s\<rparr>, h'))
      | Inr (s, h') \<Rightarrow> Inr (r\<lparr>scr := s\<rparr>, h'))"
| "run_cb RThen r h = Inr (rot_then r h)"
| "run_cb RNext r h = rot_next r h"

text \<open>
  One turn of the event loop. Microtasks run before anything else. A frame runs the
  callbacks requested before it, in order; they are taken one per step here, which is
  the same run when, as the invariant below shows, at most one is ever queued.
\<close>

inductive loop_step :: "world \<Rightarrow> world \<Rightarrow> bool" where
  job: "jobs h = cb # rest \<Longrightarrow> loop_step (r, h) (state_of (run_cb cb r (h\<lparr>jobs := rest\<rparr>)))"
| frame: "jobs h = [] \<Longrightarrow> frames h = (i, cb) # fs \<Longrightarrow>
    loop_step (r, h) (state_of (run_cb cb r (h\<lparr>frames := fs\<rparr>)))"
| timer: "jobs h = [] \<Longrightarrow> (i, due, cb) \<in> set (timers h) \<Longrightarrow> due \<le> now h \<Longrightarrow>
    loop_step (r, h) (state_of (run_cb cb r (h\<lparr>timers := filter (\<lambda>(j, _). j \<noteq> i) (timers h)\<rparr>)))"
| tick: "jobs h = [] \<Longrightarrow> 0 < d \<Longrightarrow> loop_step (r, h) (r, h\<lparr>now := now h + d\<rparr>)"
| stop: "jobs h = [] \<Longrightarrow> loop_step (r, h) (rot_stop r h)"

text \<open>The worlds a page reaches after constructing one rotator.\<close>

inductive reachable :: "world \<Rightarrow> bool" where
  init: "reachable (state_of (new_rotator content ws opt (page_host rnd)))"
| step: "reachable w \<Longrightarrow> loop_step w w' \<Longrightarrow> reachable w'"

text \<open>
  What the rotator and the host keep true between turns of the loop. Either a transition
  is animating (one frame callback queued, the scrambler's own, for an unresolved
  promise, with at most the rotator's reaction on it and nothing else scheduled) or the
  rotator is between transitions (no frame, no reaction, at most one microtask or timer).
\<close>

definition rot_inv :: "world \<Rightarrow> bool" where
  "rot_inv w = (case w of (r, h) \<Rightarrow>
     host_wf h
     \<and> length (frames h) \<le> 1
     \<and> (\<forall>(i, c) \<in> set (frames h). c = RUpdate \<and> frame_request (scr r) = Some i)
     \<and> (frames h \<noteq> [] \<longrightarrow> (\<exists>p. resolve (scr r) = Some p \<and> p \<notin> set (settled h)
           \<and> frame (scr r) \<le> max_end (queue (scr r)) \<and> timers h = [] \<and> jobs h = []
           \<and> length (reactions h) \<le> 1 \<and> (\<forall>(q, c) \<in> set (reactions h). q = p \<and> c = RThen)))
     \<and> (frames h = [] \<longrightarrow> reactions h = [] \<and> length (timers h) + length (jobs h) \<le> 1
           \<and> (\<forall>(_, _, c) \<in> set (timers h). c = RNext) \<and> (\<forall>c \<in> set (jobs h). c = RThen))
     \<and> (\<forall>p. resolve (scr r) = Some p \<longrightarrow> p < handle_next h)
     \<and> (words r \<noteq> [] \<longrightarrow> current_index r < length (words r)))"

text \<open>
  A page with the markup \<open><span>AB</span>\<close> and \<open>data-words="Go,Hi"\<close>, just after the
  constructor, with every draw of \<open>Math.random\<close> equal to \<open>1/2\<close>.
\<close>

definition demo_world :: world where
  "demo_world = state_of (new_rotator [Text (js ''AB'')] [js ''Go'', js ''Hi''] None (page_host (\<lambda>_. 2 ^ 52)))"

subsection \<open>The invariant holds in every reachable world\<close>

lemma inv_cancel_frames:
  assumes "\<forall>(i, c) \<in> set (frames h). c = RUpdate \<and> frame_request s = Some i"
  shows "frames (cancel_frame (frame_request s) h) = []"
  using assms by (cases "frame_request s"; cases "frames h") (auto simp: filter_empty_conv)

lemma rot_next_inv:
  assumes inv: "rot_inv (r, h)" and idle: "frames h = []" "timers h = []" "jobs h = []"
  shows "rot_inv (state_of (rot_next r h))"
proof (cases "js_nth (words r) (current_index r)")
  case None
  then show ?thesis using inv by (simp add: rot_next_def)
next
  case (Some w)
  then have ne: "words r \<noteq> []" by (auto simp: js_nth_def split: if_splits)
  from inv idle have wf: "host_wf h" and re: "reactions h = []"
    by (simp_all add: rot_inv_def)
  obtain p s' h' where st: "setText RUpdate w (scr r) h = Inr (p, s', h')"
    using setText_Inr_exists [of RUpdate w "scr r" h] by blast
  then obtain h1 where p: "p = handle_next h" and rs: "resolve s' = Some p"
    and r1: "rand_only (cancel_frame (frame_request (scr r)) (h\<lparr>handle_next := Suc (handle_next h)\<rparr>)) h1"
    and dn: "all_done 0 (queue s') \<Longrightarrow> h' = resolve_promise p h1 \<and> frame_request s' = frame_request (scr r) \<and> frame s' = 0"
    and nd: "\<not> all_done 0 (queue s') \<Longrightarrow> h' = h1\<lparr>handle_next := Suc (Suc (handle_next h)), frames := frames h1 @ [(Suc (handle_next h), RUpdate)]\<rparr>
           \<and> frame_request s' = Some (Suc (handle_next h)) \<and> frame s' = 1"
    using setText_host [OF st] by blast
  have "frames (h\<lparr>handle_next := Suc (handle_next h)\<rparr>) = []" using idle by simp
  then have "frames (cancel_frame (frame_request (scr r)) (h\<lparr>handle_next := Suc (handle_next h)\<rparr>)) = []"
    by (simp split: option.splits)
  then have h1: "frames h1 = []" "handle_next h1 = Suc (handle_next h)" "settled h1 = settled h"
    "timers h1 = []" "reactions h1 = []" "jobs h1 = []"
    using rand_only_fields [OF r1] idle re by simp_all
  have wf1: "host_wf h1"
    using host_wf_rand_only [OF r1] host_wf_cancel [OF host_wf_bump [OF wf]] by simp
  have fresh: "p \<notin> set (settled h)" using wf p by (auto simp: host_wf_def)
  let ?r' = "r\<lparr>scr := s', current_index := (current_index r + 1) mod length (words r)\<rparr>"
  have nx: "rot_next r h = Inr (?r', promise_then p RThen h')"
    using Some st by (simp add: rot_next_def)
  have idx: "current_index ?r' < length (words ?r')" using ne by simp
  show ?thesis
  proof (cases "all_done 0 (queue s')")
    case True
    with dn have hh: "h' = h1\<lparr>settled := p # settled h1\<rparr>"
      using resolve_promise_fresh [of h1 p] fresh h1 by simp
    then have hf: "promise_then p RThen h' = h1\<lparr>settled := p # settled h1, jobs := [RThen]\<rparr>"
      using h1 by (simp add: promise_then_def)
    have "host_wf (promise_then p RThen h')"
      using wf1 hh h1 p by (auto simp: host_wf_def promise_then_def)
    then show ?thesis using nx hf h1 rs p idx by (simp add: rot_inv_def)
  next
    case False
    with nd have hh: "h' = h1\<lparr>handle_next := Suc (Suc (handle_next h)), frames := [(Suc (handle_next h), RUpdate)]\<rparr>"
      and fq: "frame_request s' = Some (Suc (handle_next h))" "frame s' = 1" using h1 by simp_all
    have hf: "promise_then p RThen h' = h'\<lparr>reactions := [(p, RThen)]\<rparr>"
      using hh h1 fresh by (simp add: promise_then_def)
    have me: "1 \<le> max_end (queue s')" using False by (simp add: all_done_max_end)
    have "host_wf (promise_then p RThen h')"
      using wf1 hh h1 p hf by (auto simp: host_wf_def)
    then show ?thesis using nx hf hh h1 rs p idx fq me fresh by (simp add: rot_inv_def)
  qed
qed

lemma rot_inv_fields: "rot_inv (rotator_fields content ws opt, page_host rnd)"
  by (simp add: rot_inv_def rotator_fields_def new_scrambler_def page_host_def host_wf_def)

lemma rot_inv_update:
  assumes inv: "rot_inv (r, h)" and f: "frames h = (i, cb) # fs"
  shows "rot_inv (state_of (run_cb cb r (h\<lparr>frames := fs\<rparr>)))"
proof -
  from inv f have cb: "cb = RUpdate" and fs: "fs = []" and fq: "frame_request (scr r) = Some i"
    and wf: "host_wf h"
    and idx: "words r \<noteq> [] \<longrightarrow> current_index r < length (words r)"
    by (auto simp: rot_inv_def)
  from inv f obtain p where rs: "resolve (scr r) = Some p" and ns: "p \<notin> set (settled h)"
    and fm: "frame (scr r) \<le> max_end (queue (scr r))" and pl: "p < handle_next h"
    and tj: "timers h = []" "jobs h = []" and rl: "length (reactions h) \<le> 1"
    and re: "\<forall>(q, c) \<in> set (reactions h). q = p \<and> c = RThen"
    by (auto simp: rot_inv_def)
  let ?h0 = "h\<lparr>frames := []\<rparr>"
  have wf0: "host_wf ?h0" using wf by (auto simp: host_wf_def)
  show ?thesis
  proof (cases "all_done (frame (scr r)) (queue (scr r))")
    case True
    have u: "run_cb cb r ?h0 = Inr (r\<lparr>scr := scr r\<lparr>el := map (\<lambda>t. Text (t_to t)) (queue (scr r))\<rparr>\<rparr>, resolve_promise p ?h0)"
      using update_done [OF True rs, of RUpdate ?h0] cb by simp
    have "host_wf (resolve_promise p ?h0)" using host_wf_resolve [OF wf0] pl by simp
    moreover have "filter (\<lambda>(q, _). q = p) (reactions h) = reactions h" "filter (\<lambda>(q, _). q \<noteq> p) (reactions h) = []"
      using re by (auto simp: filter_id_conv filter_empty_conv)
    then have "jobs (resolve_promise p ?h0) = map snd (reactions h)" "reactions (resolve_promise p ?h0) = []"
      "timers (resolve_promise p ?h0) = []" "frames (resolve_promise p ?h0) = []"
      using ns tj by (simp_all add: resolve_promise_def)
    moreover have "\<forall>c \<in> set (map snd (reactions h)). c = RThen" using re by auto
    ultimately show ?thesis using u fs rs pl idx rl by (simp add: rot_inv_def)
  next
    case False
    from update_step [OF False, of RUpdate ?h0] obtain q h1 where
      u: "update RUpdate (scr r) ?h0 = Inr (scr r\<lparr>queue := q, el := map (render_task (frame (scr r))) q,
          frame_request := Some (handle_next ?h0), frame := Suc (frame (scr r))\<rparr>,
          h1\<lparr>handle_next := Suc (handle_next ?h0), frames := frames ?h0 @ [(handle_next ?h0, RUpdate)]\<rparr>)"
      and st: "map strip q = map strip (queue (scr r))" and r1: "rand_only ?h0 h1" by blast
    have h1: "timers h1 = []" "handle_next h1 = handle_next h" "settled h1 = settled h"
      "reactions h1 = reactions h" "jobs h1 = []" "frames h1 = []"
      using rand_only_fields [OF r1] tj by simp_all
    have wf1: "host_wf h1" using host_wf_rand_only [OF r1] wf0 by simp
    have me: "Suc (frame (scr r)) \<le> max_end q"
      using False max_end_strip [OF st] by (simp add: all_done_max_end)
    have "host_wf (h1\<lparr>handle_next := Suc (handle_next h), frames := [(handle_next h, RUpdate)]\<rparr>)"
      using wf1 h1 by (auto simp: host_wf_def)
    then show ?thesis using u cb fs h1 re rs ns pl idx me rl by (simp add: rot_inv_def)
  qed
qed

lemma rot_inv_then:
  assumes "rot_inv (r, h)" and "frames h = []" and "timers h = []" and "jobs h = []"
  shows "rot_inv (rot_then r h)"
proof -
  have "host_wf (snd (set_timeout RNext (interval r) h))"
    using assms by (intro host_wf_set_timeout) (simp add: rot_inv_def)
  then show ?thesis using assms
    by (auto simp: rot_inv_def rot_then_def set_timeout_def)
qed

lemma rot_inv_timers_sub:
  assumes inv: "rot_inv (r, h)" and sub: "set ts \<subseteq> set (timers h)" and len: "length ts \<le> length (timers h)"
  shows "rot_inv (r, h\<lparr>timers := ts\<rparr>)"
proof -
  have wf: "host_wf (h\<lparr>timers := ts\<rparr>)"
    using inv sub by (intro host_wf_timers_sub) (simp_all add: rot_inv_def)
  have "timers h = [] \<Longrightarrow> ts = []" using sub by simp
  moreover have "length ts + length (jobs h) \<le> length (timers h) + length (jobs h)" using len by simp
  ultimately show ?thesis using inv wf sub unfolding rot_inv_def by (auto dest: le_trans)
qed

lemma clear_timeout_eq: "clear_timeout t h = h\<lparr>timers := (case t of None \<Rightarrow> timers h | Some i \<Rightarrow> filter (\<lambda>(j, _). j \<noteq> i) (timers h))\<rparr>"
  by (simp add: clear_timeout_def split: option.splits)

lemma loop_step_inv: "loop_step w w' \<Longrightarrow> rot_inv w \<Longrightarrow> rot_inv w'"
proof (induction rule: loop_step.induct)
  case (job h cb rest r)
  then have cb: "cb = RThen" and idle: "frames h = []" "timers h = []" "rest = []"
    by (auto simp: rot_inv_def)
  have "rot_inv (r, h\<lparr>jobs := rest\<rparr>)" using job idle by (auto simp: rot_inv_def)
  then show ?case using cb idle rot_inv_then [of r "h\<lparr>jobs := rest\<rparr>"] by simp
next
  case (frame h i cb fs r)
  from rot_inv_update [OF frame.prems frame.hyps(2)] show ?case .
next
  case (timer h i due cb r)
  then have cb: "cb = RNext" and idle: "frames h = []" "timers h = [(i, due, cb)]"
    by (auto simp: rot_inv_def le_Suc_eq length_Suc_conv)
  let ?h' = "h\<lparr>timers := filter (\<lambda>(j, _). j \<noteq> i) (timers h)\<rparr>"
  have t': "timers ?h' = []" using idle by simp
  have "rot_inv (r, ?h')" using timer.prems by (intro rot_inv_timers_sub) auto
  then show ?case using cb rot_next_inv [of r ?h'] idle t' timer.hyps(1) by simp
next
  case (tick h d r)
  then show ?case by (simp add: rot_inv_def)
next
  case (stop h r)
  have "rot_inv (r, clear_timeout (timeout_id r) h)"
    unfolding clear_timeout_eq using stop.prems
    by (intro rot_inv_timers_sub) (auto split: option.splits)
  then show ?case by (simp add: rot_stop_def)
qed

lemma reachable_inv: "reachable w \<Longrightarrow> rot_inv w"
proof (induction rule: reachable.induct)
  case (init content ws opt rnd)
  show ?case using rot_next_inv [OF rot_inv_fields] by (simp add: new_rotator_def page_host_def)
next
  case (step w w')
  then show ?case by (blast intro: loop_step_inv)
qed

subsection \<open>Properties of every reachable world\<close>

lemma reachable_demo_world: "reachable demo_world"
  unfolding demo_world_def by (rule reachable.init)

lemma demo_world_eval:
  "frames (snd demo_world) = [(2, RUpdate)] \<and> frame_request (scr (fst demo_world)) = Some 2
   \<and> resolve (scr (fst demo_world)) = Some 1 \<and> handle_next (snd demo_world) = 3
   \<and> settled (snd demo_world) = [] \<and> reactions (snd demo_world) = [(1, RThen)]
   \<and> words (fst demo_world) = [js ''Go'', js ''Hi''] \<and> current_index (fst demo_world) = 1"
  by (simp add: demo_world_def new_rotator_def rot_next_def rotator_fields_def scramble_eval
      promise_then_def)

text \<open>
  C7. At most one animation frame is ever pending, and it is the scrambler's own
  \<open>update\<close>, under the handle stored in \<open>frameRequest\<close>: \<open>setText\<close> cancels the
  previous request before it asks for a new frame, so two transitions never animate the
  element at once.
\<close>

theorem reachable_single_frame:
  assumes "reachable (r, h)"
  shows "length (frames h) \<le> 1 \<and> (\<forall>(i, c) \<in> set (frames h). c = RUpdate \<and> frame_request (scr r) = Some i)"
  using reachable_inv [OF assms] by (simp add: rot_inv_def)

theorem reachable_single_frame_witness:
  "length (frames (snd demo_world)) \<le> 1 \<and> frame_request (scr (fst demo_world)) = Some 2"
  using reachable_single_frame [of "fst demo_world" "snd demo_world"] reachable_demo_world demo_world_eval
  by simp

text \<open>
  C8. In every reachable world of a rotator with at least one word, every callback the
  host has scheduled (a frame, a timer or a microtask) returns normally when it runs:
  the \<open>TypeError\<close>s of \<open>update\<close> (no resolver) and of \<open>next\<close> (no word) never occur.
\<close>

theorem reachable_callbacks_return:
  assumes "reachable (r, h)" and "words r \<noteq> []"
    and "(\<exists>i. (i, cb) \<in> set (frames h)) \<or> (\<exists>i d. (i, d, cb) \<in> set (timers h)) \<or> cb \<in> set (jobs h)"
  shows "\<exists>w'. run_cb cb r h' = Inr w'"
proof -
  note inv = reachable_inv [OF assms(1)]
  show ?thesis
  proof (cases cb)
    case RUpdate
    with assms(3) inv have "frames h \<noteq> []" by (auto simp: rot_inv_def split: if_splits)
    with inv obtain p where "resolve (scr r) = Some p" by (auto simp: rot_inv_def)
    from update_Inr [OF this, of RUpdate h'] RUpdate show ?thesis by (auto split: sum.splits)
  next
    case RThen
    then show ?thesis by simp
  next
    case RNext
    from inv assms(2) have "current_index r < length (words r)" by (simp add: rot_inv_def)
    then obtain w where w: "js_nth (words r) (current_index r) = Some w" by simp
    obtain p s' h2 where "setText RUpdate w (scr r) h' = Inr (p, s', h2)"
      using setText_Inr_exists [of RUpdate w "scr r" h'] by blast
    with w RNext show ?thesis by (simp add: rot_next_def)
  qed
qed


theorem reachable_callbacks_return_witness:
  "\<exists>w'. run_cb RUpdate (fst demo_world) ((snd demo_world)\<lparr>frames := []\<rparr>) = Inr w'"
  using reachable_callbacks_return [of "fst demo_world" "snd demo_world" RUpdate]
    reachable_demo_world demo_world_eval
  by simp

text \<open>The promise \<open>p\<close> was handed out, is unresolved and is not the scrambler's current one.\<close>

lemma run_cb_keeps_stale:
  assumes "p < handle_next h" and "p \<notin> set (settled h)" and "resolve (scr r) \<noteq> Some p"
    and "state_of (run_cb cb r h) = (r', h')"
  shows "p < handle_next h' \<and> p \<notin> set (settled h') \<and> resolve (scr r') \<noteq> Some p"
proof (cases cb)
  case RUpdate
  obtain s' h2 where u: "state_of (update RUpdate (scr r) h) = (s', h2)" by fastforce
  from update_settled [OF u] have "set (settled h2) \<subseteq> set (settled h) \<union> {q. resolve (scr r) = Some q}"
    "handle_next h \<le> handle_next h2" "resolve s' = resolve (scr r)" by blast+
  moreover have "r' = r\<lparr>scr := s'\<rparr>" "h' = h2"
    using assms(4) u RUpdate by (auto simp: state_of_def split: sum.splits)
  ultimately show ?thesis using assms(1-3) by auto
next
  case RThen
  then show ?thesis using assms
    by (auto simp: rot_then_def set_timeout_def)
next
  case RNext
  show ?thesis
  proof (cases "js_nth (words r) (current_index r)")
    case None
    then show ?thesis using assms RNext by (simp add: rot_next_def)
  next
    case (Some w)
    obtain q s' h2 where st: "setText RUpdate w (scr r) h = Inr (q, s', h2)"
      using setText_Inr_exists [of RUpdate w "scr r" h] by blast
    note f = setText_settled [OF st]
    have "r' = r\<lparr>scr := s', current_index := (current_index r + 1) mod length (words r)\<rparr>"
      "h' = promise_then q RThen h2"
      using assms(4) RNext Some st by (simp_all add: rot_next_def)
    then show ?thesis using f assms(1-3) by auto
  qed
qed

lemma loop_step_keeps_stale:
  assumes "loop_step w w'" and "p < handle_next (snd w)" and "p \<notin> set (settled (snd w))"
    and "resolve (scr (fst w)) \<noteq> Some p"
  shows "p < handle_next (snd w') \<and> p \<notin> set (settled (snd w')) \<and> resolve (scr (fst w')) \<noteq> Some p"
  using assms
proof (induction rule: loop_step.induct)
  case (job h cb rest r)
  then show ?case using run_cb_keeps_stale [of p "h\<lparr>jobs := rest\<rparr>" r cb] by (cases "state_of (run_cb cb r (h\<lparr>jobs := rest\<rparr>))") auto
next
  case (frame h i cb fs r)
  then show ?case using run_cb_keeps_stale [of p "h\<lparr>frames := fs\<rparr>" r cb] by (cases "state_of (run_cb cb r (h\<lparr>frames := fs\<rparr>))") auto
next
  case (timer h i due cb r)
  let ?h = "h\<lparr>timers := filter (\<lambda>(j, _). j \<noteq> i) (timers h)\<rparr>"
  show ?case using timer run_cb_keeps_stale [of p ?h r cb] by (cases "state_of (run_cb cb r ?h)") auto
next
  case (tick h d r)
  then show ?case by simp
next
  case (stop h r)
  then show ?case by (simp add: rot_stop_def)
qed



subsection \<open>Calling \<open>stop()\<close> while a transition animates\<close>

lemma in_flight_shape:
  assumes "rot_inv (r, h)" and "frames h \<noteq> []" and "(p, RThen) \<in> set (reactions h)"
  shows "\<exists>i. frames h = [(i, RUpdate)] \<and> frame_request (scr r) = Some i \<and> resolve (scr r) = Some p
    \<and> p \<notin> set (settled h) \<and> p < handle_next h \<and> timers h = [] \<and> jobs h = [] \<and> reactions h = [(p, RThen)]
    \<and> frame (scr r) \<le> max_end (queue (scr r)) \<and> host_wf h"
proof -
  from assms obtain i fs where f: "frames h = (i, RUpdate) # fs" "frame_request (scr r) = Some i"
    by (cases "frames h") (auto simp: rot_inv_def)
  with assms(1) have "fs = []" by (simp add: rot_inv_def)
  moreover from assms obtain q where "resolve (scr r) = Some q" "q \<notin> set (settled h)"
    "frame (scr r) \<le> max_end (queue (scr r))" "timers h = []" "jobs h = []"
    "length (reactions h) \<le> 1" "\<forall>(q', c) \<in> set (reactions h). q' = q \<and> c = RThen"
    "q < handle_next h" "host_wf h"
    by (auto simp: rot_inv_def)
  moreover from calculation assms(3) have "q = p" by auto
  moreover from calculation assms(3) have "reactions h = [(p, RThen)]"
    by (cases "reactions h") auto
  ultimately show ?thesis using f by auto
qed

lemma drain_frames:
  assumes "rot_inv (r, h)" and "frames h \<noteq> []" and "(p, RThen) \<in> set (reactions h)"
  shows "\<exists>r' h'. loop_step\<^sup>*\<^sup>* (r, h) (r', h') \<and> rot_inv (r', h') \<and> frames h' = [] \<and> jobs h' = [RThen]
    \<and> timers h' = [] \<and> words r' = words r \<and> current_index r' = current_index r
    \<and> interval r' = interval r \<and> handle_next h \<le> handle_next h'"
  using assms
proof (induction "max_end (queue (scr r)) - frame (scr r)" arbitrary: r h rule: less_induct)
  case less
  from in_flight_shape [OF less.prems] obtain i where f: "frames h = [(i, RUpdate)]"
    and rs: "resolve (scr r) = Some p" and ns: "p \<notin> set (settled h)" and tj: "timers h = []" "jobs h = []"
    and re: "reactions h = [(p, RThen)]" and fm: "frame (scr r) \<le> max_end (queue (scr r))" by blast
  let ?h0 = "h\<lparr>frames := []\<rparr>"
  have st: "loop_step (r, h) (state_of (run_cb RUpdate r ?h0))"
    using loop_step.frame [of h i RUpdate "[]" r] f tj by simp
  have inv1: "rot_inv (state_of (run_cb RUpdate r ?h0))" by (rule loop_step_inv [OF st less.prems(1)])
  show ?case
  proof (cases "all_done (frame (scr r)) (queue (scr r))")
    case True
    let ?r1 = "r\<lparr>scr := scr r\<lparr>el := map (\<lambda>t. Text (t_to t)) (queue (scr r))\<rparr>\<rparr>"
    have u: "run_cb RUpdate r ?h0 = Inr (?r1, resolve_promise p ?h0)"
      using update_done [OF True rs, of RUpdate ?h0] by simp
    have "jobs (resolve_promise p ?h0) = [RThen]" "frames (resolve_promise p ?h0) = []"
      "timers (resolve_promise p ?h0) = []" "handle_next (resolve_promise p ?h0) = handle_next h"
      using re ns tj by (simp_all add: resolve_promise_def)
    then show ?thesis using st inv1 u by (intro exI [of _ ?r1] exI [of _ "resolve_promise p ?h0"]) auto
  next
    case False
    from update_step [OF False, of RUpdate ?h0] obtain q h1 where
      u: "update RUpdate (scr r) ?h0 = Inr (scr r\<lparr>queue := q, el := map (render_task (frame (scr r))) q,
          frame_request := Some (handle_next ?h0), frame := Suc (frame (scr r))\<rparr>,
          h1\<lparr>handle_next := Suc (handle_next ?h0), frames := frames ?h0 @ [(handle_next ?h0, RUpdate)]\<rparr>)"
      and sq: "map strip q = map strip (queue (scr r))" and r1: "rand_only ?h0 h1" by blast
    let ?r1 = "r\<lparr>scr := scr r\<lparr>queue := q, el := map (render_task (frame (scr r))) q,
          frame_request := Some (handle_next h), frame := Suc (frame (scr r))\<rparr>\<rparr>"
    let ?h1 = "h1\<lparr>handle_next := Suc (handle_next h), frames := [(handle_next h, RUpdate)]\<rparr>"
    have w1: "state_of (run_cb RUpdate r ?h0) = (?r1, ?h1)" using u by simp
    have h1: "reactions h1 = reactions h" "handle_next h1 = handle_next h"
      using rand_only_fields [OF r1] by simp_all
    have me: "max_end q = max_end (queue (scr r))" using max_end_strip [of q "queue (scr r)"] sq by simp
    have lt: "max_end (queue (scr r)) - frame (scr r) > 0" using False by (simp add: all_done_max_end)
    have "max_end (queue (scr ?r1)) - frame (scr ?r1) < max_end (queue (scr r)) - frame (scr r)"
      using me lt by simp
    moreover have "rot_inv (?r1, ?h1)" using inv1 w1 by simp
    moreover have "frames ?h1 \<noteq> []" "(p, RThen) \<in> set (reactions ?h1)" using h1 re by simp_all
    ultimately obtain r' h' where ih: "loop_step\<^sup>*\<^sup>* (?r1, ?h1) (r', h')" "rot_inv (r', h')" "frames h' = []"
      "jobs h' = [RThen]" "timers h' = []" "words r' = words ?r1" "current_index r' = current_index ?r1"
      "interval r' = interval ?r1" "handle_next ?h1 \<le> handle_next h'"
      using less.hyps by blast
    have "loop_step\<^sup>*\<^sup>* (r, h) (r', h')" using st w1 ih(1) by (simp add: converse_rtranclp_into_rtranclp)
    then show ?thesis using ih h1 by (intro exI [of _ r'] exI [of _ h']) simp
  qed
qed


lemma rot_next_starts:
  assumes "rot_inv (r, h)" and "words r \<noteq> []"
  obtains r' h' q where "rot_next r h = Inr (r', h')" and "resolve (scr r') = Some q" and "handle_next h \<le> q"
    and "current_index r' = (current_index r + 1) mod length (words r)" and "words r' = words r"
proof -
  from assms have "current_index r < length (words r)" by (simp add: rot_inv_def)
  then obtain w where w: "js_nth (words r) (current_index r) = Some w" by simp
  obtain q s' h2 where st: "setText RUpdate w (scr r) h = Inr (q, s', h2)"
    using setText_Inr_exists [of RUpdate w "scr r" h] by blast
  note f = setText_settled [OF st]
  show ?thesis
    by (rule that [of "r\<lparr>scr := s', current_index := (current_index r + 1) mod length (words r)\<rparr>"
        "promise_then q RThen h2" q]) (use w st f in \<open>simp_all add: rot_next_def\<close>)
qed

text \<open>
  C10. \<open>stop()\<close> does not stop a rotator whose transition is still animating. While
  frames are pending no timeout is stored, so \<open>clearTimeout\<close> has nothing to clear and
  \<open>stop\<close> leaves the world unchanged; the loop then finishes the transition, the
  \<open>then\<close> reaction arms a new timeout, and when it fires \<open>next()\<close> starts the
  transition to the following word under a new promise.
\<close>

theorem stop_in_flight_rotates:
  assumes "reachable (r, h)" and "words r \<noteq> []"
    and "frames h \<noteq> []" and "(p, RThen) \<in> set (reactions h)"
  shows "rot_stop r h = (r, h)
    \<and> (\<exists>r' h'. loop_step\<^sup>*\<^sup>* (rot_stop r h) (r', h') \<and> resolve (scr r') \<noteq> Some p
         \<and> current_index r' = (current_index r + 1) mod length (words r))"
proof -
  note inv = reachable_inv [OF assms(1)]
  from in_flight_shape [OF inv assms(3,4)] have tj: "timers h = []" and pl: "p < handle_next h" by auto
  have stop: "rot_stop r h = (r, h)" using tj by (simp add: rot_stop_def clear_timeout_eq split: option.splits)
  from drain_frames [OF inv assms(3,4)] obtain r1 h1 where d: "loop_step\<^sup>*\<^sup>* (r, h) (r1, h1)" "rot_inv (r1, h1)"
    "frames h1 = []" "jobs h1 = [RThen]" "timers h1 = []" "words r1 = words r"
    "current_index r1 = current_index r" "interval r1 = interval r" "handle_next h \<le> handle_next h1"
    by blast
  let ?h1 = "h1\<lparr>jobs := []\<rparr>"
  obtain r2 h2 where rt: "rot_then r1 ?h1 = (r2, h2)" by fastforce
  have j: "loop_step (r1, h1) (r2, h2)" using loop_step.job [of h1 RThen "[]" r1] d(4) rt by simp
  let ?due = "now h1 + max 0 (interval r1)"
  have h2: "timers h2 = [(handle_next h1, ?due, RNext)]" "jobs h2 = []" "now h2 = now h1"
    "handle_next h2 = Suc (handle_next h1)" "r2 = r1\<lparr>timeout_id := Some (handle_next h1)\<rparr>"
    using rt d(5) by (auto simp: rot_then_def set_timeout_def)
  let ?h3 = "h2\<lparr>now := now h2 + (max 0 (interval r1) + 1)\<rparr>"
  have t: "loop_step (r2, h2) (r2, ?h3)" using loop_step.tick [of h2 "max 0 (interval r1) + 1" r2] h2 by simp
  let ?h4 = "?h3\<lparr>timers := []\<rparr>"
  have "loop_step (r2, ?h3) (state_of (run_cb RNext r2 ?h4))"
    using loop_step.timer [of ?h3 "handle_next h1" ?due RNext r2] h2 by simp
  moreover have "rot_inv (r2, h2)" using loop_step_inv [OF j d(2)] .
  then have "rot_inv (r2, ?h4)" using h2 by (simp add: rot_inv_def host_wf_def)
  moreover have "words r2 \<noteq> []" using h2 d(6) assms(2) by simp
  ultimately obtain r' h' q where nx: "loop_step (r2, ?h3) (r', h')" "resolve (scr r') = Some q"
    "handle_next ?h4 \<le> q" "current_index r' = (current_index r2 + 1) mod length (words r2)"
    using rot_next_starts [of r2 ?h4] by (metis run_cb.simps(3) state_of_simps(2))
  have "loop_step\<^sup>*\<^sup>* (r, h) (r', h')"
    using d(1) j t nx(1) by (meson rtranclp.rtrancl_into_rtrancl)
  moreover have "q \<noteq> p" using nx(3) h2 d(9) pl by simp
  ultimately show ?thesis using stop nx h2 d by auto
qed


theorem stop_in_flight_rotates_witness:
  "rot_stop (fst demo_world) (snd demo_world) = demo_world
   \<and> (\<exists>r' h'. loop_step\<^sup>*\<^sup>* (rot_stop (fst demo_world) (snd demo_world)) (r', h')
        \<and> resolve (scr r') \<noteq> Some 1 \<and> current_index r' = 0)"
  using stop_in_flight_rotates [of "fst demo_world" "snd demo_world" 1] reachable_demo_world demo_world_eval
  by simp metis

subsection \<open>The transition to the next word\<close>

text \<open>
  C11. \<open>next()\<close> on every branch: with the index out of range (in particular with no
  words) it throws a \<open>TypeError\<close> and changes nothing; otherwise it starts a
  \<open>setText\<close> session whose queue spells the current word under a fresh promise,
  registers the \<open>then\<close> reaction on that promise (queued at once if the session
  already finished) and advances the index cyclically.
\<close>

theorem rot_next_spec:
  "(length (words r) \<le> current_index r \<longrightarrow> rot_next r h = Inl (TypeError, (r, h)))
   \<and> (current_index r < length (words r) \<longrightarrow>
       (\<exists>s' h'. rot_next r h = Inr (r\<lparr>scr := s', current_index := Suc (current_index r) mod length (words r)\<rparr>, h')
          \<and> resolve s' = Some (handle_next h) \<and> concat (map t_to (queue s')) = words r ! current_index r
          \<and> ((handle_next h, RThen) \<in> set (reactions h') \<or> RThen \<in> set (jobs h'))))"
proof (cases "current_index r < length (words r)")
  case False
  then show ?thesis by (simp add: rot_next_def)
next
  case True
  let ?w = "words r ! current_index r"
  obtain q s' h2 where st: "setText RUpdate ?w (scr r) h = Inr (q, s', h2)"
    using setText_Inr_exists [of RUpdate ?w "scr r" h] by blast
  note f = setText_settled [OF st] setText_target [OF st]
  have "(q, RThen) \<in> set (reactions (promise_then q RThen h2)) \<or> RThen \<in> set (jobs (promise_then q RThen h2))"
    by (simp add: promise_then_def)
  moreover have "rot_next r h = Inr (r\<lparr>scr := s', current_index := Suc (current_index r) mod length (words r)\<rparr>,
      promise_then q RThen h2)"
    using True st by (simp add: rot_next_def)
  ultimately show ?thesis using True f by (intro conjI impI exI [of _ s'] exI [of _ "promise_then q RThen h2"]) auto
qed

theorem rot_next_spec_witness:
  "(\<exists>s' h'. rot_next (fst demo_world) (snd demo_world) = Inr ((fst demo_world)\<lparr>scr := s', current_index := 0\<rparr>, h')
      \<and> concat (map t_to (queue s')) = js ''Hi'')
   \<and> rot_next (rotator_fields [] [] None) (page_host (\<lambda>_. 0))
       = Inl (TypeError, (rotator_fields [] [] None, page_host (\<lambda>_. 0)))"
  using rot_next_spec [of "fst demo_world" "snd demo_world"]
    rot_next_spec [of "rotator_fields [] [] None" "page_host (\<lambda>_. 0)"] demo_world_eval
  by (simp add: rotator_fields_def) blast

end
