(* ===== verification/Kinetic.thy ===== *)
theory Kinetic
  imports Rotator
begin

text \<open>
  The helpers of the kinetic-typography module around the scrambler
  (\<open>src/unnamed/part_001\<close>): \<open>splitText\<close> (lines 10--44), \<open>glitchText\<close>
  (lines 200--203) and the \<open>[data-kinetic="rotate"]\<close> branch of \<open>initKineticText\<close>
  (lines 264--270), which parses \<open>data-words\<close> and \<open>data-interval\<close> and constructs a
  \<open>WordRotator\<close>. An element is the list of its child nodes with the attributes the
  code writes; \<open>parseInt(s, 10)\<close> is \<open>parse_int\<close>, \<open>NaN\<close> being \<open>None\<close>.
\<close>

datatype node = Span (span_class: jstr) (span_index: nat) (span_text: jstr) | TextNode jstr

record element =
  children :: "node list"
  aria_label :: "jstr option"
  classes :: "jstr list"
  data_text :: "jstr option"

definition node_text :: "node \<Rightarrow> jstr" where
  "node_text n = (case n of Span _ _ t \<Rightarrow> t | TextNode t \<Rightarrow> t)"

definition el_text :: "node list \<Rightarrow> jstr" where
  "el_text ns = concat (map node_text ns)"

text \<open>One character span: a space is written as a no-break space (U+00A0).\<close>

definition char_span :: "nat \<Rightarrow> code_unit \<Rightarrow> node" where
  "char_span i c = Span (js ''char'') i (if c = 0x20 then [0xA0] else [c])"

text \<open>The word spans, with a text node holding one space after every word but the last.\<close>

fun word_nodes :: "nat \<Rightarrow> jstr list \<Rightarrow> node list" where
  "word_nodes i [] = []"
| "word_nodes i [w] = [Span (js ''word'') i w]"
| "word_nodes i (w # v # ws) = Span (js ''word'') i w # TextNode [0x20] # word_nodes (Suc i) (v # ws)"

definition splitText :: "jstr \<Rightarrow> element \<Rightarrow> element" where
  "splitText ty e =
     (let text = js_trim (el_text (children e));
          e1 = e\<lparr>children := [], aria_label := Some text\<rparr>;
          e2 = (if ty = js ''chars''
                then e1\<lparr>children := children e1 @ map2 char_span [0..<length text] text\<rparr> else e1)
      in if ty = js ''words''
         then e2\<lparr>children := children e2 @ word_nodes 0 (js_split 0x20 text)\<rparr> else e2)"

definition glitchText :: "element \<Rightarrow> element" where
  "glitchText e = e\<lparr>classes := classes e @ [js ''glitch''], data_text := Some (el_text (children e))\<rparr>"

subsection \<open>parseInt with radix 10\<close>

definition is_digit :: "code_unit \<Rightarrow> bool" where
  "is_digit c \<longleftrightarrow> 0x30 \<le> c \<and> c \<le> 0x39"

definition digits_value :: "jstr \<Rightarrow> nat" where
  "digits_value ds = foldl (\<lambda>n c. 10 * n + (unat c - 48)) 0 ds"

text \<open>
  \<open>parseInt(a, 10)\<close>: the argument is converted to a string (\<open>undefined\<close> for a missing
  attribute), leading white space is skipped, one sign is read, then the longest run of
  decimal digits; no digit gives \<open>NaN\<close>.
\<close>

definition parse_int :: "jstr option \<Rightarrow> int option" where
  "parse_int a =
     (let s = dropWhile js_ws (case a of None \<Rightarrow> js ''undefined'' | Some v \<Rightarrow> v);
          (sg, r) = (case s of [] \<Rightarrow> (1 :: int, [])
                      | c # cs \<Rightarrow> if c = 0x2D then (-1, cs) else if c = 0x2B then (1, cs) else (1, s));
          ds = takeWhile is_digit r
      in if ds = [] then None else Some (sg * int (digits_value ds)))"

text \<open>The decimal form of an integer, as an author writes it in an attribute.\<close>

fun dec_digits :: "nat \<Rightarrow> jstr" where
  "dec_digits n = (if n < 10 then [of_nat (48 + n)] else dec_digits (n div 10) @ [of_nat (48 + n mod 10)])"

declare dec_digits.simps [simp del]

definition int_to_js :: "int \<Rightarrow> jstr" where
  "int_to_js i = (if i < 0 then 0x2D # dec_digits (nat (- i)) else dec_digits (nat i))"

subsection \<open>The rotate branch of initKineticText\<close>

text \<open>\<open>el.dataset.words?.split(',').map((w) => w.trim()) || []\<close>.\<close>

definition kinetic_words :: "jstr option \<Rightarrow> jstr list" where
  "kinetic_words a = (case a of None \<Rightarrow> [] | Some s \<Rightarrow> map js_trim (js_split 0x2C s))"

text \<open>\<open>parseInt(el.dataset.interval, 10) || 3000\<close>: \<open>NaN\<close> and \<open>0\<close> are falsy.\<close>

definition kinetic_interval :: "jstr option \<Rightarrow> int" where
  "kinetic_interval a = (case parse_int a of None \<Rightarrow> 3000 | Some v \<Rightarrow> if v = 0 then 3000 else v)"

definition init_rotate :: "piece list \<Rightarrow> jstr option \<Rightarrow> jstr option \<Rightarrow> rcb host
    \<Rightarrow> (rotator \<times> rcb host) completion option" where
  "init_rotate content wa ia h =
     (let ws = kinetic_words wa
      in if 0 < length ws then Some (new_rotator content ws (Some (kinetic_interval ia)) h) else None)"

subsection \<open>Properties\<close>

lemma el_text_append [simp]: "el_text (xs @ ys) = el_text xs @ el_text ys"
  and el_text_Nil [simp]: "el_text [] = []"
  and el_text_Cons [simp]: "el_text (n # ns) = node_text n @ el_text ns"
  by (simp_all add: el_text_def)

lemma el_text_word_nodes: "el_text (word_nodes i ws) = js_join 0x20 ws"
  by (induction i ws rule: word_nodes.induct) (simp_all add: node_text_def)

lemma el_text_char_spans:
  "el_text (map2 char_span [i..<i + length t] t) = map (\<lambda>c. if c = 0x20 then 0xA0 else c) t"
proof (induction t arbitrary: i)
  case Nil
  then show ?case by simp
next
  case (Cons c t)
  have "[i..<i + length (c # t)] = i # [Suc i..<Suc i + length t]" by (simp add: upt_rec)
  then show ?case using Cons [of "Suc i"] by (simp add: char_span_def node_text_def)
qed

lemma splitText_chars:
  "splitText (js ''chars'') e = e\<lparr>children := map2 char_span [0..<length (js_trim (el_text (children e)))] (js_trim (el_text (children e))),
     aria_label := Some (js_trim (el_text (children e)))\<rparr>"
  by (simp add: splitText_def Let_def)

lemma splitText_words:
  "splitText (js ''words'') e = e\<lparr>children := word_nodes 0 (js_split 0x20 (js_trim (el_text (children e)))),
     aria_label := Some (js_trim (el_text (children e)))\<rparr>"
  by (simp add: splitText_def Let_def)

text \<open>
  C12. Splitting into words keeps the text: the word spans and the one-space text
  nodes between them read back as the trimmed text content, whatever runs of spaces it
  holds (an empty span stands for each empty word).
\<close>

theorem splitText_words_text:
  "el_text (children (splitText (js ''words'') e)) = js_trim (el_text (children e))"
  unfolding splitText_words by (simp add: el_text_word_nodes js_join_split)

lemma span_index_char_spans:
  "length xs = length ys \<Longrightarrow> map span_index (map2 char_span xs ys) = xs"
  by (induction xs ys rule: list_induct2) (simp_all add: char_span_def)

text \<open>
  C13. Splitting into characters gives one span per code unit of the trimmed text,
  numbered from 0 by \<open>--char-index\<close>, whose contents read back as that text with
  every space replaced by a no-break space; the label for assistive technology is the
  trimmed text.
\<close>

theorem splitText_chars_text:
  "el_text (children (splitText (js ''chars'') e)) = map (\<lambda>c. if c = 0x20 then 0xA0 else c) (js_trim (el_text (children e)))
   \<and> map span_index (children (splitText (js ''chars'') e)) = [0..<length (js_trim (el_text (children e)))]
   \<and> aria_label (splitText (js ''chars'') e) = Some (js_trim (el_text (children e)))"
  unfolding splitText_chars using el_text_char_spans [of 0 "js_trim (el_text (children e))"]
    span_index_char_spans [of "[0..<length (js_trim (el_text (children e)))]" "js_trim (el_text (children e))"]
  by simp




lemma digit_word: "d < 10 \<Longrightarrow> unat (48 + of_nat d :: code_unit) = 48 + d"
proof -
  assume "d < 10"
  then have "48 + d < 2 ^ LENGTH(16)" by simp
  then have "unat (word_of_nat (48 + d) :: code_unit) = 48 + d" by (simp only: unat_of_nat mod_less)
  then show ?thesis by simp
qed

lemma is_digit_word: "d < 10 \<Longrightarrow> is_digit (48 + of_nat d)"
  by (simp add: is_digit_def word_le_nat_alt digit_word)

lemma is_digit_not_sign: "is_digit c \<Longrightarrow> \<not> js_ws c \<and> c \<noteq> 0x2D \<and> c \<noteq> 0x2B"
  by (auto simp: is_digit_def js_ws_def)

lemma digits_value_snoc: "digits_value (xs @ [c]) = 10 * digits_value xs + (unat c - 48)"
  by (simp add: digits_value_def)

lemma dec_digits_spec:
  "dec_digits n \<noteq> [] \<and> (\<forall>c \<in> set (dec_digits n). is_digit c) \<and> digits_value (dec_digits n) = n"
proof (induction n rule: dec_digits.induct)
  case (1 n)
  show ?case
  proof (cases "n < 10")
    case True
    then show ?thesis by (simp add: dec_digits.simps is_digit_word digits_value_def digit_word)
  next
    case False
    have "n mod 10 < 10" by simp
    moreover have "dec_digits n = dec_digits (n div 10) @ [48 + of_nat (n mod 10)]"
      using False by (simp add: dec_digits.simps)
    ultimately show ?thesis using 1 False by (simp add: is_digit_word digits_value_snoc digit_word)
  qed
qed

lemma parse_int_digits:
  assumes "ds \<noteq> []" and "\<forall>c \<in> set ds. is_digit c"
  shows "parse_int (Some ds) = Some (int (digits_value ds))"
    and "parse_int (Some (0x2D # ds)) = Some (- int (digits_value ds))"
proof -
  obtain c cs where ds: "ds = c # cs" using assms(1) by (cases ds) auto
  with assms have "\<not> js_ws c" "c \<noteq> 0x2D" "c \<noteq> 0x2B" using is_digit_not_sign [of c] by auto
  moreover have "takeWhile is_digit ds = ds" using assms(2) by (simp add: takeWhile_eq_all_conv)
  ultimately show "parse_int (Some ds) = Some (int (digits_value ds))"
    "parse_int (Some (0x2D # ds)) = Some (- int (digits_value ds))"
    using ds assms(1) by (simp_all add: parse_int_def js_ws_def)
qed

lemma parse_int_roundtrip: "parse_int (Some (int_to_js n)) = Some n"
  using dec_digits_spec [of "nat n"] dec_digits_spec [of "nat (- n)"]
    parse_int_digits [of "dec_digits (nat n)"] parse_int_digits [of "dec_digits (nat (- n))"]
  by (simp add: int_to_js_def)





lemma rot_next_Inr:
  assumes "current_index r < length (words r)"
  shows "\<exists>s' h'. rot_next r h = Inr (r\<lparr>scr := s', current_index := Suc (current_index r) mod length (words r)\<rparr>, h')"
proof -
  obtain q s' h2 where "setText RUpdate (words r ! current_index r) (scr r) h = Inr (q, s', h2)"
    using setText_Inr_exists [of RUpdate "words r ! current_index r" "scr r" h] by blast
  then show ?thesis using assms by (simp add: rot_next_def) blast
qed

text \<open>
  C16. The rotate branch of \<open>initKineticText\<close>: without \<open>data-words\<close> no rotator
  is built; with it (even empty) a rotator is built over the trimmed comma-separated
  words, with the parsed interval, its constructor returns normally, the index already
  points past the first word, and the resulting world is one of the reachable worlds of
  the rotator's event loop, so every property proved of those holds for it.
\<close>

theorem init_rotate_reachable:
  "(wa = None \<longrightarrow> init_rotate content wa ia h = None)
   \<and> (\<forall>s. wa = Some s \<longrightarrow> (\<exists>r h'. init_rotate content wa ia (page_host rnd) = Some (Inr (r, h'))
        \<and> reachable (r, h') \<and> words r = map js_trim (js_split 0x2C s) \<and> interval r = kinetic_interval ia
        \<and> current_index r = 1 mod length (words r)))"
proof (intro conjI allI impI)
  assume "wa = None"
  then show "init_rotate content wa ia h = None" by (simp add: init_rotate_def kinetic_words_def)
next
  fix s assume wa: "wa = Some s"
  let ?ws = "map js_trim (js_split 0x2C s)"
  let ?r0 = "rotator_fields content ?ws (Some (kinetic_interval ia))"
  have ne: "0 < length ?ws" by simp
  then obtain s' h' where nx: "rot_next ?r0 (page_host rnd) = Inr (?r0\<lparr>scr := s', current_index := Suc 0 mod length ?ws\<rparr>, h')"
    using rot_next_Inr [of ?r0 "page_host rnd"] by (auto simp: rotator_fields_def)
  have "init_rotate content wa ia (page_host rnd) = Some (rot_next ?r0 (page_host rnd))"
    using wa ne by (simp add: init_rotate_def kinetic_words_def new_rotator_def)
  moreover have "reachable (state_of (new_rotator content ?ws (Some (kinetic_interval ia)) (page_host rnd)))"
    by (rule reachable.init)
  ultimately show "\<exists>r h'. init_rotate content wa ia (page_host rnd) = Some (Inr (r, h'))
        \<and> reachable (r, h') \<and> words r = ?ws \<and> interval r = kinetic_interval ia
        \<and> current_index r = 1 mod length (words r)"
    using nx by (simp add: new_rotator_def rotator_fields_def)
qed

theorem init_rotate_reachable_witness:
  "\<exists>r h'. init_rotate [Text (js ''AB'')] (Some []) None (page_host (\<lambda>_. 0)) = Some (Inr (r, h'))
      \<and> reachable (r, h') \<and> words r = [[]] \<and> interval r = 3000"
  using init_rotate_reachable [of "Some []" "[Text (js ''AB'')]" None "page_host (\<lambda>_. 0)" "\<lambda>_. 0"]
  by (simp add: kinetic_interval_def parse_int_def js_ws_def is_digit_def js_trim_def) blast

end
