(* ===== verification/Pointer.thy ===== *)
theory Pointer
  imports Complex_Main Prelude
begin

text \<open>
  Geometry shared by the pointer-driven modules (cursor, magnetic elements, tilt).
  JavaScript numbers are idealised as reals: the modules only add, multiply, divide and
  take \<open>Math.hypot\<close>, and none of their properties depends on rounding. The smoothing
  step every animation loop of the site performs, \<open>p += (m - p) * k\<close>, is \<open>lerp\<close>;
  iterating it towards a fixed \<open>m\<close> shrinks the gap geometrically.
\<close>

type_synonym point = "real \<times> real"

definition lerp :: "real \<Rightarrow> real \<Rightarrow> real \<Rightarrow> real" where
  "lerp k p m = p + (m - p) * k"

text \<open>\<open>Math.hypot(x, y)\<close>.\<close>

definition hypot :: "real \<Rightarrow> real \<Rightarrow> real" where
  "hypot x y = sqrt (x\<^sup>2 + y\<^sup>2)"

lemma lerp_gap: "m - lerp k p m = (1 - k) * (m - p)"
  by (simp add: lerp_def algebra_simps)

lemma lerp_iter_gap: "m - ((\<lambda>p. lerp k p m) ^^ n) p = (1 - k) ^ n * (m - p)"
  by (induction n) (simp_all add: lerp_gap)

lemma lerp_gap_le: "0 \<le> k \<Longrightarrow> k \<le> 1 \<Longrightarrow> \<bar>m - lerp k p m\<bar> \<le> \<bar>m - p\<bar>"
proof -
  assume "0 \<le> k" "k \<le> 1"
  then have "(1 - k) * \<bar>m - p\<bar> \<le> 1 * \<bar>m - p\<bar>" by (intro mult_right_mono) simp_all
  then show ?thesis using \<open>k \<le> 1\<close> by (simp add: lerp_gap abs_mult)
qed

lemma lerp_fixed [simp]: "lerp k m m = m"
  by (simp add: lerp_def)

lemma hypot_nonneg [simp]: "0 \<le> hypot x y"
  by (simp add: hypot_def)

lemma abs_le_hypot: "\<bar>x\<bar> \<le> hypot x y" and abs_le_hypot2: "\<bar>y\<bar> \<le> hypot x y"
  by (simp_all add: hypot_def real_sqrt_ge_abs1 real_sqrt_ge_abs2)

lemma hypot_zero_iff: "hypot x y = 0 \<longleftrightarrow> x = 0 \<and> y = 0"
  by (simp add: hypot_def)

end
