(* ===== verification/Cursor.thy ===== *)
theory Cursor
  imports Pointer
begin

text \<open>
  The custom cursor, class \<open>Cursor\<close> of \<open>src/src/js/cursor.js\<close>. The module builds
  one instance when it is imported. Off touch devices the constructor creates a dot and
  a ring (with a label span inside the ring), registers document listeners, starts the
  animation loop and schedules the \<open>cursor-ready\<close> class; on touch devices \<open>init\<close>
  returns at once and \<open>dot\<close>, \<open>ring\<close> and \<open>text\<close> stay \<open>null\<close>. \<open>refresh()\<close> binds
  the hover listeners again; \<open>main.js\<close> calls it once after initialisation on every
  device. A node the cursor writes is the part of it the code touches
  (\<open>dataset.state\<close>, \<open>style.opacity\<close>, \<open>style.left\<close>, \<open>style.top\<close>). A target element
  is the set of hover categories it matches, and a mouse event runs the listeners it
  has, in registration order; a listener that throws is reported and the others still
  run, so \<open>dispatch\<close> returns the error with the state the remaining listeners reach.
\<close>

record cnode =
  cn_state :: jstr
  cn_opacity :: "jstr option"
  cn_left :: "real option"
  cn_top :: "real option"

record cursor =
  dot :: "cnode option"
  ring :: "cnode option"
  label :: "jstr option"
  cpos :: point
  mouse :: point
  visible :: bool
  ring_speed :: real
  ready :: bool
  doc_bound :: bool
  hover_binds :: nat
  anim :: bool

text \<open>The categories of \<open>bindHoverTargets\<close>, in the order it binds them.\<close>

datatype target = Target (t_hover: bool) (t_media: bool) (t_text: "jstr option") (t_hidden: bool)

datatype cursor_event =
  CMove real real | CDocEnter | CDocLeave | CDown | CUp | CEnter target | CLeave target
  | CFrame | CReady | CRefresh

definition new_cnode :: cnode where
  "new_cnode = \<lparr>cn_state = js ''default'', cn_opacity = None, cn_left = None, cn_top = None\<rparr>"

text \<open>\<open>setState(state)\<close>: both nodes; a \<open>null\<close> node throws on \<open>.dataset\<close>.\<close>

definition set_state :: "jstr \<Rightarrow> cursor \<Rightarrow> cursor completion" where
  "set_state st c =
     (case dot c of
        None \<Rightarrow> Inl (TypeError, c)
      | Some d \<Rightarrow>
          (let c1 = c\<lparr>dot := Some (d\<lparr>cn_state := st\<rparr>)\<rparr>
           in case ring c of
                None \<Rightarrow> Inl (TypeError, c1)
              | Some r \<Rightarrow> Inr (c1\<lparr>ring := Some (r\<lparr>cn_state := st\<rparr>)\<rparr>)))"

text \<open>\<open>setText(text)\<close>: the label span's \<open>textContent\<close>.\<close>

definition set_label :: "jstr \<Rightarrow> cursor \<Rightarrow> cursor completion" where
  "set_label t c = (case label c of None \<Rightarrow> Inl (TypeError, c) | Some _ \<Rightarrow> Inr (c\<lparr>label := Some t\<rparr>))"

definition set_opacity :: "jstr \<Rightarrow> cursor \<Rightarrow> cursor completion" where
  "set_opacity v c =
     (case dot c of
        None \<Rightarrow> Inl (TypeError, c)
      | Some d \<Rightarrow>
          (let c1 = c\<lparr>dot := Some (d\<lparr>cn_opacity := Some v\<rparr>)\<rparr>
           in case ring c of
                None \<Rightarrow> Inl (TypeError, c1)
              | Some r \<Rightarrow> Inr (c1\<lparr>ring := Some (r\<lparr>cn_opacity := Some v\<rparr>)\<rparr>)))"

text \<open>
  \<open>animate()\<close>: the ring moves by \<open>ringSpeed\<close> of its gap to the mouse, the dot sits on
  the mouse, and the next frame is requested.
\<close>

definition animate_cursor :: "cursor \<Rightarrow> cursor completion" where
  "animate_cursor c =
     (let p = (lerp (ring_speed c) (fst (cpos c)) (fst (mouse c)), lerp (ring_speed c) (snd (cpos c)) (snd (mouse c)));
          c1 = c\<lparr>cpos := p\<rparr>
      in case dot c of
           None \<Rightarrow> Inl (TypeError, c1)
         | Some d \<Rightarrow>
             (let c2 = c1\<lparr>dot := Some (d\<lparr>cn_left := Some (fst (mouse c)), cn_top := Some (snd (mouse c))\<rparr>)\<rparr>
              in case ring c of
                   None \<Rightarrow> Inl (TypeError, c2)
                 | Some r \<Rightarrow> Inr (c2\<lparr>ring := Some (r\<lparr>cn_left := Some (fst p), cn_top := Some (snd p)\<rparr>), anim := True\<rparr>)))"

text \<open>The constructor: fields, then \<open>init()\<close>.\<close>

definition new_cursor :: "bool \<Rightarrow> cursor" where
  "new_cursor touch =
     (let c0 = \<lparr>dot = None, ring = None, label = None, cpos = (0, 0), mouse = (0, 0), visible = False,
                ring_speed = 0.15, ready = False, doc_bound = False, hover_binds = 0, anim = False\<rparr>
      in if touch then c0
         else state_of (animate_cursor (c0\<lparr>dot := Some new_cnode, ring := Some new_cnode, label := Some [],
                                            doc_bound := True, hover_binds := 1\<rparr>)))"

text \<open>The listeners a target carries for one run of \<open>bindHoverTargets\<close>.\<close>

datatype listener = LState jstr | LTextEnter jstr

definition enter_listeners :: "target \<Rightarrow> listener list" where
  "enter_listeners t =
     (if t_hover t then [LState (js ''hover'')] else [])
     @ (if t_media t then [LState (js ''media'')] else [])
     @ (case t_text t of None \<Rightarrow> [] | Some s \<Rightarrow> [LTextEnter s])
     @ (if t_hidden t then [LState (js ''hidden'')] else [])"

definition leave_listeners :: "target \<Rightarrow> listener list" where
  "leave_listeners t =
     (if t_hover t then [LState (js ''default'')] else [])
     @ (if t_media t then [LState (js ''default'')] else [])
     @ (case t_text t of None \<Rightarrow> [] | Some _ \<Rightarrow> [LState (js ''default'')])
     @ (if t_hidden t then [LState (js ''default'')] else [])"

fun run_listener :: "listener \<Rightarrow> cursor \<Rightarrow> cursor completion" where
  "run_listener (LState st) c = set_state st c"
| "run_listener (LTextEnter s) c =
     (case set_label s c of Inl e \<Rightarrow> Inl e | Inr c1 \<Rightarrow> set_state (js ''text'') c1)"

fun dispatch :: "listener list \<Rightarrow> cursor \<Rightarrow> cursor completion" where
  "dispatch [] c = Inr c"
| "dispatch (l # ls) c =
     (case run_listener l c of
        Inl (e, c1) \<Rightarrow> Inl (e, state_of (dispatch ls c1))
      | Inr c1 \<Rightarrow> dispatch ls c1)"

definition bound_listeners :: "nat \<Rightarrow> listener list \<Rightarrow> listener list" where
  "bound_listeners n ls = concat (replicate n ls)"

fun cursor_step :: "cursor_event \<Rightarrow> cursor \<Rightarrow> cursor completion" where
  "cursor_step (CMove x y) c =
     (if doc_bound c then
        Inr (if visible c then c\<lparr>mouse := (x, y)\<rparr> else c\<lparr>mouse := (x, y), visible := True, cpos := (x, y)\<rparr>)
      else Inr c)"
| "cursor_step CDocEnter c = (if doc_bound c then set_opacity (js ''1'') c else Inr c)"
| "cursor_step CDocLeave c = (if doc_bound c then set_opacity (js ''0'') c else Inr c)"
| "cursor_step CDown c = (if doc_bound c then set_state (js ''click'') c else Inr c)"
| "cursor_step CUp c = (if doc_bound c then set_state (js ''default'') c else Inr c)"
| "cursor_step (CEnter t) c = dispatch (bound_listeners (hover_binds c) (enter_listeners t)) c"
| "cursor_step (CLeave t) c = dispatch (bound_listeners (hover_binds c) (leave_listeners t)) c"
| "cursor_step CFrame c = (if anim c then animate_cursor c else Inr c)"
| "cursor_step CReady c = (if doc_bound c then Inr (c\<lparr>ready := True\<rparr>) else Inr c)"
| "cursor_step CRefresh c = Inr (c\<lparr>hover_binds := Suc (hover_binds c)\<rparr>)"

inductive cursor_reach :: "bool \<Rightarrow> cursor \<Rightarrow> bool" where
  init: "cursor_reach touch (new_cursor touch)"
| step: "cursor_reach touch c \<Longrightarrow> cursor_reach touch (state_of (cursor_step ev c))"

subsection \<open>What the listeners of a created cursor do\<close>

text \<open>
  On a cursor whose nodes exist every listener only overwrites fields, so a run of
  listeners is summed up by the last state and the last label it writes.
\<close>

fun lstate :: "listener \<Rightarrow> jstr" where
  "lstate (LState st) = st"
| "lstate (LTextEnter _) = js ''text''"

fun ltext :: "listener \<Rightarrow> jstr option" where
  "ltext (LState _) = None"
| "ltext (LTextEnter s) = Some s"

definition last_state :: "listener list \<Rightarrow> jstr option" where
  "last_state ls = (if ls = [] then None else Some (lstate (last ls)))"

definition last_label :: "listener list \<Rightarrow> jstr option" where
  "last_label ls = (case filter (\<lambda>l. ltext l \<noteq> None) ls of [] \<Rightarrow> None | xs \<Rightarrow> ltext (last xs))"

definition overwrite :: "jstr option \<Rightarrow> jstr option \<Rightarrow> cursor \<Rightarrow> cursor" where
  "overwrite s l c =
     (let c1 = (case s of None \<Rightarrow> c
                | Some st \<Rightarrow> c\<lparr>dot := map_option (\<lambda>d. d\<lparr>cn_state := st\<rparr>) (dot c),
                               ring := map_option (\<lambda>r. r\<lparr>cn_state := st\<rparr>) (ring c)\<rparr>)
      in case l of None \<Rightarrow> c1 | Some t \<Rightarrow> c1\<lparr>label := Some t\<rparr>)"

definition cursor_states :: "jstr list" where
  "cursor_states = [js ''default'', js ''hover'', js ''media'', js ''text'', js ''hidden'', js ''click'']"

definition created :: "cursor \<Rightarrow> bool" where
  "created c \<longleftrightarrow> dot c \<noteq> None \<and> ring c \<noteq> None \<and> label c \<noteq> None"

text \<open>
  What the cursor keeps true between events: on a touch device nothing was created and
  no document listener is bound; elsewhere both nodes and the label exist, the dot and
  the ring show the same one of the six states, and the loop runs at ring speed 0.15.
\<close>

text \<open>\<open>n\<close> animation frames with no other event in between.\<close>

definition cursor_frames :: "nat \<Rightarrow> cursor \<Rightarrow> cursor" where
  "cursor_frames n c = ((\<lambda>c. state_of (cursor_step CFrame c)) ^^ n) c"

definition cursor_inv :: "bool \<Rightarrow> cursor \<Rightarrow> bool" where
  "cursor_inv touch c =
     (if touch then dot c = None \<and> ring c = None \<and> label c = None \<and> \<not> doc_bound c \<and> \<not> anim c
      else created c \<and> doc_bound c \<and> anim c \<and> ring_speed c = 0.15 \<and> 0 < hover_binds c
        \<and> map_option cn_state (dot c) = map_option cn_state (ring c)
        \<and> (\<exists>d. dot c = Some d \<and> cn_state d \<in> set cursor_states))"

subsection \<open>Properties\<close>

lemma set_state_created: "created c \<Longrightarrow> set_state st c = Inr (overwrite (Some st) None c)"
  by (auto simp: created_def set_state_def overwrite_def)

lemma set_label_created: "created c \<Longrightarrow> set_label t c = Inr (overwrite None (Some t) c)"
  by (auto simp: created_def set_label_def overwrite_def)

lemma created_overwrite [simp]: "created c \<Longrightarrow> created (overwrite s l c)"
  by (auto simp: created_def overwrite_def split: option.splits)

lemma overwrite_fields [simp]:
  "doc_bound (overwrite s l c) = doc_bound c" "anim (overwrite s l c) = anim c"
  "ring_speed (overwrite s l c) = ring_speed c" "hover_binds (overwrite s l c) = hover_binds c"
  "cpos (overwrite s l c) = cpos c" "mouse (overwrite s l c) = mouse c" "visible (overwrite s l c) = visible c"
  "ready (overwrite s l c) = ready c"
  by (simp_all add: overwrite_def split: option.splits)

lemma overwrite_comp:
  "overwrite s2 l2 (overwrite s1 l1 c) = overwrite (case s2 of None \<Rightarrow> s1 | _ \<Rightarrow> s2) (case l2 of None \<Rightarrow> l1 | _ \<Rightarrow> l2) c"
  by (cases s1; cases s2; cases l1; cases l2) (simp_all add: overwrite_def option.map_comp comp_def)

lemma run_listener_created:
  "created c \<Longrightarrow> run_listener l c = Inr (overwrite (Some (lstate l)) (ltext l) c)"
  by (cases l) (simp_all add: set_state_created set_label_created overwrite_comp)

lemma last_state_Cons: "last_state (l # ls) = (case last_state ls of None \<Rightarrow> Some (lstate l) | s \<Rightarrow> s)"
  by (simp add: last_state_def)

lemma last_label_Cons: "last_label (l # ls) = (case last_label ls of None \<Rightarrow> ltext l | t \<Rightarrow> t)"
proof (cases "filter (\<lambda>l. ltext l \<noteq> None) ls")
  case Nil
  then show ?thesis by (cases "ltext l") (simp_all add: last_label_def)
next
  case (Cons a as)
  then have "ltext (last (a # as)) \<noteq> None" by (metis (mono_tags, lifting) filter_eq_ConsD last_in_set list.distinct(1) mem_Collect_eq set_filter)
  then show ?thesis using Cons by (cases "ltext (last (a # as))") (auto simp: last_label_def)
qed

lemma dispatch_created:
  "created c \<Longrightarrow> dispatch ls c = Inr (overwrite (last_state ls) (last_label ls) c)"
proof (induction ls arbitrary: c)
  case Nil
  then show ?case by (simp add: last_state_def last_label_def overwrite_def)
next
  case (Cons l ls)
  then show ?case
    by (simp add: run_listener_created overwrite_comp last_state_Cons last_label_Cons split: option.splits)
qed


lemma last_state_append: "last_state (xs @ ys) = (case last_state ys of None \<Rightarrow> last_state xs | s \<Rightarrow> s)"
  by (simp add: last_state_def)

lemma last_label_append: "last_label (xs @ ys) = (case last_label ys of None \<Rightarrow> last_label xs | t \<Rightarrow> t)"
proof (cases "filter (\<lambda>l. ltext l \<noteq> None) ys")
  case Nil
  then show ?thesis by (simp add: last_label_def)
next
  case (Cons a as)
  then have "ltext (last (a # as)) \<noteq> None"
    by (metis (mono_tags, lifting) last_in_set list.distinct(1) mem_Collect_eq set_filter)
  then show ?thesis using Cons
    by (cases "filter (\<lambda>l. ltext l \<noteq> None) xs") (auto simp: last_label_def)
qed

lemma bound_listeners_last:
  "0 < n \<Longrightarrow> last_state (bound_listeners n ls) = last_state ls \<and> last_label (bound_listeners n ls) = last_label ls"
proof (induction n)
  case 0
  then show ?case by simp
next
  case (Suc n)
  then show ?case
    by (cases n) (auto simp: bound_listeners_def last_state_append last_label_append split: option.splits)
qed

lemma last_state_in: "last_state ls = Some st \<Longrightarrow> st \<in> lstate ` set ls"
  by (auto simp: last_state_def split: if_splits)

lemma enter_states: "l \<in> set (enter_listeners t) \<Longrightarrow> lstate l \<in> set cursor_states"
  and leave_states: "l \<in> set (leave_listeners t) \<Longrightarrow> lstate l \<in> set cursor_states"
  by (auto simp: enter_listeners_def leave_listeners_def cursor_states_def split: if_splits option.splits)

lemma overwrite_inv:
  assumes "cursor_inv False c" and "\<forall>st. s = Some st \<longrightarrow> st \<in> set cursor_states"
  shows "cursor_inv False (overwrite s l c)"
  using assms by (auto simp: cursor_inv_def overwrite_def created_def split: option.splits)

lemma dispatch_inv:
  assumes "cursor_inv False c" and "\<forall>l \<in> set ls. lstate l \<in> set cursor_states"
  shows "dispatch ls c = Inr (overwrite (last_state ls) (last_label ls) c)
    \<and> cursor_inv False (overwrite (last_state ls) (last_label ls) c)"
proof -
  have "created c" using assms(1) by (simp add: cursor_inv_def)
  moreover have "\<forall>st. last_state ls = Some st \<longrightarrow> st \<in> set cursor_states"
    using assms(2) last_state_in by blast
  ultimately show ?thesis using dispatch_created overwrite_inv [OF assms(1)] by blast
qed

lemma bound_in: "l \<in> set (bound_listeners n ls) \<Longrightarrow> l \<in> set ls"
  by (auto simp: bound_listeners_def)

lemma animate_inv:
  assumes "cursor_inv False c"
  shows "\<exists>c'. animate_cursor c = Inr c' \<and> cursor_inv False c' \<and> mouse c' = mouse c
    \<and> cpos c' = (lerp (ring_speed c) (fst (cpos c)) (fst (mouse c)), lerp (ring_speed c) (snd (cpos c)) (snd (mouse c)))
    \<and> map_option cn_left (dot c') = Some (Some (fst (mouse c)))"
  using assms by (auto simp: cursor_inv_def animate_cursor_def created_def Let_def)

lemma step_inv:
  assumes "cursor_inv False c"
  shows "\<exists>c'. cursor_step ev c = Inr c' \<and> cursor_inv False c'"
proof (cases ev)
  case (CEnter t)
  have "\<forall>l \<in> set (bound_listeners (hover_binds c) (enter_listeners t)). lstate l \<in> set cursor_states"
    using enter_states bound_in by blast
  then show ?thesis using dispatch_inv [OF assms] CEnter by auto
next
  case (CLeave t)
  have "\<forall>l \<in> set (bound_listeners (hover_binds c) (leave_listeners t)). lstate l \<in> set cursor_states"
    using leave_states bound_in by blast
  then show ?thesis using dispatch_inv [OF assms] CLeave by auto
next
  case CFrame
  then show ?thesis using animate_inv [OF assms] assms by (auto simp: cursor_inv_def)
qed (use assms in \<open>auto simp: cursor_inv_def created_def set_state_def set_opacity_def cursor_states_def\<close>)

lemma touch_dispatch: "dot c = None \<Longrightarrow> label c = None \<Longrightarrow> ls \<noteq> [] \<Longrightarrow> dispatch ls c = Inl (TypeError, c)"
proof (induction ls)
  case (Cons l ls)
  then show ?case
    by (cases l; cases ls) (simp_all add: set_state_def set_label_def)
qed simp

lemma touch_dispatch_state: "dot c = None \<Longrightarrow> label c = None \<Longrightarrow> state_of (dispatch ls c) = c"
  by (cases "ls = []") (simp_all add: touch_dispatch)

lemma touch_step_inv: "cursor_inv True c \<Longrightarrow> cursor_inv True (state_of (cursor_step ev c))"
  by (cases ev) (simp_all add: cursor_inv_def touch_dispatch_state)

lemma cursor_inv_init: "cursor_inv touch (new_cursor touch)"
  by (auto simp: cursor_inv_def new_cursor_def animate_cursor_def new_cnode_def created_def cursor_states_def)

lemma cursor_reach_inv: "cursor_reach touch c \<Longrightarrow> cursor_inv touch c"
proof (induction rule: cursor_reach.induct)
  case (init touch)
  then show ?case by (rule cursor_inv_init)
next
  case (step touch c ev)
  show ?case
  proof (cases touch)
    case True
    then show ?thesis using step.IH touch_step_inv by simp
  next
    case False
    then show ?thesis using step.IH step_inv [of c ev] by auto
  qed
qed


text \<open>
  C18. Off touch devices the cursor keeps its invariant through every sequence of
  events (both nodes and the label exist, the dot and the ring show the same one of the
  six states, the loop runs) and no listener of the cursor ever throws.
\<close>

theorem cursor_total:
  assumes "cursor_reach False c"
  shows "cursor_inv False c \<and> (\<forall>ev. \<exists>c'. cursor_step ev c = Inr c')"
  using cursor_reach_inv [OF assms] step_inv by blast

theorem cursor_total_witness:
  "cursor_inv False (new_cursor False) \<and> (\<exists>c'. cursor_step (CEnter (Target True False None False)) (new_cursor False) = Inr c')"
  using cursor_total [OF cursor_reach.init [of False]] by blast

lemma bound_listeners_ne: "0 < n \<Longrightarrow> ls \<noteq> [] \<Longrightarrow> bound_listeners n ls \<noteq> []"
  by (cases n) (simp_all add: bound_listeners_def)

text \<open>
  C19. On a touch device \<open>init\<close> creates no node, yet \<open>refresh()\<close> (which
  \<open>main.js\<close> calls on every device) binds the hover listeners: entering any element
  that matches a hover category then throws a \<open>TypeError\<close> on \<open>this.dot.dataset\<close>,
  and the cursor state is unchanged.
\<close>

theorem touch_refresh_throws:
  assumes "cursor_reach True c" and "0 < hover_binds c" and "enter_listeners t \<noteq> []"
  shows "cursor_step (CEnter t) c = Inl (TypeError, c)"
  using cursor_reach_inv [OF assms(1)] bound_listeners_ne [OF assms(2,3)]
  by (simp add: cursor_inv_def touch_dispatch)

theorem touch_refresh_throws_witness:
  "cursor_step (CEnter (Target True False None False)) (state_of (cursor_step CRefresh (new_cursor True)))
     = Inl (TypeError, state_of (cursor_step CRefresh (new_cursor True)))"
proof -
  have r: "cursor_reach True (state_of (cursor_step CRefresh (new_cursor True)))"
    by (rule cursor_reach.step [OF cursor_reach.init])
  have "0 < hover_binds (state_of (cursor_step CRefresh (new_cursor True)))"
    "enter_listeners (Target True False None False) \<noteq> []"
    by (simp_all add: new_cursor_def enter_listeners_def)
  from touch_refresh_throws [OF r this] show ?thesis .
qed

lemma last_label_enter: "last_label (enter_listeners t) = t_text t"
  by (cases t) (auto simp: enter_listeners_def last_label_def split: option.splits)

text \<open>
  C20. Entering a target sets both nodes to the state of the last category the target
  matches (pointer, media, custom text, hidden, in binding order) and the label to its
  \<open>data-cursor-text\<close>, whatever the number of times \<open>refresh()\<close> bound the listeners.
\<close>

theorem cursor_enter_spec:
  assumes "cursor_reach False c"
  shows "cursor_step (CEnter t) c = Inr (overwrite (last_state (enter_listeners t)) (t_text t) c)"
proof -
  note inv = cursor_reach_inv [OF assms]
  then have "0 < hover_binds c" by (simp add: cursor_inv_def)
  moreover have "\<forall>l \<in> set (bound_listeners (hover_binds c) (enter_listeners t)). lstate l \<in> set cursor_states"
    using enter_states bound_in by blast
  ultimately show ?thesis using dispatch_inv [OF inv] bound_listeners_last [of "hover_binds c" "enter_listeners t"]
    by (simp add: last_label_enter)
qed

theorem cursor_enter_spec_witness:
  "cursor_step (CEnter (Target True False (Some (js ''View'')) False)) (new_cursor False)
     = Inr (overwrite (Some (js ''text'')) (Some (js ''View'')) (new_cursor False))"
  using cursor_enter_spec [OF cursor_reach.init [of False], of "Target True False (Some (js ''View'')) False"]
  by (simp add: enter_listeners_def last_state_def)



lemma frame_inv:
  assumes "cursor_inv False c"
  shows "cursor_inv False (state_of (cursor_step CFrame c)) \<and> mouse (state_of (cursor_step CFrame c)) = mouse c
    \<and> fst (mouse c) - fst (cpos (state_of (cursor_step CFrame c))) = 17 / 20 * (fst (mouse c) - fst (cpos c))
    \<and> snd (mouse c) - snd (cpos (state_of (cursor_step CFrame c))) = 17 / 20 * (snd (mouse c) - snd (cpos c))"
proof -
  obtain c' where a: "animate_cursor c = Inr c'" "cursor_inv False c'" "mouse c' = mouse c"
    "cpos c' = (lerp (ring_speed c) (fst (cpos c)) (fst (mouse c)), lerp (ring_speed c) (snd (cpos c)) (snd (mouse c)))"
    using animate_inv [OF assms] by blast
  have an: "anim c" and rs: "ring_speed c = 0.15" using assms by (simp_all add: cursor_inv_def)
  have k: "1 - ring_speed c = 17 / 20" using rs by simp
  show ?thesis using a an by (simp add: lerp_gap k)
qed

text \<open>
  C22. With the mouse at rest, each animation frame closes the gap between the ring and
  the mouse by the ring speed 0.15: after \<open>n\<close> frames the gap is \<open>(17/20)^n\<close> of
  what it was, on both axes.
\<close>

theorem ring_converges:
  assumes "cursor_reach False c"
  shows "mouse (cursor_frames n c) = mouse c
    \<and> fst (mouse c) - fst (cpos (cursor_frames n c)) = (17 / 20) ^ n * (fst (mouse c) - fst (cpos c))
    \<and> snd (mouse c) - snd (cpos (cursor_frames n c)) = (17 / 20) ^ n * (snd (mouse c) - snd (cpos c))"
proof -
  have "cursor_inv False (cursor_frames n c) \<and> mouse (cursor_frames n c) = mouse c
    \<and> fst (mouse c) - fst (cpos (cursor_frames n c)) = (17 / 20) ^ n * (fst (mouse c) - fst (cpos c))
    \<and> snd (mouse c) - snd (cpos (cursor_frames n c)) = (17 / 20) ^ n * (snd (mouse c) - snd (cpos c))"
  proof (induction n)
    case 0
    then show ?case using cursor_reach_inv [OF assms] by (simp add: cursor_frames_def)
  next
    case (Suc n)
    have eq: "cursor_frames (Suc n) c = state_of (cursor_step CFrame (cursor_frames n c))"
      by (simp add: cursor_frames_def)
    from Suc frame_inv [of "cursor_frames n c"] show ?case unfolding eq by simp
  qed
  then show ?thesis by blast
qed

theorem ring_converges_witness:
  "fst (mouse (state_of (cursor_step (CMove 100 40) (state_of (cursor_step (CMove 0 0) (new_cursor False))))))
     - fst (cpos (cursor_frames 2 (state_of (cursor_step (CMove 100 40) (state_of (cursor_step (CMove 0 0) (new_cursor False)))))))
   = 289 / 4"
proof -
  let ?c = "state_of (cursor_step (CMove 100 40) (state_of (cursor_step (CMove 0 0) (new_cursor False))))"
  have r: "cursor_reach False ?c" by (rule cursor_reach.step [OF cursor_reach.step [OF cursor_reach.init]])
  have "mouse ?c = (100, 40)" "cpos ?c = (0, 0)" by (simp_all add: new_cursor_def animate_cursor_def lerp_def)
  then show ?thesis using ring_converges [OF r, of 2] by (simp add: power2_eq_square)
qed

end
