(* ===== verification/Magnetic.thy ===== *)
theory Magnetic
  imports Pointer Host
begin

text \<open>
  Magnetic elements, class \<open>MagneticElement\<close> and \<open>initMagnetic\<close> of
  \<open>src/unnamed/part_002\<close>. An element follows the pointer when the pointer comes
  within \<open>triggerArea\<close> pixels of its centre, pulled by \<open>strength\<close> times the offset,
  less the closer the pointer is to the edge of the area; the offset it shows is
  smoothed towards that target by \<open>lerp\<close> in an animation loop that re-requests a frame
  every frame; \<open>destroy()\<close> cancels the pending frame and clears the transform. The
  bounding rectangle is the layout the browser reports when the code asks for it, so
  it is a parameter of the events that read it. The loop runs on the host's frame queue;
  its only callback is \<open>MAnimate\<close>.
\<close>

record rect =
  r_left :: real
  r_top :: real
  r_width :: real
  r_height :: real

datatype mcb = MAnimate

record magnet =
  strength :: real
  trigger :: real
  smoothing :: real
  mpos :: point
  mtarget :: point
  mrect :: rect
  mcenter :: point
  hovered :: bool
  raf_id :: "nat option"
  mtransform :: "point option"

type_synonym mworld = "magnet \<times> mcb host"

datatype mag_event = MMove real real rect | MEnter | MLeave | MResize rect | MFrame | MDestroy

definition rect_center :: "rect \<Rightarrow> point" where
  "rect_center r = (r_left r + r_width r / 2, r_top r + r_height r / 2)"

text \<open>\<open>calculateBounds()\<close>, also the first lines of \<open>onMouseMove\<close>.\<close>

definition calculate_bounds :: "rect \<Rightarrow> magnet \<Rightarrow> magnet" where
  "calculate_bounds r m = m\<lparr>mrect := r, mcenter := rect_center r\<rparr>"

definition on_mouse_move :: "real \<Rightarrow> real \<Rightarrow> rect \<Rightarrow> magnet \<Rightarrow> magnet" where
  "on_mouse_move x y r m =
     (let m1 = calculate_bounds r m;
          dx = x - fst (mcenter m1); dy = y - snd (mcenter m1);
          dist = hypot dx dy
      in if dist < trigger m1 then
           (let pull = 1 - dist / trigger m1
            in m1\<lparr>mtarget := (dx * strength m1 * pull, dy * strength m1 * pull)\<rparr>)
         else if \<not> hovered m1 then m1\<lparr>mtarget := (0, 0)\<rparr>
         else m1)"

text \<open>\<open>animate()\<close>: smooth, write the transform, request the next frame.\<close>

definition animate_magnet :: "magnet \<Rightarrow> mcb host \<Rightarrow> mworld" where
  "animate_magnet m h =
     (let p = (lerp (smoothing m) (fst (mpos m)) (fst (mtarget m)), lerp (smoothing m) (snd (mpos m)) (snd (mtarget m)));
          (i, h1) = request_frame MAnimate h
      in (m\<lparr>mpos := p, mtransform := Some p, raf_id := Some i\<rparr>, h1))"

definition destroy_magnet :: "magnet \<Rightarrow> mcb host \<Rightarrow> mworld" where
  "destroy_magnet m h = (m\<lparr>mtransform := None\<rparr>, cancel_frame (raf_id m) h)"

text \<open>The constructor with its options, then \<open>init()\<close>, which ends by calling \<open>animate()\<close>.\<close>

definition new_magnet :: "real \<Rightarrow> real \<Rightarrow> real \<Rightarrow> rect \<Rightarrow> mcb host \<Rightarrow> mworld" where
  "new_magnet s t k r h =
     animate_magnet
       (calculate_bounds r \<lparr>strength = s, trigger = t, smoothing = k, mpos = (0, 0), mtarget = (0, 0),
          mrect = r, mcenter = (0, 0), hovered = False, raf_id = None, mtransform = None\<rparr>) h"

text \<open>\<open>parseFloat(v) || d\<close>, the parsed number given (\<open>None\<close> for \<open>NaN\<close>).\<close>

definition float_or :: "real \<Rightarrow> real option \<Rightarrow> real" where
  "float_or d v = (case v of None \<Rightarrow> d | Some x \<Rightarrow> if x = 0 then d else x)"

text \<open>\<open>initMagnetic\<close> for one \<open>[data-magnetic]\<close> element.\<close>

definition init_magnet :: "real option \<Rightarrow> real option \<Rightarrow> rect \<Rightarrow> mcb host \<Rightarrow> mworld" where
  "init_magnet sa ta r h = new_magnet (float_or 0.4 sa) (float_or 200 ta) 0.1 r h"

text \<open>One event: a listener of the element, or the browser running the pending frame.\<close>

fun mag_step :: "mag_event \<Rightarrow> mworld \<Rightarrow> mworld" where
  "mag_step (MMove x y r) (m, h) = (on_mouse_move x y r m, h)"
| "mag_step MEnter (m, h) = (m\<lparr>hovered := True\<rparr>, h)"
| "mag_step MLeave (m, h) = (m\<lparr>hovered := False, mtarget := (0, 0)\<rparr>, h)"
| "mag_step (MResize r) (m, h) = (calculate_bounds r m, h)"
| "mag_step MFrame (m, h) =
     (case frames h of [] \<Rightarrow> (m, h) | (i, MAnimate) # fs \<Rightarrow> animate_magnet m (h\<lparr>frames := fs\<rparr>))"
| "mag_step MDestroy (m, h) = destroy_magnet m h"

inductive mag_reach :: "mworld \<Rightarrow> bool" where
  init: "0 \<le> k \<Longrightarrow> k \<le> 1 \<Longrightarrow> mag_reach (new_magnet s t k r (page_host rnd))"
| step: "mag_reach w \<Longrightarrow> mag_reach (mag_step ev w)"

text \<open>A 100 by 40 pixel element at the top left corner of the viewport.\<close>

definition demo_rect :: rect where
  "demo_rect = \<lparr>r_left = 0, r_top = 0, r_width = 100, r_height = 40\<rparr>"

text \<open>The largest offset the pull can ask for: \<open>|strength| * triggerArea / 4\<close>.\<close>

definition pull_bound :: "magnet \<Rightarrow> real" where
  "pull_bound m = \<bar>strength m\<bar> * max 0 (trigger m) / 4"

text \<open>
  Between events: the smoothing factor is in \<open>[0, 1]\<close>, target and offset stay within the
  bound on both axes, and either the loop is live (exactly one frame pending, the one
  whose handle is stored) or the element was destroyed (no frame, no transform).
\<close>

text \<open>\<open>n\<close> animation frames with no other event in between.\<close>

definition mag_frames :: "nat \<Rightarrow> mworld \<Rightarrow> mworld" where
  "mag_frames n w = (mag_step MFrame ^^ n) w"

definition mag_inv :: "mworld \<Rightarrow> bool" where
  "mag_inv w = (case w of (m, h) \<Rightarrow>
     0 \<le> smoothing m \<and> smoothing m \<le> 1
     \<and> \<bar>fst (mtarget m)\<bar> \<le> pull_bound m \<and> \<bar>snd (mtarget m)\<bar> \<le> pull_bound m
     \<and> \<bar>fst (mpos m)\<bar> \<le> pull_bound m \<and> \<bar>snd (mpos m)\<bar> \<le> pull_bound m
     \<and> (case mtransform m of
          None \<Rightarrow> frames h = []
        | Some _ \<Rightarrow> (\<exists>i. raf_id m = Some i \<and> frames h = [(i, MAnimate)])))"

subsection \<open>Properties\<close>

lemma pull_le:
  assumes "0 < t" and "d = hypot dx dy" and "d < t"
  shows "\<bar>dx * s * (1 - d / t)\<bar> \<le> \<bar>s\<bar> * t / 4"
proof -
  have d0: "0 \<le> d" using assms(2) by simp
  have dx: "\<bar>dx\<bar> \<le> d" using assms(2) abs_le_hypot by simp
  have q: "0 \<le> 1 - d / t" using assms(1,3) by simp
  have "\<bar>dx * s * (1 - d / t)\<bar> = \<bar>dx\<bar> * \<bar>s\<bar> * (1 - d / t)" using q by (simp add: abs_mult)
  also have "\<dots> \<le> d * \<bar>s\<bar> * (1 - d / t)" using dx q by (simp add: mult_right_mono)
  also have "\<dots> = \<bar>s\<bar> * (d * (t - d) / t)" using assms(1) by (simp add: field_simps)
  also have "\<dots> \<le> \<bar>s\<bar> * (t / 4)"
  proof -
    have "0 \<le> (t - 2 * d)\<^sup>2" by simp
    then have "d * (t - d) \<le> t * t / 4" by (simp add: power2_eq_square algebra_simps)
    then have "d * (t - d) / t \<le> t / 4" using assms(1) by (simp add: divide_le_eq algebra_simps)
    then show ?thesis by (rule mult_left_mono) simp
  qed
  finally show ?thesis by simp
qed

lemma lerp_within:
  assumes "0 \<le> k" "k \<le> 1" "\<bar>p\<bar> \<le> b" "\<bar>m\<bar> \<le> b"
  shows "\<bar>lerp k p m\<bar> \<le> b"
proof -
  have "lerp k p m = (1 - k) * p + k * m" by (simp add: lerp_def algebra_simps)
  also have "\<bar>\<dots>\<bar> \<le> (1 - k) * \<bar>p\<bar> + k * \<bar>m\<bar>"
    using assms(1,2) by (metis abs_mult abs_of_nonneg abs_triangle_ineq diff_ge_0_iff_ge)
  also have "\<dots> \<le> (1 - k) * b + k * b"
    using assms by (intro add_mono mult_left_mono) simp_all
  finally show ?thesis by (simp add: algebra_simps)
qed

lemma pull_bound_nonneg: "0 \<le> pull_bound m"
  by (simp add: pull_bound_def)

lemma pull_bound_fields [simp]:
  "pull_bound (m\<lparr>mtarget := p\<rparr>) = pull_bound m" "pull_bound (m\<lparr>hovered := b\<rparr>) = pull_bound m"
  "pull_bound (calculate_bounds r m) = pull_bound m"
  "pull_bound (m\<lparr>mpos := p, mtransform := q, raf_id := i\<rparr>) = pull_bound m"
  "pull_bound (m\<lparr>mtransform := q\<rparr>) = pull_bound m"
  by (simp_all add: pull_bound_def calculate_bounds_def)

lemma move_target_bound:
  assumes "\<bar>fst (mtarget m)\<bar> \<le> pull_bound m" "\<bar>snd (mtarget m)\<bar> \<le> pull_bound m"
  shows "\<bar>fst (mtarget (on_mouse_move x y r m))\<bar> \<le> pull_bound m
    \<and> \<bar>snd (mtarget (on_mouse_move x y r m))\<bar> \<le> pull_bound m"
proof -
  let ?m1 = "calculate_bounds r m"
  let ?dx = "x - fst (mcenter ?m1)" and ?dy = "y - snd (mcenter ?m1)"
  let ?d = "hypot ?dx ?dy"
  show ?thesis
  proof (cases "?d < trigger m")
    case True
    then have t: "0 < trigger m" using hypot_nonneg [of ?dx ?dy] by linarith
    have b: "pull_bound m = \<bar>strength m\<bar> * trigger m / 4" using t by (simp add: pull_bound_def)
    have "\<bar>?dx * strength m * (1 - ?d / trigger m)\<bar> \<le> \<bar>strength m\<bar> * trigger m / 4"
      by (rule pull_le [OF t refl True])
    moreover have "\<bar>?dy * strength m * (1 - ?d / trigger m)\<bar> \<le> \<bar>strength m\<bar> * trigger m / 4"
      by (rule pull_le [OF t _ True]) (simp add: hypot_def add.commute)
    ultimately show ?thesis using True b
      by (simp add: on_mouse_move_def Let_def calculate_bounds_def)
  next
    case False
    then show ?thesis using assms pull_bound_nonneg [of m]
      by (simp add: on_mouse_move_def Let_def calculate_bounds_def)
  qed
qed


lemma on_mouse_move_fields [simp]:
  "mpos (on_mouse_move x y r m) = mpos m" "mtransform (on_mouse_move x y r m) = mtransform m"
  "smoothing (on_mouse_move x y r m) = smoothing m" "raf_id (on_mouse_move x y r m) = raf_id m"
  "pull_bound (on_mouse_move x y r m) = pull_bound m"
  by (simp_all add: on_mouse_move_def Let_def calculate_bounds_def pull_bound_def)

lemma mag_inv_init: "0 \<le> k \<Longrightarrow> k \<le> 1 \<Longrightarrow> mag_inv (new_magnet s t k r (page_host rnd))"
  by (simp add: mag_inv_def new_magnet_def animate_magnet_def calculate_bounds_def request_frame_def
      page_host_def pull_bound_def lerp_def Let_def)

lemma animate_magnet_inv:
  assumes "0 \<le> smoothing m" "smoothing m \<le> 1"
    "\<bar>fst (mtarget m)\<bar> \<le> pull_bound m" "\<bar>snd (mtarget m)\<bar> \<le> pull_bound m"
    "\<bar>fst (mpos m)\<bar> \<le> pull_bound m" "\<bar>snd (mpos m)\<bar> \<le> pull_bound m" "frames h = []"
  shows "mag_inv (animate_magnet m h)"
  using assms lerp_within [of "smoothing m" _ "pull_bound m"]
  by (simp add: mag_inv_def animate_magnet_def request_frame_def Let_def)

lemma mag_step_inv: "mag_inv w \<Longrightarrow> mag_inv (mag_step ev w)"
proof (cases w)
  case (Pair m h)
  assume inv: "mag_inv w"
  show ?thesis
  proof (cases ev)
    case (MMove x y r)
    then show ?thesis using inv Pair move_target_bound [of m x y r]
      by (simp add: mag_inv_def split: option.splits)
  next
    case MFrame
    show ?thesis
    proof (cases "frames h")
      case (Cons f fs)
      obtain i c where f: "f = (i, c)" by fastforce
      from inv Pair Cons obtain p where "mtransform m = Some p" by (cases "mtransform m") (auto simp: mag_inv_def)
      with inv Pair Cons f have "fs = []" "c = MAnimate" by (auto simp: mag_inv_def)
      then show ?thesis using inv Pair MFrame Cons f animate_magnet_inv [of m "h\<lparr>frames := []\<rparr>"]
        by (simp add: mag_inv_def)
    qed (use inv Pair MFrame in simp)
  next
    case MDestroy
    then show ?thesis using inv Pair
      by (auto simp: mag_inv_def destroy_magnet_def cancel_frame_def split: option.splits)
  qed (use inv Pair pull_bound_nonneg [of m] in \<open>auto simp: mag_inv_def calculate_bounds_def pull_bound_def split: option.splits\<close>)
qed

lemma mag_reach_inv: "mag_reach w \<Longrightarrow> mag_inv w"
  by (induction rule: mag_reach.induct) (simp_all add: mag_inv_init mag_step_inv)

text \<open>
  C23. In every reachable state of a magnetic element the target offset and the
  displayed offset stay within \<open>|strength| * triggerArea / 4\<close> on both axes (20 pixels
  with the defaults): the pull \<open>strength * d * (1 - d / triggerArea)\<close> peaks at half the
  trigger radius, and smoothing only averages the offset with the target.
\<close>

theorem magnet_bounded:
  assumes "mag_reach (m, h)"
  shows "\<bar>fst (mtarget m)\<bar> \<le> pull_bound m \<and> \<bar>snd (mtarget m)\<bar> \<le> pull_bound m
    \<and> \<bar>fst (mpos m)\<bar> \<le> pull_bound m \<and> \<bar>snd (mpos m)\<bar> \<le> pull_bound m"
  using mag_reach_inv [OF assms] by (simp add: mag_inv_def)

lemma dead_step:
  "mtransform (fst w) = None \<Longrightarrow> frames (snd w) = [] \<Longrightarrow>
   mtransform (fst (mag_step ev w)) = None \<and> frames (snd (mag_step ev w)) = []"
  by (cases w; cases ev) (auto simp: calculate_bounds_def on_mouse_move_def Let_def destroy_magnet_def cancel_frame_def
      split: option.splits)

lemma dead_fold:
  "mtransform (fst w) = None \<Longrightarrow> frames (snd w) = [] \<Longrightarrow>
   mtransform (fst (fold mag_step evs w)) = None \<and> frames (snd (fold mag_step evs w)) = []"
  by (induction evs arbitrary: w) (simp_all add: dead_step)

text \<open>
  C24. After \<open>destroy()\<close> no frame of the element is pending and its transform stays
  cleared whatever events follow: the document and window listeners stay registered,
  but nothing runs the animation loop again.
\<close>

theorem magnet_destroy_stops:
  assumes "mag_reach w"
  shows "mtransform (fst (fold mag_step evs (mag_step MDestroy w))) = None
    \<and> frames (snd (fold mag_step evs (mag_step MDestroy w))) = []"
proof -
  have "mag_inv (mag_step MDestroy w)" using mag_step_inv [OF mag_reach_inv [OF assms]] .
  moreover have "mtransform (fst (mag_step MDestroy w)) = None" by (cases w) (simp add: destroy_magnet_def)
  ultimately have "frames (snd (mag_step MDestroy w)) = []" by (cases "mag_step MDestroy w") (simp add: mag_inv_def)
  with \<open>mtransform (fst (mag_step MDestroy w)) = None\<close> show ?thesis by (rule dead_fold)
qed

lemma live_frame:
  assumes "mag_inv (m, h)" and "mtransform m \<noteq> None"
  shows "mag_inv (mag_step MFrame (m, h)) \<and> mtransform (fst (mag_step MFrame (m, h))) \<noteq> None
    \<and> mtarget (fst (mag_step MFrame (m, h))) = mtarget m \<and> smoothing (fst (mag_step MFrame (m, h))) = smoothing m
    \<and> fst (mpos (fst (mag_step MFrame (m, h)))) = lerp (smoothing m) (fst (mpos m)) (fst (mtarget m))
    \<and> snd (mpos (fst (mag_step MFrame (m, h)))) = lerp (smoothing m) (snd (mpos m)) (snd (mtarget m))"
proof -
  from assms obtain i where "frames h = [(i, MAnimate)]" by (auto simp: mag_inv_def)
  then show ?thesis using mag_step_inv [OF assms(1), of MFrame]
    by (simp add: animate_magnet_def request_frame_def Let_def)
qed

text \<open>
  C25. While the loop is live and the pointer is still, \<open>n\<close> frames shrink the gap
  between the displayed offset and the target to \<open>(1 - lerp)^n\<close> of its size on both
  axes; the target itself is unchanged.
\<close>

theorem magnet_settles:
  assumes "mag_reach (m, h)" and "mtransform m \<noteq> None"
  shows "mtarget (fst (mag_frames n (m, h))) = mtarget m
    \<and> fst (mtarget m) - fst (mpos (fst (mag_frames n (m, h)))) = (1 - smoothing m) ^ n * (fst (mtarget m) - fst (mpos m))
    \<and> snd (mtarget m) - snd (mpos (fst (mag_frames n (m, h)))) = (1 - smoothing m) ^ n * (snd (mtarget m) - snd (mpos m))"
proof -
  have "mag_inv (mag_frames n (m, h)) \<and> mtransform (fst (mag_frames n (m, h))) \<noteq> None
    \<and> mtarget (fst (mag_frames n (m, h))) = mtarget m \<and> smoothing (fst (mag_frames n (m, h))) = smoothing m
    \<and> fst (mtarget m) - fst (mpos (fst (mag_frames n (m, h)))) = (1 - smoothing m) ^ n * (fst (mtarget m) - fst (mpos m))
    \<and> snd (mtarget m) - snd (mpos (fst (mag_frames n (m, h)))) = (1 - smoothing m) ^ n * (snd (mtarget m) - snd (mpos m))"
  proof (induction n)
    case 0
    then show ?case using mag_reach_inv [OF assms(1)] assms(2) by (simp add: mag_frames_def)
  next
    case (Suc n)
    obtain m' h' where w: "mag_frames n (m, h) = (m', h')" by fastforce
    have eq: "mag_frames (Suc n) (m, h) = mag_step MFrame (m', h')" using w by (simp add: mag_frames_def)
    from Suc w live_frame [of m' h'] show ?case unfolding eq by (simp add: lerp_gap)
  qed
  then show ?thesis by blast
qed


lemma mag_reach_init_magnet: "mag_reach (init_magnet sa ta r (page_host rnd))"
  unfolding init_magnet_def by (rule mag_reach.init) simp_all

lemma demo_move:
  "mtarget (fst (mag_step (MMove 80 20 demo_rect) (init_magnet None None demo_rect (page_host (\<lambda>_. 0))))) = (51 / 5, 0)
   \<and> mpos (fst (mag_step (MMove 80 20 demo_rect) (init_magnet None None demo_rect (page_host (\<lambda>_. 0))))) = (0, 0)
   \<and> mtransform (fst (mag_step (MMove 80 20 demo_rect) (init_magnet None None demo_rect (page_host (\<lambda>_. 0))))) \<noteq> None
   \<and> pull_bound (fst (mag_step (MMove 80 20 demo_rect) (init_magnet None None demo_rect (page_host (\<lambda>_. 0))))) = 20"
  by (simp add: init_magnet_def new_magnet_def animate_magnet_def calculate_bounds_def rect_center_def demo_rect_def
      float_or_def hypot_def on_mouse_move_def request_frame_def Let_def lerp_def pull_bound_def)

theorem magnet_bounded_witness:
  "\<bar>fst (mtarget (fst (mag_step (MMove 80 20 demo_rect) (init_magnet None None demo_rect (page_host (\<lambda>_. 0))))))\<bar> \<le> 20"
proof -
  let ?w = "mag_step (MMove 80 20 demo_rect) (init_magnet None None demo_rect (page_host (\<lambda>_. 0)))"
  have r: "mag_reach (fst ?w, snd ?w)" using mag_reach.step [OF mag_reach_init_magnet] by simp
  from magnet_bounded [OF r] demo_move show ?thesis by simp
qed

theorem magnet_destroy_stops_witness:
  "mtransform (fst (fold mag_step [MFrame, MMove 80 20 demo_rect, MFrame]
      (mag_step MDestroy (init_magnet None None demo_rect (page_host (\<lambda>_. 0)))))) = None"
  using magnet_destroy_stops [OF mag_reach_init_magnet, of "[MFrame, MMove 80 20 demo_rect, MFrame]"] by blast

theorem magnet_settles_witness:
  "fst (mtarget (fst (mag_step (MMove 80 20 demo_rect) (init_magnet None None demo_rect (page_host (\<lambda>_. 0))))))
   - fst (mpos (fst (mag_frames 2 (mag_step (MMove 80 20 demo_rect) (init_magnet None None demo_rect (page_host (\<lambda>_. 0)))))))
   = 81 / 100 * (51 / 5)"
proof -
  let ?w = "mag_step (MMove 80 20 demo_rect) (init_magnet None None demo_rect (page_host (\<lambda>_. 0)))"
  have r: "mag_reach (fst ?w, snd ?w)" using mag_reach.step [OF mag_reach_init_magnet] by simp
  have k: "smoothing (fst ?w) = 1 / 10"
    by (simp add: init_magnet_def new_magnet_def animate_magnet_def calculate_bounds_def on_mouse_move_def Let_def
        request_frame_def)
  from magnet_settles [OF r, of 2] demo_move k show ?thesis by (simp add: power2_eq_square)
qed

end
