(* ===== verification/Tilt.thy ===== *)
theory Tilt
  imports Magnetic
begin

text \<open>
  The 3D tilt effect, class \<open>TiltElement\<close> and \<open>initTilt\<close> of \<open>src/src/js/tilt.js\<close>.
  An element is the part of its inline style the code writes (\<open>transform\<close>,
  \<open>transition\<close>, \<open>transformStyle\<close> and \<open>willChange\<close>) and the glare element it adds.
  A transform is the four numbers of the string the code builds. A number computed by
  dividing by half of a zero width or height is \<open>Infinity\<close> or \<open>NaN\<close>, which makes the
  CSS value invalid, and the browser ignores the assignment: the model keeps the old
  value in that case. The \<open>setTimeout\<close> that \<open>onEnter\<close> schedules is counted in
  \<open>resets\<close>; the browser fires one of them at a time (\<open>TResetFire\<close>).
\<close>

record tilt_tf =
  tf_persp :: real
  tf_rx :: real
  tf_ry :: real
  tf_scale :: real

datatype trans = TEase real | TNone

record glare =
  g_attached :: bool
  g_bg :: "(real \<times> real \<times> real) option"
  g_opacity :: "jstr option"

record tilt =
  max_tilt :: real
  persp :: real
  tscale :: real
  speed :: real
  glare_on :: bool
  max_glare :: real
  glare_el :: "glare option"
  transform :: "tilt_tf option"
  transition :: "trans option"
  preserve3d :: bool
  listening :: bool
  resets :: nat

datatype tilt_event = TEnter | TMove real real rect | TLeave | TResetFire | TDestroy

text \<open>The constructor with its options, then \<open>init()\<close>: nothing on a touch device.\<close>

definition new_tilt :: "bool \<Rightarrow> real \<Rightarrow> real \<Rightarrow> bool \<Rightarrow> tilt" where
  "new_tilt touch mt sc gl =
     (let t0 = \<lparr>max_tilt = mt, persp = 1000, tscale = sc, speed = 400, glare_on = gl, max_glare = 0.2,
                glare_el = None, transform = None, transition = None, preserve3d = False,
                listening = False, resets = 0\<rparr>
      in if touch then t0
         else t0\<lparr>preserve3d := True,
                 glare_el := (if gl then Some \<lparr>g_attached = True, g_bg = None, g_opacity = None\<rparr> else None),
                 listening := True\<rparr>)"

definition on_enter :: "tilt \<Rightarrow> tilt" where
  "on_enter t = t\<lparr>transition := Some (TEase (speed t)), resets := Suc (resets t)\<rparr>"

text \<open>The timeout scheduled by \<open>onEnter\<close>: \<open>transition = 'none'\<close>.\<close>

definition reset_fire :: "tilt \<Rightarrow> tilt" where
  "reset_fire t = (if 0 < resets t then t\<lparr>transition := Some TNone, resets := resets t - 1\<rparr> else t)"

definition tilt_angles :: "real \<Rightarrow> real \<Rightarrow> rect \<Rightarrow> real \<Rightarrow> real \<times> real" where
  "tilt_angles x y r mt =
     (let lx = x - r_left r; ly = y - r_top r; cx = r_width r / 2; cy = r_height r / 2
      in ((ly - cy) / cy * - mt, (lx - cx) / cx * mt))"

definition on_move :: "real \<Rightarrow> real \<Rightarrow> rect \<Rightarrow> tilt \<Rightarrow> tilt" where
  "on_move x y r t =
     (let finite = (0 < r_width r \<and> 0 < r_height r);
          (rx, ry) = tilt_angles x y r (max_tilt t);
          t1 = (if finite then t\<lparr>transform := Some \<lparr>tf_persp = persp t, tf_rx = rx, tf_ry = ry, tf_scale = tscale t\<rparr>\<rparr>
                else t)
      in case glare_el t1 of
           None \<Rightarrow> t1
         | Some g \<Rightarrow>
             t1\<lparr>glare_el := Some (g\<lparr>g_bg := (if finite then Some ((x - r_left r) / r_width r * 100,
                                                              (y - r_top r) / r_height r * 100, max_glare t)
                                               else g_bg g),
                                     g_opacity := Some (js ''1'')\<rparr>)\<rparr>)"

definition on_leave :: "tilt \<Rightarrow> tilt" where
  "on_leave t =
     (let t1 = t\<lparr>transition := Some (TEase (speed t)),
                 transform := Some \<lparr>tf_persp = persp t, tf_rx = 0, tf_ry = 0, tf_scale = 1\<rparr>\<rparr>
      in case glare_el t1 of None \<Rightarrow> t1 | Some g \<Rightarrow> t1\<lparr>glare_el := Some (g\<lparr>g_opacity := Some (js ''0'')\<rparr>)\<rparr>)"

text \<open>\<open>destroy()\<close>: clears the styles and removes the glare wrapper; no listener is removed.\<close>

definition destroy_tilt :: "tilt \<Rightarrow> tilt" where
  "destroy_tilt t =
     (let t1 = t\<lparr>transform := None, transition := None\<rparr>
      in case glare_el t1 of None \<Rightarrow> t1 | Some g \<Rightarrow> t1\<lparr>glare_el := Some (g\<lparr>g_attached := False\<rparr>)\<rparr>)"

fun tilt_step :: "tilt_event \<Rightarrow> tilt \<Rightarrow> tilt" where
  "tilt_step TEnter t = (if listening t then on_enter t else t)"
| "tilt_step (TMove x y r) t = (if listening t then on_move x y r t else t)"
| "tilt_step TLeave t = (if listening t then on_leave t else t)"
| "tilt_step TResetFire t = reset_fire t"
| "tilt_step TDestroy t = destroy_tilt t"

text \<open>\<open>initTilt\<close> for one \<open>[data-tilt]\<close> element: \<open>data-tilt-glare\<close> other than \<open>'false'\<close> keeps the glare.\<close>

definition init_tilt :: "bool \<Rightarrow> real option \<Rightarrow> real option \<Rightarrow> jstr option \<Rightarrow> tilt" where
  "init_tilt touch ma sa ga = new_tilt touch (float_or 15 ma) (float_or 1.02 sa) (ga \<noteq> Some (js ''false''))"

definition tilt_run :: "tilt_event list \<Rightarrow> tilt \<Rightarrow> tilt" where
  "tilt_run evs t = fold tilt_step evs t"

subsection \<open>Properties\<close>

lemma ratio_le_one:
  assumes "0 < c" "0 \<le> l" "l \<le> 2 * c"
  shows "\<bar>(l - c) / c\<bar> \<le> (1 :: real)"
  using assms by (simp add: abs_le_iff divide_le_eq_1 field_simps)

lemma percent_bounds:
  assumes "0 < w" "0 \<le> l" "l \<le> w"
  shows "0 \<le> l / w * 100 \<and> l / w * 100 \<le> (100 :: real)"
  using assms by (simp add: field_simps)

lemma abs_scale_le: "\<bar>a\<bar> \<le> 1 \<Longrightarrow> \<bar>a * m\<bar> \<le> \<bar>m :: real\<bar>"
  by (simp add: abs_mult) (rule mult_left_le_one_le; simp)

lemma tilt_angles_bounded:
  assumes "0 < r_width r" "0 < r_height r" "r_left r \<le> x" "x \<le> r_left r + r_width r"
    "r_top r \<le> y" "y \<le> r_top r + r_height r"
  shows "\<bar>fst (tilt_angles x y r m)\<bar> \<le> \<bar>m\<bar> \<and> \<bar>snd (tilt_angles x y r m)\<bar> \<le> \<bar>m\<bar>"
proof -
  have a: "\<bar>(y - r_top r - r_height r / 2) / (r_height r / 2)\<bar> \<le> 1"
    using assms by (intro ratio_le_one) simp_all
  have b: "\<bar>(x - r_left r - r_width r / 2) / (r_width r / 2)\<bar> \<le> 1"
    using assms by (intro ratio_le_one) simp_all
  have "\<bar>(y - r_top r - r_height r / 2) / (r_height r / 2) * - m\<bar> \<le> \<bar>m\<bar>"
    using abs_scale_le [OF a, of "- m"] by simp
  moreover have "\<bar>(x - r_left r - r_width r / 2) / (r_width r / 2) * m\<bar> \<le> \<bar>m\<bar>"
    using abs_scale_le [OF b] .
  ultimately show ?thesis unfolding tilt_angles_def Let_def prod.sel by (rule conjI)
qed

lemma on_move_finite:
  assumes "0 < r_width r" "0 < r_height r" "tilt_angles x y r (max_tilt t) = (rx, ry)"
  shows "transform (on_move x y r t) = Some \<lparr>tf_persp = persp t, tf_rx = rx, tf_ry = ry, tf_scale = tscale t\<rparr>
    \<and> glare_el (on_move x y r t) = map_option (\<lambda>g. g\<lparr>g_bg := Some ((x - r_left r) / r_width r * 100,
         (y - r_top r) / r_height r * 100, max_glare t), g_opacity := Some (js ''1'')\<rparr>) (glare_el t)"
  using assms by (cases "glare_el t") (simp_all add: on_move_def)

text \<open>
  C26. While the pointer is over an element with a non-empty box, the tilt never
  exceeds \<open>maxTilt\<close> degrees about either axis, the perspective and scale are the
  configured ones, and the glare centre lies within the element (both percentages in
  \<open>[0, 100]\<close>) with the glare shown.
\<close>

theorem on_move_bounded:
  assumes "0 < r_width r" "0 < r_height r" "r_left r \<le> x" "x \<le> r_left r + r_width r"
    "r_top r \<le> y" "y \<le> r_top r + r_height r"
  shows "(\<exists>f. transform (on_move x y r t) = Some f \<and> \<bar>tf_rx f\<bar> \<le> \<bar>max_tilt t\<bar> \<and> \<bar>tf_ry f\<bar> \<le> \<bar>max_tilt t\<bar>
           \<and> tf_persp f = persp t \<and> tf_scale f = tscale t)
    \<and> (\<forall>g. glare_el (on_move x y r t) = Some g \<longrightarrow>
          (\<exists>bx bym. g_bg g = Some (bx, bym, max_glare t) \<and> 0 \<le> bx \<and> bx \<le> 100 \<and> 0 \<le> bym \<and> bym \<le> 100)
          \<and> g_opacity g = Some (js ''1''))"
proof -
  obtain rx ry where ang: "tilt_angles x y r (max_tilt t) = (rx, ry)" by fastforce
  with tilt_angles_bounded [OF assms, of "max_tilt t"] have "\<bar>rx\<bar> \<le> \<bar>max_tilt t\<bar>" "\<bar>ry\<bar> \<le> \<bar>max_tilt t\<bar>" by simp_all
  moreover have "0 \<le> (x - r_left r) / r_width r * 100 \<and> (x - r_left r) / r_width r * 100 \<le> 100"
    using assms by (intro percent_bounds) simp_all
  moreover have "0 \<le> (y - r_top r) / r_height r * 100 \<and> (y - r_top r) / r_height r * 100 \<le> 100"
    using assms by (intro percent_bounds) simp_all
  moreover note on_move_finite [OF assms(1,2) ang]
  ultimately show ?thesis by auto
qed

theorem on_move_bounded_witness:
  "\<exists>f. transform (on_move 0 0 demo_rect (init_tilt False None None None)) = Some f \<and> \<bar>tf_rx f\<bar> \<le> 15"
proof -
  have "0 < r_width demo_rect" "0 < r_height demo_rect" "r_left demo_rect \<le> 0" "0 \<le> r_left demo_rect + r_width demo_rect"
    "r_top demo_rect \<le> 0" "0 \<le> r_top demo_rect + r_height demo_rect" by (simp_all add: demo_rect_def)
  from on_move_bounded [OF this, of "init_tilt False None None None"] show ?thesis
    by (simp add: init_tilt_def new_tilt_def float_or_def) blast
qed



text \<open>
  C28. Leaving an element before the \<open>speed\<close> milliseconds scheduled by
  \<open>onEnter\<close> have passed: the pending timeout still fires after \<open>onLeave\<close> and sets
  \<open>transition: none\<close>, so the eased return to the flat transform is cut short.
\<close>

theorem quick_leave_cancels_ease:
  assumes "listening t"
  shows "transform (tilt_run [TEnter, TLeave, TResetFire] t) = Some \<lparr>tf_persp = persp t, tf_rx = 0, tf_ry = 0, tf_scale = 1\<rparr>
    \<and> transition (tilt_run [TEnter, TLeave, TResetFire] t) = Some TNone"
  using assms by (simp add: tilt_run_def on_enter_def on_leave_def reset_fire_def Let_def split: option.splits)

theorem quick_leave_cancels_ease_witness:
  "transition (tilt_run [TEnter, TLeave, TResetFire] (init_tilt False None None None)) = Some TNone"
  using quick_leave_cancels_ease [of "init_tilt False None None None"] by (simp add: init_tilt_def new_tilt_def)

text \<open>
  C29. \<open>destroy()\<close> clears the styles but removes no listener: the next mouse move
  over the element tilts it again.
\<close>

theorem destroy_then_move_tilts:
  assumes "listening t" and "0 < r_width r" and "0 < r_height r"
  shows "transform (tilt_run [TDestroy, TMove x y r] t) \<noteq> None"
  using assms by (simp add: tilt_run_def destroy_tilt_def on_move_def Let_def split: option.splits prod.splits)

theorem destroy_then_move_tilts_witness:
  "transform (tilt_run [TDestroy, TMove 50 20 demo_rect] (init_tilt False None None None)) \<noteq> None"
  using destroy_then_move_tilts [of "init_tilt False None None None" demo_rect 50 20]
  by (simp add: init_tilt_def new_tilt_def demo_rect_def)

lemma touch_step:
  "transform t = None \<Longrightarrow> transition t = None \<Longrightarrow> glare_el t = None \<Longrightarrow> \<not> listening t \<Longrightarrow> resets t = 0 \<Longrightarrow>
   transform (tilt_step ev t) = None \<and> transition (tilt_step ev t) = None \<and> glare_el (tilt_step ev t) = None
   \<and> \<not> listening (tilt_step ev t) \<and> resets (tilt_step ev t) = 0"
  by (cases ev) (simp_all add: reset_fire_def destroy_tilt_def)

text \<open>
  C30. On a touch device \<open>initTilt\<close> builds an element that never gets a transform, a
  transition or a glare, whatever events follow, \<open>destroy()\<close> included.
\<close>

theorem touch_inert:
  "transform (tilt_run evs (init_tilt True ma sa ga)) = None \<and> transition (tilt_run evs (init_tilt True ma sa ga)) = None
   \<and> glare_el (tilt_run evs (init_tilt True ma sa ga)) = None"
proof -
  have "\<And>t. transform t = None \<Longrightarrow> transition t = None \<Longrightarrow> glare_el t = None \<Longrightarrow> \<not> listening t \<Longrightarrow> resets t = 0 \<Longrightarrow>
    transform (fold tilt_step evs t) = None \<and> transition (fold tilt_step evs t) = None \<and> glare_el (fold tilt_step evs t) = None
    \<and> \<not> listening (fold tilt_step evs t) \<and> resets (fold tilt_step evs t) = 0"
  proof (induction evs)
    case (Cons ev evs)
    show ?case using Cons.IH touch_step [OF Cons.prems] by simp
  qed simp
  then show ?thesis by (simp add: tilt_run_def init_tilt_def new_tilt_def)
qed

end
