(* ===== verification/Nav.thy ===== *)
theory Nav
  imports Prelude
begin

text \<open>
  The page wiring of \<open>src/src/js/main.js\<close>: the mobile navigation
  (\<open>initMobileNav\<close>), the smooth scrolling of in-page anchors (\<open>initSmoothScroll\<close>),
  and the preloader (\<open>initPreloader\<close>). The navigation
  state is the four indicators the code writes: the toggle's \<open>is-active\<close> class and
  \<open>aria-expanded\<close> attribute, the menu's \<open>is-open\<close> class and the body's
  \<open>menu-open\<close> class. \<open>document.querySelector\<close> is a parameter of the anchor handler:
  it returns the element, \<open>null\<close>, or throws a \<open>SyntaxError\<close> for an invalid selector.
\<close>

record nav =
  toggle_active :: bool
  aria_expanded :: "jstr option"
  menu_open :: bool
  body_menu_open :: bool

datatype nav_event = ToggleClick | LinkClick | KeyDown jstr | Resize int

definition open_menu :: "nav \<Rightarrow> nav" where
  "open_menu s = s\<lparr>toggle_active := True, aria_expanded := Some (js ''true''), menu_open := True,
     body_menu_open := True\<rparr>"

definition close_menu :: "nav \<Rightarrow> nav" where
  "close_menu s = s\<lparr>toggle_active := False, aria_expanded := Some (js ''false''), menu_open := False,
     body_menu_open := False\<rparr>"

text \<open>The four listeners \<open>initMobileNav\<close> registers, run on the state.\<close>

fun nav_handler :: "nav_event \<Rightarrow> nav \<Rightarrow> nav" where
  "nav_handler ToggleClick s = (if menu_open s then close_menu s else open_menu s)"
| "nav_handler LinkClick s = close_menu s"
| "nav_handler (KeyDown k) s = (if k = js ''Escape'' \<and> menu_open s then close_menu s else s)"
| "nav_handler (Resize w) s = (if 768 < w \<and> menu_open s then close_menu s else s)"

text \<open>\<open>initMobileNav\<close> binds nothing when the toggle or the menu is missing.\<close>

definition nav_bound :: "bool \<Rightarrow> bool \<Rightarrow> bool" where
  "nav_bound has_toggle has_menu \<longleftrightarrow> has_toggle \<and> has_menu"

definition nav_run :: "bool \<Rightarrow> nav_event list \<Rightarrow> nav \<Rightarrow> nav" where
  "nav_run bound evs s = (if bound then fold nav_handler evs s else s)"

subsection \<open>In-page anchors\<close>

datatype 'n anchor_result = FollowLink | SmoothScroll 'n | HandlerThrew

text \<open>
  The click handler of \<open>a[href^="#"]\<close>: \<open>'#'\<close> alone returns early; otherwise the target
  is looked up, and only a found target cancels the default jump and scrolls smoothly.
  A throwing \<open>querySelector\<close> aborts the handler before \<open>preventDefault\<close>, so the
  browser follows the link.
\<close>

definition anchor_click :: "(jstr \<Rightarrow> (js_error + 'n option)) \<Rightarrow> jstr \<Rightarrow> 'n anchor_result" where
  "anchor_click qs href =
     (if href = js ''#'' then FollowLink
      else (case qs href of
              Inl _ \<Rightarrow> HandlerThrew
            | Inr None \<Rightarrow> FollowLink
            | Inr (Some t) \<Rightarrow> SmoothScroll t))"

subsection \<open>Preloader\<close>

record preloader =
  pre_hidden :: bool
  body_loaded :: bool
  pending_hide :: nat

datatype pre_event = WindowLoad | HideTimeout

text \<open>\<open>initPreloader\<close>: on \<open>load\<close>, a 500 ms timeout adds the two classes.\<close>

fun preloader_step :: "bool \<Rightarrow> pre_event \<Rightarrow> preloader \<Rightarrow> preloader" where
  "preloader_step present WindowLoad p = (if present then p\<lparr>pending_hide := Suc (pending_hide p)\<rparr> else p)"
| "preloader_step present HideTimeout p =
     (if 0 < pending_hide p then p\<lparr>pre_hidden := True, body_loaded := True, pending_hide := pending_hide p - 1\<rparr>
      else p)"

subsection \<open>The menu as one bit\<close>

text \<open>
  What the navigation promises: one bit, open or closed; the toggle flips it, a link,
  \<open>Escape\<close> and a resize to a desktop width close it.
\<close>

fun menu_spec :: "nav_event \<Rightarrow> bool \<Rightarrow> bool" where
  "menu_spec ToggleClick b = (\<not> b)"
| "menu_spec LinkClick b = False"
| "menu_spec (KeyDown k) b = (b \<and> k \<noteq> js ''Escape'')"
| "menu_spec (Resize w) b = (b \<and> w \<le> 768)"

text \<open>A page as served: the menu closed and \<open>aria-expanded\<close> not set.\<close>

definition served_nav :: nav where
  "served_nav = \<lparr>toggle_active = False, aria_expanded = None, menu_open = False, body_menu_open = False\<rparr>"

text \<open>The four indicators agree: all set when the menu is open, all clear when it is closed.\<close>

definition nav_consistent :: "nav \<Rightarrow> bool" where
  "nav_consistent s \<longleftrightarrow> toggle_active s = menu_open s \<and> body_menu_open s = menu_open s
     \<and> (aria_expanded s = Some (js ''true'')) = menu_open s"

subsection \<open>Properties\<close>

lemma nav_handler_consistent: "nav_consistent s \<Longrightarrow> nav_consistent (nav_handler ev s)"
  by (cases ev) (auto simp: nav_consistent_def open_menu_def close_menu_def)

lemma nav_handler_spec: "nav_consistent s \<Longrightarrow> menu_open (nav_handler ev s) = menu_spec ev (menu_open s)"
  by (cases ev) (auto simp: nav_consistent_def open_menu_def close_menu_def)

text \<open>
  C31. The mobile navigation's four indicators (toggle \<open>is-active\<close>,
  \<open>aria-expanded\<close>, menu \<open>is-open\<close>, body \<open>menu-open\<close>) agree after any sequence
  of clicks, key presses and resizes, starting from a page where they agree.
\<close>

theorem nav_run_consistent: "nav_consistent s \<Longrightarrow> nav_consistent (nav_run b evs s)"
proof -
  assume c: "nav_consistent s"
  have "nav_consistent (fold nav_handler evs s)" using c
    by (induction evs arbitrary: s) (simp_all add: nav_handler_consistent)
  then show ?thesis using c by (simp add: nav_run_def)
qed

theorem nav_run_consistent_witness:
  "nav_consistent (nav_run True [ToggleClick, LinkClick, ToggleClick] served_nav)"
  using nav_run_consistent [of served_nav True "[ToggleClick, LinkClick, ToggleClick]"]
  by (simp add: nav_consistent_def served_nav_def)

text \<open>
  C32. The navigation implements the one-bit menu \<open>menu_spec\<close>: the toggle flips it,
  a menu link closes it, \<open>Escape\<close> closes it, a resize to a width above 768 pixels
  closes it, and nothing else changes it.
\<close>

theorem nav_refines:
  "nav_consistent s \<Longrightarrow> menu_open (nav_run True evs s) = fold menu_spec evs (menu_open s)"
proof (induction evs arbitrary: s)
  case Nil
  then show ?case by (simp add: nav_run_def)
next
  case (Cons ev evs)
  have "menu_open (nav_run True evs (nav_handler ev s)) = fold menu_spec evs (menu_open (nav_handler ev s))"
    using Cons.IH nav_handler_consistent [OF Cons.prems] .
  then show ?case using nav_handler_spec [OF Cons.prems] by (simp add: nav_run_def)
qed

theorem nav_refines_witness:
  "menu_open (nav_run True [ToggleClick, Resize 500, KeyDown (js ''Tab'')] served_nav)
   \<and> \<not> menu_open (nav_run True [ToggleClick, KeyDown (js ''Escape'')] served_nav)"
  using nav_refines [of served_nav "[ToggleClick, Resize 500, KeyDown (js ''Tab'')]"]
    nav_refines [of served_nav "[ToggleClick, KeyDown (js ''Escape'')]"]
  by (simp add: nav_consistent_def served_nav_def)

end
