(* ===== verification/Typewriter.thy ===== *)
theory Typewriter
  imports Prelude
begin

text \<open>
  The typewriter effect, class \<open>Typewriter\<close> of \<open>src/unnamed/part_001\<close> (lines 208--245).
  The constructor takes the element's text and empties the element; every call of
  \<open>type()\<close> starts a run: after \<open>delay\<close> milliseconds an interval with its own counter
  \<open>i\<close> appends one character per tick and, once past the end, clears itself and resolves
  the run's promise. A run is its phase; the browser's timers fire the runs' callbacks
  in an order the model leaves open (\<open>TwStart k\<close>, \<open>TwTick k\<close> for run \<open>k\<close>).
\<close>

datatype tw_phase = Waiting | Ticking nat | Finished

record typewriter =
  tw_el :: jstr
  tw_text :: jstr
  tw_speed :: int
  tw_delay :: int
  tw_cursor_class :: bool
  runs :: "tw_phase list"

datatype tw_event = TwType | TwStart nat | TwTick nat

definition new_typewriter :: "jstr \<Rightarrow> int option \<Rightarrow> int option \<Rightarrow> bool option \<Rightarrow> typewriter" where
  "new_typewriter content sp dl cur =
     \<lparr>tw_el = [], tw_text = content, tw_speed = (case sp of None \<Rightarrow> 50 | Some v \<Rightarrow> v),
      tw_delay = (case dl of None \<Rightarrow> 0 | Some v \<Rightarrow> v), tw_cursor_class = (case cur of None \<Rightarrow> True | Some b \<Rightarrow> b),
      runs = []\<rparr>"

text \<open>One tick of run \<open>k\<close>'s interval: \<open>textContent += text.charAt(i)\<close>, or clear and resolve.\<close>

definition tw_tick :: "nat \<Rightarrow> typewriter \<Rightarrow> typewriter" where
  "tw_tick k t =
     (case js_nth (runs t) k of
        Some (Ticking i) \<Rightarrow>
          (if i < length (tw_text t)
           then t\<lparr>tw_el := tw_el t @ [tw_text t ! i], runs := (runs t)[k := Ticking (Suc i)]\<rparr>
           else t\<lparr>runs := (runs t)[k := Finished]\<rparr>)
      | _ \<Rightarrow> t)"

fun tw_step :: "tw_event \<Rightarrow> typewriter \<Rightarrow> typewriter" where
  "tw_step TwType t = t\<lparr>runs := runs t @ [Waiting]\<rparr>"
| "tw_step (TwStart k) t =
     (case js_nth (runs t) k of Some Waiting \<Rightarrow> t\<lparr>runs := (runs t)[k := Ticking 0]\<rparr> | _ \<Rightarrow> t)"
| "tw_step (TwTick k) t = tw_tick k t"

definition tw_run :: "tw_event list \<Rightarrow> typewriter \<Rightarrow> typewriter" where
  "tw_run evs t = fold tw_step evs t"

subsection \<open>Properties\<close>

lemma tw_run_Cons [simp]: "tw_run (e # es) t = tw_run es (tw_step e t)"
  and tw_run_Nil [simp]: "tw_run [] t = t"
  and tw_run_append: "tw_run (es @ fs) t = tw_run fs (tw_run es t)"
  by (simp_all add: tw_run_def)

lemma tw_tick_Ticking:
  assumes "k < length (runs t)" "runs t ! k = Ticking i"
  shows "tw_tick k t = (if i < length (tw_text t)
           then t\<lparr>tw_el := tw_el t @ [tw_text t ! i], runs := (runs t)[k := Ticking (Suc i)]\<rparr>
           else t\<lparr>runs := (runs t)[k := Finished]\<rparr>)"
  using assms by (simp add: tw_tick_def)

lemma tw_ticks:
  assumes "k < length (runs t)" "runs t ! k = Ticking i" "i + n \<le> length (tw_text t)"
  shows "tw_run (replicate n (TwTick k)) t
    = t\<lparr>tw_el := tw_el t @ take n (drop i (tw_text t)), runs := (runs t)[k := Ticking (i + n)]\<rparr>"
  using assms
proof (induction n arbitrary: t i)
  case 0
  then have "(runs t)[k := Ticking i] = runs t" by (metis list_update_id)
  then show ?case by simp
next
  case (Suc n)
  let ?t1 = "t\<lparr>tw_el := tw_el t @ [tw_text t ! i], runs := (runs t)[k := Ticking (Suc i)]\<rparr>"
  have i: "i < length (tw_text t)" using Suc.prems(3) by simp
  have step: "tw_step (TwTick k) t = ?t1" using tw_tick_Ticking [OF Suc.prems(1,2)] i by simp
  have "tw_run (replicate n (TwTick k)) ?t1
      = ?t1\<lparr>tw_el := tw_el ?t1 @ take n (drop (Suc i) (tw_text ?t1)), runs := (runs ?t1)[k := Ticking (Suc i + n)]\<rparr>"
    using Suc.prems by (intro Suc.IH) simp_all
  moreover have "take (Suc n) (drop i (tw_text t)) = tw_text t ! i # take n (drop (Suc i) (tw_text t))"
    using i by (simp add: Cons_nth_drop_Suc [symmetric])
  ultimately show ?case using step by simp
qed

text \<open>
  C33. A run of \<open>type()\<close> started alone terminates: after its timeout and
  \<open>n \<le> length text\<close> ticks it has typed the first \<open>n\<close> characters, and the next
  tick clears the interval and resolves, with the whole text appended to the element.
\<close>

theorem typewriter_completes:
  assumes "k < length (runs t)" and "runs t ! k = Waiting"
  shows "(\<forall>n \<le> length (tw_text t). tw_run (TwStart k # replicate n (TwTick k)) t
            = t\<lparr>tw_el := tw_el t @ take n (tw_text t), runs := (runs t)[k := Ticking n]\<rparr>)
    \<and> tw_run (TwStart k # replicate (Suc (length (tw_text t))) (TwTick k)) t
        = t\<lparr>tw_el := tw_el t @ tw_text t, runs := (runs t)[k := Finished]\<rparr>"
proof -
  let ?t0 = "t\<lparr>runs := (runs t)[k := Ticking 0]\<rparr>"
  have st: "tw_step (TwStart k) t = ?t0" using assms by simp
  have pre: "k < length (runs ?t0)" "runs ?t0 ! k = Ticking 0" using assms(1) by simp_all
  have part: "\<forall>n \<le> length (tw_text t). tw_run (TwStart k # replicate n (TwTick k)) t
            = t\<lparr>tw_el := tw_el t @ take n (tw_text t), runs := (runs t)[k := Ticking n]\<rparr>"
    using tw_ticks [OF pre] st by simp
  let ?tl = "t\<lparr>tw_el := tw_el t @ tw_text t, runs := (runs t)[k := Ticking (length (tw_text t))]\<rparr>"
  have last: "tw_step (TwTick k) ?tl = t\<lparr>tw_el := tw_el t @ tw_text t, runs := (runs t)[k := Finished]\<rparr>"
    using tw_tick_Ticking [of k ?tl "length (tw_text t)"] assms(1) by simp
  have "replicate (Suc (length (tw_text t))) (TwTick k) = replicate (length (tw_text t)) (TwTick k) @ [TwTick k]"
    by (simp add: replicate_append_same)
  then show ?thesis using part last by (simp add: tw_run_append)
qed


theorem typewriter_completes_witness:
  "tw_run (TwStart 0 # replicate 3 (TwTick 0)) (tw_run [TwType] (new_typewriter (js ''Hi'') None None None))
     = (tw_run [TwType] (new_typewriter (js ''Hi'') None None None))\<lparr>tw_el := js ''Hi'', runs := [Finished]\<rparr>"
  using typewriter_completes [of 0 "tw_run [TwType] (new_typewriter (js ''Hi'') None None None)"]
  by (simp add: new_typewriter_def numeral_3_eq_3)

lemma tw_pair_ticks:
  assumes "runs t = [Ticking i, Ticking i]" "i + n \<le> length (tw_text t)"
  shows "tw_run (concat (replicate n [TwTick 0, TwTick 1])) t
    = t\<lparr>tw_el := tw_el t @ concat (map (\<lambda>c. [c, c]) (take n (drop i (tw_text t)))),
        runs := [Ticking (i + n), Ticking (i + n)]\<rparr>"
  using assms
proof (induction n arbitrary: t i)
  case 0
  then show ?case by simp
next
  case (Suc n)
  have i: "i < length (tw_text t)" using Suc.prems(2) by simp
  let ?t2 = "t\<lparr>tw_el := tw_el t @ [tw_text t ! i, tw_text t ! i], runs := [Ticking (Suc i), Ticking (Suc i)]\<rparr>"
  have two: "tw_run [TwTick 0, TwTick 1] t = ?t2"
    using i Suc.prems(1) by (simp add: tw_tick_def)
  have "tw_run (concat (replicate n [TwTick 0, TwTick 1])) ?t2
      = ?t2\<lparr>tw_el := tw_el ?t2 @ concat (map (\<lambda>c. [c, c]) (take n (drop (Suc i) (tw_text ?t2)))),
            runs := [Ticking (Suc i + n), Ticking (Suc i + n)]\<rparr>"
    using Suc.prems by (intro Suc.IH) simp_all
  moreover have "take (Suc n) (drop i (tw_text t)) = tw_text t ! i # take n (drop (Suc i) (tw_text t))"
    using i by (simp add: Cons_nth_drop_Suc [symmetric])
  moreover have "concat (replicate (Suc n) [TwTick 0, TwTick 1]) = [TwTick 0, TwTick 1] @ concat (replicate n [TwTick 0, TwTick 1])"
    by simp
  ultimately show ?case using two by (simp only: tw_run_append) simp
qed

text \<open>
  C34. \<open>type()\<close> has no guard against a second call: two runs whose ticks alternate
  type every character twice, so the element ends with each character doubled.
\<close>

theorem typewriter_twice_doubles:
  "tw_el (tw_run ([TwType, TwType, TwStart 0, TwStart 1] @ concat (replicate (length content) [TwTick 0, TwTick 1]))
           (new_typewriter content sp dl cur))
   = concat (map (\<lambda>c. [c, c]) content)"
proof -
  let ?t = "(new_typewriter content sp dl cur)\<lparr>runs := [Ticking 0, Ticking 0]\<rparr>"
  have "tw_run [TwType, TwType, TwStart 0, TwStart 1] (new_typewriter content sp dl cur) = ?t"
    by (simp add: new_typewriter_def)
  moreover have "tw_run (concat (replicate (length content) [TwTick 0, TwTick 1])) ?t
      = ?t\<lparr>tw_el := concat (map (\<lambda>c. [c, c]) content), runs := [Ticking (length content), Ticking (length content)]\<rparr>"
    using tw_pair_ticks [of ?t 0 "length content"] by (simp add: new_typewriter_def)
  ultimately show ?thesis by (simp add: tw_run_append)
qed

end
