(* ===== verification/ScrollFx.thy ===== *)
theory ScrollFx
  imports Kinetic Magnetic "HOL-Library.Multiset"
begin

text \<open>
  The scroll-driven animations of \<open>src/src/js/scroll-animations.js\<close>. Most functions hand
  a description of a tween to GSAP: the model builds those descriptions (targets, subsection \<open>initScrollAnimations\<close>

record scroll_page =
  has_hero :: bool
  animated :: "(nat \<times> jstr option) list"
  parallax_els :: "(nat \<times> real option) list"
  has_progress :: bool
  has_nav :: bool
  counter_els :: "(nat \<times> jstr option) list"

record scroll_setup =
  hero_tl :: "(tween \<times> real) list"
  tweens :: "tween list"
  progress_listening :: bool
  nav_trigger :: bool

text \<open>The six initialisers in the order of the code; the tweens in the order they are created.\<close>

definition init_scroll_animations :: "scroll_page \<Rightarrow> scroll_setup" where
  "init_scroll_animations pg =
     \<lparr>hero_tl = init_hero (has_hero pg),
      tweens = init_scroll_reveals (animated pg) @ init_parallax (parallax_els pg)
               @ map (\<lambda>(e, ca). counter_tween e ca) (counter_els pg),
      progress_listening = has_progress pg, nav_trigger = has_nav pg\<rparr>"

end
  values, duration, ease, stagger and ScrollTrigger settings) as data, and models of GSAP
  itself only what a property needs: the placement of tweens on a timeline. The scroll
  progress bar and the navigation's scrolled state are plain listeners and are modelled
  as functions of the scroll position; the counters are the text their \<open>onUpdate\<close>
  writes for a tweened value.
\<close>

datatype gtarget = Sel jstr | El nat | ChildrenOf nat | ParentOrSelf nat | CounterObj nat | Within nat jstr

text \<open>A value in a tween's variables: a number, \<open>NaN\<close>, or a string such as a clip path.\<close>

datatype gval = Num real | NaNv | Str jstr

record scroll_trigger =
  trig_el :: gtarget
  trig_start :: jstr
  trig_end :: "jstr option"
  trig_actions :: "jstr option"
  trig_scrub :: bool

record tween =
  tw_targets :: gtarget
  tw_vars :: "(jstr \<times> gval) list"
  tw_duration :: real
  tw_ease :: jstr
  tw_stagger :: real
  tw_trigger :: "scroll_trigger option"

subsection \<open>Hero timeline\<close>

text \<open>The five \<open>tl.to\<close> calls of \<open>initHeroAnimations\<close> with their position offsets.\<close>

definition hero_tweens :: "(tween \<times> real) list" where
  "hero_tweens =
     [(\<lparr>tw_targets = Sel (js ''.hero__eyebrow''), tw_vars = [(js ''opacity'', Num 1), (js ''y'', Num 0)], tw_duration = 0.8,
        tw_ease = js ''power3.out'', tw_stagger = 0, tw_trigger = None\<rparr>, 0),
      (\<lparr>tw_targets = Sel (js ''.hero__title-text''), tw_vars = [(js ''opacity'', Num 1), (js ''y'', Num 0)], tw_duration = 1,
        tw_ease = js ''power3.out'', tw_stagger = 0.15, tw_trigger = None\<rparr>, 0.4),
      (\<lparr>tw_targets = Sel (js ''.hero__subtitle''), tw_vars = [(js ''opacity'', Num 1), (js ''y'', Num 0)], tw_duration = 0.8,
        tw_ease = js ''power3.out'', tw_stagger = 0, tw_trigger = None\<rparr>, 0.6),
      (\<lparr>tw_targets = Sel (js ''.hero__cta''), tw_vars = [(js ''opacity'', Num 1), (js ''y'', Num 0)], tw_duration = 0.8,
        tw_ease = js ''power3.out'', tw_stagger = 0, tw_trigger = None\<rparr>, 0.5),
      (\<lparr>tw_targets = Sel (js ''.hero__scroll''), tw_vars = [(js ''opacity'', Num 1)], tw_duration = 0.6,
        tw_ease = js ''power3.out'', tw_stagger = 0, tw_trigger = None\<rparr>, 0.3)]"

definition init_hero :: "bool \<Rightarrow> (tween \<times> real) list" where
  "init_hero has_hero = (if has_hero then hero_tweens else [])"

text \<open>
  GSAP: a tween over \<open>n\<close> targets staggered by \<open>s\<close> lasts \<open>d + s * (n - 1)\<close>; a
  position \<open>'-=o'\<close> starts a tween \<open>o\<close> seconds before the end of the timeline so far.
  \<open>ncount\<close> gives the number of elements a target matches.
\<close>

definition tween_span :: "(gtarget \<Rightarrow> nat) \<Rightarrow> tween \<Rightarrow> real" where
  "tween_span ncount t = tw_duration t + tw_stagger t * (real (ncount (tw_targets t)) - 1)"

fun tl_place :: "(gtarget \<Rightarrow> nat) \<Rightarrow> real \<Rightarrow> (tween \<times> real) list \<Rightarrow> (real \<times> real) list" where
  "tl_place ncount e [] = []"
| "tl_place ncount e ((t, ov) # ts) =
     (let st = e - ov; en = st + tween_span ncount t
      in (st, en) # tl_place ncount (max e en) ts)"

subsection \<open>Scroll-triggered reveals\<close>

text \<open>The tween \<open>initScrollReveals\<close> creates for one element, by its \<open>data-animate\<close> value.\<close>

definition reveal_trigger :: "gtarget \<Rightarrow> jstr \<Rightarrow> scroll_trigger" where
  "reveal_trigger tg st = \<lparr>trig_el = tg, trig_start = st, trig_end = None,
     trig_actions = Some (js ''play none none reverse''), trig_scrub = False\<rparr>"

definition reveal_tween :: "jstr \<Rightarrow> nat \<Rightarrow> tween option" where
  "reveal_tween kind e =
     (if kind = js ''fade-up'' then Some \<lparr>tw_targets = El e, tw_vars = [(js ''opacity'', Num 1), (js ''y'', Num 0)], tw_duration = 0.8,
          tw_ease = js ''power3.out'', tw_stagger = 0, tw_trigger = Some (reveal_trigger (El e) (js ''top 85%''))\<rparr>
      else if kind = js ''fade-in'' then Some \<lparr>tw_targets = El e, tw_vars = [(js ''opacity'', Num 1)], tw_duration = 1,
          tw_ease = js ''power2.out'', tw_stagger = 0, tw_trigger = Some (reveal_trigger (El e) (js ''top 85%''))\<rparr>
      else if kind = js ''scale-up'' then Some \<lparr>tw_targets = El e, tw_vars = [(js ''opacity'', Num 1), (js ''scale'', Num 1)], tw_duration = 0.8,
          tw_ease = js ''power3.out'', tw_stagger = 0, tw_trigger = Some (reveal_trigger (El e) (js ''top 85%''))\<rparr>
      else if kind = js ''slide-left'' \<or> kind = js ''slide-right'' then Some \<lparr>tw_targets = El e,
          tw_vars = [(js ''opacity'', Num 1), (js ''x'', Num 0)], tw_duration = 0.8,
          tw_ease = js ''power3.out'', tw_stagger = 0, tw_trigger = Some (reveal_trigger (El e) (js ''top 85%''))\<rparr>
      else if kind = js ''reveal'' then Some \<lparr>tw_targets = El e, tw_vars = [(js ''clipPath'', Str (js ''inset(0 0 0 0)''))], tw_duration = 1.2,
          tw_ease = js ''power4.inOut'', tw_stagger = 0, tw_trigger = Some (reveal_trigger (El e) (js ''top 80%''))\<rparr>
      else if kind = js ''stagger'' then Some \<lparr>tw_targets = ChildrenOf e, tw_vars = [(js ''opacity'', Num 1), (js ''y'', Num 0)],
          tw_duration = 0.6, tw_ease = js ''power3.out'', tw_stagger = 0.1,
          tw_trigger = Some (reveal_trigger (El e) (js ''top 80%''))\<rparr>
      else None)"

text \<open>
  \<open>initScrollReveals\<close>: one pass per \<open>data-animate\<close> value, in the order of the code,
  over the page's elements (an element is its index and its \<open>data-animate\<close> attribute).
\<close>

definition reveal_kinds :: "jstr list" where
  "reveal_kinds = map js [''fade-up'', ''fade-in'', ''scale-up'', ''slide-left'', ''slide-right'', ''reveal'', ''stagger'']"

definition init_scroll_reveals :: "(nat \<times> jstr option) list \<Rightarrow> tween list" where
  "init_scroll_reveals els =
     concat (map (\<lambda>k. List.map_filter (\<lambda>(e, a). if a = Some k then reveal_tween k e else None) els) reveal_kinds)"

subsection \<open>Parallax\<close>

text \<open>\<open>initParallax\<close> for one element: \<open>parseFloat(el.dataset.parallax) || 0.5\<close>.\<close>

definition parallax_tween :: "real option \<Rightarrow> nat \<Rightarrow> tween" where
  "parallax_tween sp e =
     (let speed = float_or 0.5 sp
      in \<lparr>tw_targets = El e, tw_vars = [(js ''yPercent'', Num (-30 * speed))], tw_duration = 0.5,
          tw_ease = js ''none'', tw_stagger = 0,
          tw_trigger = Some \<lparr>trig_el = ParentOrSelf e, trig_start = js ''top bottom'', trig_end = Some (js ''bottom top''),
                             trig_actions = None, trig_scrub = True\<rparr>\<rparr>)"

definition init_parallax :: "(nat \<times> real option) list \<Rightarrow> tween list" where
  "init_parallax els = map (\<lambda>(e, sp). parallax_tween sp e) els"

subsection \<open>Scroll progress bar\<close>

text \<open>
  \<open>updateProgress\<close>: \<open>pageYOffset || scrollTop\<close> is the scroll position, the scrollable
  height is the document height less the window height, and the bar is scaled by their
  ratio, or by 0 when nothing can scroll.
\<close>

record viewport =
  page_y :: real
  doc_top :: real
  doc_height :: real
  inner_height :: real

definition scroll_percent :: "viewport \<Rightarrow> real" where
  "scroll_percent v =
     (let top = (if page_y v = 0 then doc_top v else page_y v);
          h = doc_height v - inner_height v
      in if 0 < h then top / h else 0)"

text \<open>A viewport the browser can report: both scroll positions within the scrollable height.\<close>

definition viewport_ok :: "viewport \<Rightarrow> bool" where
  "viewport_ok v \<longleftrightarrow> 0 \<le> page_y v \<and> page_y v \<le> doc_height v - inner_height v
     \<and> 0 \<le> doc_top v \<and> doc_top v \<le> doc_height v - inner_height v"

text \<open>
  \<open>initScrollProgress\<close>: nothing without a \<open>.scroll-progress\<close> element; otherwise one
  \<open>scaleX\<close> for the initial call and one for every \<open>scroll\<close> event.
\<close>

definition init_scroll_progress :: "bool \<Rightarrow> viewport \<Rightarrow> viewport list \<Rightarrow> real list" where
  "init_scroll_progress present v0 vs = (if present then map scroll_percent (v0 # vs) else [])"

subsection \<open>Navigation scrolled state\<close>

text \<open>\<open>initNavScroll\<close>'s \<open>onUpdate\<close>: direction \<open>1\<close> is downwards, the position in pixels.\<close>

definition nav_scroll_update :: "int \<Rightarrow> real \<Rightarrow> bool \<Rightarrow> bool" where
  "nav_scroll_update dir pos scrolled =
     (if dir = 1 \<and> 80 < pos then True else if pos < 80 then False else scrolled)"

definition nav_scroll_run :: "(int \<times> real) list \<Rightarrow> bool \<Rightarrow> bool" where
  "nav_scroll_run us b = fold (\<lambda>(d, p). nav_scroll_update d p) us b"

definition init_nav_scroll :: "bool \<Rightarrow> (int \<times> real) list \<Rightarrow> bool \<Rightarrow> bool" where
  "init_nav_scroll present us b = (if present then nav_scroll_run us b else b)"

subsection \<open>Counters\<close>

text \<open>
  \<open>Math.round(obj.value) + suffix\<close>: \<open>Math.round\<close> rounds halves up; a target that
  \<open>parseInt\<close> cannot read is \<open>NaN\<close>, and so is every value tweened towards it.
\<close>

definition js_round :: "real \<Rightarrow> int" where
  "js_round x = \<lfloor>x + 1 / 2\<rfloor>"

definition counter_text :: "int option \<Rightarrow> real \<Rightarrow> jstr \<Rightarrow> jstr" where
  "counter_text target v suffix =
     (case target of None \<Rightarrow> js ''NaN'' @ suffix | Some _ \<Rightarrow> int_to_js (js_round v) @ suffix)"

definition counter_suffix :: "jstr option \<Rightarrow> jstr" where
  "counter_suffix a = (case a of None \<Rightarrow> [] | Some s \<Rightarrow> s)"

text \<open>
  The tween of \<open>initCounters\<close> for one element: \<open>obj.value\<close> from 0 to the target over
  two seconds; \<open>init_counter\<close> is the text its \<open>onUpdate\<close> writes when the eased
  progress is \<open>p\<close>.
\<close>

definition counter_tween :: "nat \<Rightarrow> jstr option \<Rightarrow> tween" where
  "counter_tween e ca =
     \<lparr>tw_targets = CounterObj e,
      tw_vars = [(js ''value'', case parse_int ca of None \<Rightarrow> NaNv | Some n \<Rightarrow> Num (of_int n))],
      tw_duration = 2, tw_ease = js ''power2.out'', tw_stagger = 0,
      tw_trigger = Some \<lparr>trig_el = El e, trig_start = js ''top 80%'', trig_end = None, trig_actions = None,
                         trig_scrub = False\<rparr>\<rparr>"

definition init_counter :: "jstr option \<Rightarrow> jstr option \<Rightarrow> real \<Rightarrow> jstr" where
  "init_counter ca sa p =
     (let target = parse_int ca
      in counter_text target (case target of None \<Rightarrow> 0 | Some n \<Rightarrow> p * of_int n) (counter_suffix sa))"

subsection \<open>initScrollAnimations\<close>

record scroll_page =
  has_hero :: bool
  animated :: "(nat \<times> jstr option) list"
  parallax_els :: "(nat \<times> real option) list"
  has_progress :: bool
  has_nav :: bool
  counter_els :: "(nat \<times> jstr option) list"

record scroll_setup =
  hero_tl :: "(tween \<times> real) list"
  tweens :: "tween list"
  progress_listening :: bool
  nav_trigger :: bool

text \<open>The six initialisers in the order of the code; the tweens in the order they are created.\<close>

definition init_scroll_animations :: "scroll_page \<Rightarrow> scroll_setup" where
  "init_scroll_animations pg =
     \<lparr>hero_tl = init_hero (has_hero pg),
      tweens = init_scroll_reveals (animated pg) @ init_parallax (parallax_els pg)
               @ map (\<lambda>(e, ca). counter_tween e ca) (counter_els pg),
      progress_listening = has_progress pg, nav_trigger = has_nav pg\<rparr>"

subsection \<open>Properties\<close>

lemma concat_map_single:
  "distinct ks \<Longrightarrow> concat (map (\<lambda>k. if k0 = k then f k else []) ks) = (if k0 \<in> set ks then f k0 else [])"
  by (induction ks) auto

lemma map_filter_Cons_list:
  "List.map_filter f (x # xs) = (case f x of None \<Rightarrow> [] | Some y \<Rightarrow> [y]) @ List.map_filter f xs"
  by (simp add: map_filter_simps split: option.split)

lemma mset_concat_map_append:
  "mset (concat (map (\<lambda>k. A k @ B k) ks)) = mset (concat (map A ks)) + mset (concat (map B ks))"
  by (induction ks) (simp_all add: ac_simps)

text \<open>One filtering pass per key, over distinct keys, selects each element once, by its key.\<close>

lemma mset_passes_by_key:
  assumes "distinct ks" and "\<And>k x. g k x \<noteq> None \<Longrightarrow> k \<in> set ks"
  shows "mset (concat (map (\<lambda>k. List.map_filter (\<lambda>x. if key x = Some k then g k x else None) xs) ks))
       = mset (List.map_filter (\<lambda>x. Option.bind (key x) (\<lambda>k. g k x)) xs)"
proof (induction xs)
  case Nil
  then show ?case by (simp add: map_filter_simps)
next
  case (Cons x xs)
  have one: "concat (map (\<lambda>k. case if key x = Some k then g k x else None of None \<Rightarrow> [] | Some y \<Rightarrow> [y]) ks)
      = (case Option.bind (key x) (\<lambda>k. g k x) of None \<Rightarrow> [] | Some y \<Rightarrow> [y])"
  proof (cases "key x")
    case None
    then show ?thesis by simp
  next
    case (Some k0)
    have "concat (map (\<lambda>k. case if key x = Some k then g k x else None of None \<Rightarrow> [] | Some y \<Rightarrow> [y]) ks)
        = concat (map (\<lambda>k. if k0 = k then (case g k x of None \<Rightarrow> [] | Some y \<Rightarrow> [y]) else []) ks)"
      using Some by (intro arg_cong [where f = concat] map_cong) auto
    also have "\<dots> = (if k0 \<in> set ks then (case g k0 x of None \<Rightarrow> [] | Some y \<Rightarrow> [y]) else [])"
      by (rule concat_map_single [OF assms(1)])
    also have "\<dots> = (case g k0 x of None \<Rightarrow> [] | Some y \<Rightarrow> [y])"
      using assms(2) [of k0 x] by (auto split: option.split)
    finally show ?thesis using Some by simp
  qed
  show ?case
    unfolding map_filter_Cons_list mset_concat_map_append using Cons one by simp
qed

lemma reveal_tween_kind: "reveal_tween k e \<noteq> None \<Longrightarrow> k \<in> set reveal_kinds"
  by (auto simp: reveal_tween_def reveal_kinds_def split: if_splits)

lemma distinct_reveal_kinds: "distinct reveal_kinds"
  by (simp add: reveal_kinds_def js_def)

lemma scroll_percent_flat: "doc_height v \<le> inner_height v \<Longrightarrow> scroll_percent v = 0"
  by (simp add: scroll_percent_def Let_def)

lemma scroll_percent_ok: "viewport_ok v \<Longrightarrow> 0 \<le> scroll_percent v \<and> scroll_percent v \<le> 1"
  by (auto simp: viewport_ok_def scroll_percent_def Let_def divide_le_eq_1)

lemma nav_scroll_snoc:
  "nav_scroll_run (us @ [(d, p)]) b = nav_scroll_update d p (nav_scroll_run us b)"
  by (simp add: nav_scroll_run_def)

text \<open>Between 80 pixels and upwards scrolling the class is left as it is.\<close>

lemma nav_scroll_hysteresis: "80 \<le> p \<Longrightarrow> d \<noteq> 1 \<Longrightarrow> nav_scroll_update d p b = b"
  by (simp add: nav_scroll_update_def)

lemma js_round_int [simp]: "js_round (of_int n) = n"
  by (simp add: js_round_def floor_eq_iff)

text \<open>
  \<open>parseFloat(el.dataset.parallax) || 0.5\<close> reads an explicit \<open>data-parallax="0"\<close>
  as the default speed: the element moves as if it had no value.
\<close>

lemma parallax_zero_default:
  "tw_vars (parallax_tween (Some 0) e) = tw_vars (parallax_tween None e)
   \<and> tw_vars (parallax_tween None e) = [(js ''yPercent'', Num (-15))]"
  by (simp add: parallax_tween_def float_or_def)





text \<open>
  C38. The navigation's \<open>is-scrolled\<close> class after a sequence of scroll updates: it is
  set only if the last position is at least 80 pixels, cleared whenever the last position
  is below 80, and set after a downward update beyond 80.
\<close>

theorem nav_scroll_state:
  assumes "us \<noteq> []"
  shows "(nav_scroll_run us b \<longrightarrow> 80 \<le> snd (last us))
    \<and> (snd (last us) < 80 \<longrightarrow> \<not> nav_scroll_run us b)
    \<and> (fst (last us) = 1 \<and> 80 < snd (last us) \<longrightarrow> nav_scroll_run us b)"
proof -
  obtain vs d p where us: "us = vs @ [(d, p)]" using assms by (metis prod.exhaust rev_exhaust)
  show ?thesis by (auto simp: us nav_scroll_snoc nav_scroll_update_def)
qed

theorem nav_scroll_state_witness:
  "nav_scroll_run [(1, 100), (-1, 90)] False \<and> \<not> nav_scroll_run [(1, 100), (-1, 90), (-1, 40)] True"
  using nav_scroll_state [of "[(1, 100), (-1, 90)]" False] nav_scroll_state [of "[(1, 100), (-1, 90), (-1, 40)]" True]
  by (simp add: nav_scroll_run_def nav_scroll_update_def)



end
