(* ===== verification/KineticFx.thy ===== *)
theory KineticFx
  imports ScrollFx
begin

text \<open>
  The GSAP effects of the kinetic-typography module (\<open>src/unnamed/part_001\<close>):
  \<open>charCascade\<close> (lines 151--169), \<open>elasticWave\<close> (lines 174--195) and the three effect
  passes of \<open>initKineticText\<close> (lines 247--261). An effect splits its element into
  character spans and hands GSAP a \<open>from\<close> tween over the element's \<open>.char\<close> spans;
  the tween is the description of \<open>ScrollFx\<close>. The options object spread over the
  defaults is a record of optional overrides.
\<close>

datatype gsap_call = GsapTo tween | GsapFrom tween

record fx_opts =
  o_duration :: "real option"
  o_stagger :: "real option"
  o_ease :: "jstr option"
  o_from :: "(jstr \<times> gval) list option"

definition no_opts :: fx_opts where
  "no_opts = \<lparr>o_duration = None, o_stagger = None, o_ease = None, o_from = None\<rparr>"

text \<open>\<open>{ ...defaults, ...options }\<close>: a key of the options replaces the default.\<close>

definition opt_or :: "'a \<Rightarrow> 'a option \<Rightarrow> 'a" where
  "opt_or d v = (case v of None \<Rightarrow> d | Some x \<Rightarrow> x)"

definition charCascade :: "fx_opts \<Rightarrow> nat \<Rightarrow> element \<Rightarrow> element \<times> gsap_call" where
  "charCascade opts i e =
     (let fr = opt_or [(js ''y'', Num 50), (js ''opacity'', Num 0), (js ''rotateX'', Num (-90))] (o_from opts)
      in (splitText (js ''chars'') e,
          GsapFrom \<lparr>tw_targets = Within i (js ''.char''), tw_vars = fr, tw_duration = opt_or 0.8 (o_duration opts),
                    tw_ease = opt_or (js ''back.out(1.7)'') (o_ease opts), tw_stagger = opt_or 0.03 (o_stagger opts),
                    tw_trigger = None\<rparr>))"

text \<open>\<open>elasticWave\<close>: a \<open>from\<close> option is spread into the settings but not used;
  \<open>stagger: { each, from: 'start' }\<close> is GSAP's plain stagger \<open>each\<close>.\<close>

definition elasticWave :: "fx_opts \<Rightarrow> nat \<Rightarrow> element \<Rightarrow> element \<times> gsap_call" where
  "elasticWave opts i e =
     (splitText (js ''chars'') e,
      GsapFrom \<lparr>tw_targets = Within i (js ''.char''), tw_vars = [(js ''y'', Num (-100)), (js ''opacity'', Num 0)],
                tw_duration = opt_or 1.2 (o_duration opts), tw_ease = opt_or (js ''elastic.out(1, 0.3)'') (o_ease opts),
                tw_stagger = opt_or 0.05 (o_stagger opts), tw_trigger = None\<rparr>)"

text \<open>The effect \<open>initKineticText\<close> gives an element with a \<open>data-kinetic\<close> value.\<close>

definition kinetic_effect :: "jstr \<Rightarrow> nat \<Rightarrow> element \<Rightarrow> element \<times> gsap_call option" where
  "kinetic_effect k i e =
     (if k = js ''cascade'' then map_prod id Some (charCascade no_opts i e)
      else if k = js ''elastic'' then map_prod id Some (elasticWave no_opts i e)
      else if k = js ''glitch'' then (glitchText e, None)
      else (e, None))"

definition kinetic_kinds :: "jstr list" where
  "kinetic_kinds = map js [''cascade'', ''elastic'', ''glitch'']"

text \<open>One \<open>querySelectorAll('[data-kinetic="k"]').forEach\<close> pass over the page's elements
  (index, \<open>data-kinetic\<close>, element), collecting the GSAP calls in order.\<close>

definition kinetic_pass :: "jstr \<Rightarrow> (nat \<times> jstr option \<times> element) list \<times> gsap_call list
    \<Rightarrow> (nat \<times> jstr option \<times> element) list \<times> gsap_call list" where
  "kinetic_pass k st =
     (map (\<lambda>(i, a, e). if a = Some k then (i, a, fst (kinetic_effect k i e)) else (i, a, e)) (fst st),
      snd st @ List.map_filter (\<lambda>(i, a, e). if a = Some k then snd (kinetic_effect k i e) else None) (fst st))"

definition init_kinetic_fx :: "(nat \<times> jstr option \<times> element) list
    \<Rightarrow> (nat \<times> jstr option \<times> element) list \<times> gsap_call list" where
  "init_kinetic_fx els = fold kinetic_pass kinetic_kinds (els, [])"

text \<open>\<open>element.querySelectorAll('.char')\<close>: the character spans among the element's nodes.\<close>

definition is_char_node :: "node \<Rightarrow> bool" where
  "is_char_node n = (case n of Span c _ _ \<Rightarrow> c = js ''char'' | TextNode _ \<Rightarrow> False)"

definition char_count :: "element \<Rightarrow> nat" where
  "char_count e = length (filter is_char_node (children e))"

definition call_tween :: "gsap_call \<Rightarrow> tween" where
  "call_tween c = (case c of GsapTo t \<Rightarrow> t | GsapFrom t \<Rightarrow> t)"

subsection \<open>Properties\<close>

lemma is_char_node_span [simp]: "is_char_node (char_span i c)"
  by (simp add: is_char_node_def char_span_def)

lemma filter_char_spans:
  "length xs = length ys \<Longrightarrow> filter is_char_node (map2 char_span xs ys) = map2 char_span xs ys"
  by (induction xs ys rule: list_induct2) simp_all

lemma char_count_splitText: "char_count (splitText (js ''chars'') e) = length (js_trim (el_text (children e)))"
  unfolding char_count_def splitText_chars by (simp add: filter_char_spans)

text \<open>The cascade over a text of \<open>n\<close> characters lasts \<open>0.8 + 0.03 (n - 1)\<close> seconds.\<close>

lemma cascade_span:
  assumes "ncount (Within i (js ''.char'')) = char_count (fst (charCascade no_opts i e))"
  shows "tween_span ncount (call_tween (snd (charCascade no_opts i e)))
       = 4 / 5 + 3 / 100 * (real (length (js_trim (el_text (children e)))) - 1)"
  using assms unfolding charCascade_def Let_def fst_conv char_count_splitText
  by (simp add: no_opts_def opt_or_def call_tween_def tween_span_def)

lemma kinetic_pass_eq:
  "kinetic_pass k (els, cs) =
     (map (\<lambda>(i, a, e). if a = Some k then (i, a, fst (kinetic_effect k i e)) else (i, a, e)) els,
      cs @ List.map_filter (\<lambda>(i, a, e). if a = Some k then snd (kinetic_effect k i e) else None) els)"
  by (simp add: kinetic_pass_def)

lemma map_filter_other_pass:
  "k \<noteq> k' \<Longrightarrow> List.map_filter (\<lambda>(i, a, e). if a = Some k' then g i e else None)
      (map (\<lambda>(i, a, e). if a = Some k then (i, a, f i e) else (i, a, e)) els)
    = List.map_filter (\<lambda>(i, a, e). if a = Some k' then g i e else None) els"
  by (induction els) (auto simp: map_filter_simps split: prod.splits option.splits)

lemma kinetic_effect_other: "k \<notin> set kinetic_kinds \<Longrightarrow> kinetic_effect k i e = (e, None)"
  by (simp add: kinetic_effect_def kinetic_kinds_def)

text \<open>
  The three passes of \<open>initKineticText\<close> give every element the effect of its own
  \<open>data-kinetic\<close> value, and the GSAP calls come pass by pass in document order.
\<close>

lemma kinetic_el_once:
  "(\<lambda>(i, a, e). if a = Some (js ''glitch'') then (i, a, fst (kinetic_effect (js ''glitch'') i e)) else (i, a, e))
     ((\<lambda>(i, a, e). if a = Some (js ''elastic'') then (i, a, fst (kinetic_effect (js ''elastic'') i e)) else (i, a, e))
       ((\<lambda>(i, a, e). if a = Some (js ''cascade'') then (i, a, fst (kinetic_effect (js ''cascade'') i e)) else (i, a, e)) x))
   = (\<lambda>(i, a, e). case a of None \<Rightarrow> (i, a, e) | Some k \<Rightarrow> (i, a, fst (kinetic_effect k i e))) x"
proof -
  obtain i a e where x: "x = (i, a, e)" by (cases x) auto
  have d: "js ''cascade'' \<noteq> js ''elastic''" "js ''cascade'' \<noteq> js ''glitch''" "js ''elastic'' \<noteq> js ''glitch''"
    by (simp_all add: js_def)
  show ?thesis
  proof (cases a)
    case (Some k)
    then show ?thesis using x d kinetic_effect_other [of k i e] by (auto simp: kinetic_kinds_def)
  qed (simp add: x)
qed

text \<open>
  The three passes of \<open>initKineticText\<close> give every element the effect of its own
  \<open>data-kinetic\<close> value, and the GSAP calls come pass by pass in document order.
\<close>

lemma init_kinetic_fx_eq:
  "init_kinetic_fx els =
     (map (\<lambda>(i, a, e). case a of None \<Rightarrow> (i, a, e) | Some k \<Rightarrow> (i, a, fst (kinetic_effect k i e))) els,
      concat (map (\<lambda>k. List.map_filter (\<lambda>(i, a, e). if a = Some k then snd (kinetic_effect k i e) else None) els)
        kinetic_kinds))"
proof -
  let ?u = "\<lambda>k. \<lambda>(i, a, e). if a = Some k then (i, a, fst (kinetic_effect k i e)) else (i, a, e)"
  let ?m = "\<lambda>k xs. List.map_filter (\<lambda>(i, a, e). if a = Some k then snd (kinetic_effect k i e) else None) xs"
  let ?C = "js ''cascade''" and ?E = "js ''elastic''" and ?G = "js ''glitch''"
  have f: "init_kinetic_fx els = (map (?u ?G) (map (?u ?E) (map (?u ?C) els)),
      ?m ?C els @ ?m ?E (map (?u ?C) els) @ ?m ?G (map (?u ?E) (map (?u ?C) els)))"
    unfolding init_kinetic_fx_def kinetic_kinds_def
    by (simp only: list.map fold_simps kinetic_pass_eq append_Nil append_assoc)
  have e1: "?m ?E (map (?u ?C) els) = ?m ?E els" and g1: "?m ?G (map (?u ?C) els) = ?m ?G els"
    by (rule map_filter_other_pass, simp add: js_def)+
  have g2: "?m ?G (map (?u ?E) (map (?u ?C) els)) = ?m ?G (map (?u ?C) els)"
    by (rule map_filter_other_pass) (simp add: js_def)
  have u: "map (?u ?G) (map (?u ?E) (map (?u ?C) els))
      = map (\<lambda>(i, a, e). case a of None \<Rightarrow> (i, a, e) | Some k \<Rightarrow> (i, a, fst (kinetic_effect k i e))) els"
    unfolding map_map comp_def kinetic_el_once ..
  have c: "concat (map (\<lambda>k. ?m k els) kinetic_kinds) = ?m ?C els @ ?m ?E els @ ?m ?G els"
    by (simp only: kinetic_kinds_def list.map concat.simps append_Nil2)
  show ?thesis unfolding c by (simp only: f e1 g1 g2 u)
qed

end
