(* ===== verification/Audio.thy ===== *)
theory Audio
  imports Prelude Complex_Main
begin

text \<open>
  The optional sound feedback of the design document (\<open>src/unnamed/part_000\<close>,
  section 8.1, lines 1977--2050): class \<open>AudioFeedback\<close> and the module code that
  creates it and binds it to every button and link. The audio context is a flag; the
  oscillators a call of \<open>play\<close> schedules are scheduled with their start and stop times and
  the gain envelope (\<open>setValueAtTime\<close> then \<open>exponentialRampToValueAtTime\<close>) set on
  them. \<open>localStorage\<close>'s \<open>soundEnabled\<close> entry is part of the state, as the page's
  storage that outlives a reload.
\<close>

datatype freq = Tone real | Chord "real list"

record sound =
  s_freq :: freq
  s_duration :: real
  s_volume :: real

text \<open>\<open>this.sounds\<close>: the four named sounds (inherited object keys are not modelled).\<close>

definition sounds :: "jstr \<Rightarrow> sound option" where
  "sounds ty =
     (if ty = js ''hover'' then Some \<lparr>s_freq = Tone 800, s_duration = 0.05, s_volume = 0.1\<rparr>
      else if ty = js ''click'' then Some \<lparr>s_freq = Tone 600, s_duration = 0.1, s_volume = 0.15\<rparr>
      else if ty = js ''success'' then Some \<lparr>s_freq = Chord [523, 659, 784], s_duration = 0.15, s_volume = 0.12\<rparr>
      else if ty = js ''transition'' then Some \<lparr>s_freq = Tone 400, s_duration = 0.2, s_volume = 0.08\<rparr>
      else None)"

record osc_note =
  n_freq :: real
  n_start :: real
  n_stop :: real
  n_env_start :: real
  n_volume :: real
  n_env_end :: real

record audio =
  enabled :: bool
  has_ctx :: bool
  click_once :: bool
  stored :: "jstr option"
  scheduled :: "osc_note list"
  idle_nodes :: nat

text \<open>The constructor: sound is on unless the stored value is the string \<open>'false'\<close>.\<close>

definition new_audio :: "jstr option \<Rightarrow> audio" where
  "new_audio st = \<lparr>enabled = (st \<noteq> Some (js ''false'')), has_ctx = False, click_once = False, stored = st,
     scheduled = [], idle_nodes = 0\<rparr>"

text \<open>\<open>init()\<close> registers a document \<open>click\<close> listener with \<open>{ once: true }\<close>.\<close>

definition audio_init :: "audio \<Rightarrow> audio" where
  "audio_init a = a\<lparr>click_once := True\<rparr>"

definition doc_click :: "audio \<Rightarrow> audio" where
  "doc_click a = (if click_once a then a\<lparr>click_once := False, has_ctx := True\<rparr> else a)"

definition freqs :: "freq \<Rightarrow> real list" where
  "freqs f = (case f of Tone x \<Rightarrow> [x] | Chord xs \<Rightarrow> xs)"

text \<open>
  \<open>play(type)\<close> at the context's \<open>currentTime t\<close>: the first oscillator and gain are
  created and connected but never started (\<open>idle_nodes\<close>); then one note per frequency,
  the \<open>i\<close>-th starting \<open>0.05 i\<close> seconds late, each with its gain ramped from \<open>t\<close>.
\<close>

definition play :: "jstr \<Rightarrow> real \<Rightarrow> audio \<Rightarrow> audio" where
  "play ty t a =
     (if \<not> enabled a \<or> \<not> has_ctx a then a
      else case sounds ty of
        None \<Rightarrow> a
      | Some s \<Rightarrow> a\<lparr>idle_nodes := Suc (idle_nodes a),
          scheduled := scheduled a @ map (\<lambda>(i, f). \<lparr>n_freq = f, n_start = t + real i * 0.05,
                                             n_stop = t + s_duration s + real i * 0.05, n_env_start = t,
                                             n_volume = s_volume s, n_env_end = t + s_duration s\<rparr>)
                                 (enumerate 0 (freqs (s_freq s)))\<rparr>)"

text \<open>\<open>toggle()\<close>: \<open>setItem\<close> stores the boolean converted to a string.\<close>

definition audio_toggle :: "audio \<Rightarrow> bool \<times> audio" where
  "audio_toggle a =
     (let b = \<not> enabled a in (b, a\<lparr>enabled := b, stored := Some (if b then js ''true'' else js ''false'')\<rparr>))"

text \<open>
  Events of the page: pointer entering a button or link, a click on one (its own listener
  runs before the click bubbles to the document), a click elsewhere, and a call of
  \<open>toggle()\<close>; each with the context's current time where a sound may play.
\<close>

datatype audio_event = HoverCtl real | ClickCtl real | ClickElse | ToggleSound

fun audio_step :: "audio_event \<Rightarrow> audio \<Rightarrow> audio" where
  "audio_step (HoverCtl t) a = play (js ''hover'') t a"
| "audio_step (ClickCtl t) a = doc_click (play (js ''click'') t a)"
| "audio_step ClickElse a = doc_click a"
| "audio_step ToggleSound a = snd (audio_toggle a)"

text \<open>A page load with the stored value \<open>st\<close>, followed by the events.\<close>

definition audio_page :: "jstr option \<Rightarrow> audio_event list \<Rightarrow> audio" where
  "audio_page st evs = fold audio_step evs (audio_init (new_audio st))"

text \<open>The flag agrees with the stored value.\<close>

definition audio_stored_ok :: "audio \<Rightarrow> bool" where
  "audio_stored_ok a \<longleftrightarrow> enabled a = (stored a \<noteq> Some (js ''false''))"

subsection \<open>Properties\<close>

lemma audio_step_stored_ok: "audio_stored_ok a \<Longrightarrow> audio_stored_ok (audio_step ev a)"
  by (cases ev) (auto simp: audio_stored_ok_def play_def doc_click_def audio_toggle_def Let_def js_def split: option.split)

lemma audio_page_stored_ok: "audio_stored_ok (audio_page st evs)"
proof -
  have "audio_stored_ok a \<Longrightarrow> audio_stored_ok (fold audio_step evs a)" for a
    by (induction evs arbitrary: a) (simp_all add: audio_step_stored_ok)
  moreover have "audio_stored_ok (audio_init (new_audio st))"
    by (simp add: audio_stored_ok_def audio_init_def new_audio_def)
  ultimately show ?thesis by (simp add: audio_page_def)
qed

text \<open>
  C40. The sound setting survives a reload: whatever the stored value and whatever
  hovers, clicks and toggles follow, a page constructed from the value left in
  \<open>localStorage\<close> starts with sound on exactly when it was on before.
\<close>

theorem audio_setting_persists:
  "enabled (new_audio (stored (audio_page st evs))) = enabled (audio_page st evs)"
  using audio_page_stored_ok [of st evs] by (simp add: new_audio_def audio_stored_ok_def)

text \<open>
  The first click on a button or link is silent, as is every hover before it: the
  element's listener plays before the click reaches the document listener that creates
  the audio context.
\<close>

lemma first_click_silent:
  "scheduled (audio_page st (map HoverCtl ts @ [ClickCtl t])) = []"
proof -
  have "scheduled (fold audio_step (map HoverCtl ts) a) = scheduled a \<and> click_once (fold audio_step (map HoverCtl ts) a) = click_once a
        \<and> has_ctx (fold audio_step (map HoverCtl ts) a) = has_ctx a" if "\<not> has_ctx a" for a
    using that by (induction ts arbitrary: a) (simp_all add: play_def)
  then show ?thesis
    by (simp add: audio_page_def audio_init_def new_audio_def play_def doc_click_def)
qed

lemma second_click_plays:
  "st \<noteq> Some (js ''false'') \<Longrightarrow> scheduled (audio_page st [ClickCtl t, ClickCtl t'])
     = [\<lparr>n_freq = 600, n_start = t', n_stop = t' + 1 / 10, n_env_start = t', n_volume = 3 / 20, n_env_end = t' + 1 / 10\<rparr>]"
  by (simp add: audio_page_def audio_init_def new_audio_def play_def doc_click_def sounds_def freqs_def js_def)

text \<open>
  The \<open>success\<close> chord: the three notes start 0, 0.05 and 0.1 seconds late, but every
  gain ramp starts at \<open>currentTime\<close> and lasts 0.15 seconds, so the last note starts two
  thirds of the way down its decay.
\<close>

lemma success_envelope:
  "has_ctx a \<Longrightarrow> enabled a \<Longrightarrow>
     map (\<lambda>n. (n_start n - n_env_start n, n_env_end n - n_env_start n))
       (drop (length (scheduled a)) (scheduled (play (js ''success'') t a)))
     = [(0, 3 / 20), (1 / 20, 3 / 20), (1 / 10, 3 / 20)]"
  by (simp add: play_def sounds_def freqs_def js_def)

end
