(* ===== verification/Deferred.thy ===== *)
theory Deferred
  imports ScrollFx
begin

text \<open>
  Two performance measures of the design document (\<open>src/unnamed/part_000\<close>, section 9):
  the reduced-motion check (lines 2094--2101), which speeds GSAP's global timeline up a
  thousandfold, and the lazy initialisation of heavy effects (lines 2108--2129): an
  \<open>IntersectionObserver\<close> watches every \<open>[data-defer-init]\<close> element and, when one
  becomes visible, constructs its \<open>TiltElement\<close> or \<open>ParticleBackground\<close> and stops
  watching it. The observer delivers its entries in batches, one call of the callback
  per batch, and only for targets it still observes when the batch is formed.
\<close>

definition global_time_scale :: "bool \<Rightarrow> real" where
  "global_time_scale prefers_reduced = (if prefers_reduced then 1000 else 1)"

text \<open>A position on a GSAP timeline is reached after this many seconds.\<close>

definition wall_time :: "bool \<Rightarrow> real \<Rightarrow> real" where
  "wall_time prefers_reduced pos = pos / global_time_scale prefers_reduced"

subsection \<open>Lazy initialisation\<close>

text \<open>A \<open>dataset\<close> value is truthy unless missing or empty.\<close>

definition js_truthy :: "jstr option \<Rightarrow> bool" where
  "js_truthy v = (case v of None \<Rightarrow> False | Some s \<Rightarrow> s \<noteq> [])"

record deferred_el =
  d_defer :: bool
  d_tilt :: "jstr option"
  d_particles :: "jstr option"

datatype heavy = HTilt | HParticles

record lazy_obs =
  observing :: "nat list"
  created :: "(nat \<times> heavy) list"

definition lazy_start :: "deferred_el list \<Rightarrow> lazy_obs" where
  "lazy_start els = \<lparr>observing = filter (\<lambda>i. d_defer (els ! i)) [0..<length els], created = []\<rparr>"

text \<open>The observer callback on one entry (target, \<open>isIntersecting\<close>).\<close>

definition lazy_entry :: "deferred_el list \<Rightarrow> nat \<times> bool \<Rightarrow> lazy_obs \<Rightarrow> lazy_obs" where
  "lazy_entry els en l =
     (let (i, vis) = en; el = els ! i
      in if vis
         then l\<lparr>created := created l @ (if js_truthy (d_tilt el) then [(i, HTilt)] else [])
                                      @ (if js_truthy (d_particles el) then [(i, HParticles)] else []),
                observing := removeAll i (observing l)\<rparr>
         else l)"

definition lazy_callback :: "deferred_el list \<Rightarrow> (nat \<times> bool) list \<Rightarrow> lazy_obs \<Rightarrow> lazy_obs" where
  "lazy_callback els entries l = fold (lazy_entry els) entries l"

text \<open>The browser: a batch holds entries for the targets observed when it is formed.\<close>

definition lazy_batch :: "deferred_el list \<Rightarrow> (nat \<times> bool) list \<Rightarrow> lazy_obs \<Rightarrow> lazy_obs" where
  "lazy_batch els ds l = lazy_callback els (filter (\<lambda>(i, _). i \<in> set (observing l)) ds) l"

definition lazy_run :: "deferred_el list \<Rightarrow> (nat \<times> bool) list list \<Rightarrow> lazy_obs" where
  "lazy_run els bs = fold (lazy_batch els) bs (lazy_start els)"

text \<open>Invariant: an element with an instance is no longer observed; instances are distinct.\<close>

definition lazy_ok :: "lazy_obs \<Rightarrow> bool" where
  "lazy_ok l \<longleftrightarrow> distinct (created l) \<and> (\<forall>(i, _) \<in> set (created l). i \<notin> set (observing l))"

subsection \<open>Properties\<close>

lemma lazy_entry_created:
  "created (lazy_entry els (i, vis) l) = created l @
     (if vis then (if js_truthy (d_tilt (els ! i)) then [(i, HTilt)] else [])
                @ (if js_truthy (d_particles (els ! i)) then [(i, HParticles)] else []) else [])"
  and lazy_entry_observing:
  "observing (lazy_entry els (i, vis) l) = (if vis then removeAll i (observing l) else observing l)"
  by (simp_all add: lazy_entry_def Let_def)

lemma lazy_callback_ok:
  "distinct (map fst ds) \<Longrightarrow> \<forall>(i, _) \<in> set ds. i \<in> set (observing l) \<Longrightarrow> lazy_ok l
   \<Longrightarrow> lazy_ok (lazy_callback els ds l) \<and> set (observing (lazy_callback els ds l)) \<subseteq> set (observing l)"
proof (induction ds arbitrary: l)
  case Nil
  then show ?case by (simp add: lazy_callback_def)
next
  case (Cons d ds)
  obtain i vis where d: "d = (i, vis)" by (cases d)
  let ?l1 = "lazy_entry els (i, vis) l"
  have io: "i \<in> set (observing l)" using Cons.prems(2) d by simp
  have ok1: "lazy_ok ?l1" using Cons.prems(3) io
    by (auto simp: lazy_ok_def lazy_entry_created lazy_entry_observing)
  have sub1: "set (observing ?l1) \<subseteq> set (observing l)" by (auto simp: lazy_entry_observing)
  have rest: "\<forall>(j, _) \<in> set ds. j \<in> set (observing ?l1)"
  proof (intro ballI, clarify)
    fix j b assume jb: "(j, b) \<in> set ds"
    then have "j \<noteq> i" using Cons.prems(1) d by (metis distinct.simps(2) fst_conv image_eqI list.simps(9) set_map)
    moreover have "j \<in> set (observing l)" using Cons.prems(2) jb by auto
    ultimately show "j \<in> set (observing ?l1)" by (simp add: lazy_entry_observing)
  qed
  have "lazy_ok (lazy_callback els ds ?l1) \<and> set (observing (lazy_callback els ds ?l1)) \<subseteq> set (observing ?l1)"
    using Cons.IH [OF _ rest ok1] Cons.prems(1) by simp
  then show ?case using sub1 d by (auto simp: lazy_callback_def)
qed

text \<open>
  Each heavy effect is constructed at most once per element, and a constructed element is
  no longer observed, as long as no batch holds two entries for one target.
\<close>

lemma lazy_run_ok:
  "\<forall>b \<in> set bs. distinct (map fst b) \<Longrightarrow> lazy_ok (lazy_run els bs)"
proof -
  assume bs: "\<forall>b \<in> set bs. distinct (map fst b)"
  have "lazy_ok l \<Longrightarrow> lazy_ok (fold (lazy_batch els) bs l)" for l
    using bs
  proof (induction bs arbitrary: l)
    case (Cons b bs)
    let ?b = "filter (\<lambda>(i, _). i \<in> set (observing l)) b"
    have "distinct (map fst ?b)" using Cons.prems(2) by (simp add: distinct_map_filter)
    moreover have "\<forall>(i, _) \<in> set ?b. i \<in> set (observing l)" by auto
    ultimately have "lazy_ok (lazy_batch els b l)"
      using lazy_callback_ok Cons.prems(1) unfolding lazy_batch_def by blast
    then show ?case using Cons by simp
  qed simp
  moreover have "lazy_ok (lazy_start els)" by (simp add: lazy_ok_def lazy_start_def)
  ultimately show ?thesis by (simp add: lazy_run_def)
qed

text \<open>
  An element marked \<open><div data-tilt data-defer-init>\<close>, as \<open>initTilt\<close>'s selector
  \<open>[data-tilt]\<close> allows, has \<open>dataset.tilt = ''\<close>, which is falsy: it never gets
  its \<open>TiltElement\<close>.
\<close>

lemma empty_tilt_never_created:
  "d_tilt (els ! i) = Some [] \<Longrightarrow> (i, HTilt) \<notin> set (created (lazy_run els bs))"
proof -
  assume t: "d_tilt (els ! i) = Some []"
  have step: "(i, HTilt) \<notin> set (created l) \<Longrightarrow> (i, HTilt) \<notin> set (created (lazy_entry els d l))" for d l
    by (cases d) (auto simp: lazy_entry_created js_truthy_def t)
  have "(i, HTilt) \<notin> set (created l) \<Longrightarrow> (i, HTilt) \<notin> set (created (fold (lazy_batch els) bs l))" for l
  proof (induction bs arbitrary: l)
    case (Cons b bs)
    have "(i, HTilt) \<notin> set (created (fold (lazy_entry els) ds l))" for ds
      using Cons.prems
      by (induction ds arbitrary: l) (simp_all add: step)
    then show ?case using Cons.IH by (simp add: lazy_batch_def lazy_callback_def)
  qed simp
  then show ?thesis by (simp add: lazy_run_def lazy_start_def)
qed

end
