(* ===== verification/Build.thy ===== *)
theory Build
  imports Prelude
begin

text \<open>
  The build configuration \<open>src/vite.config.js\<close>: the object passed to \<open>defineConfig\<close>,
  with the six HTML entry points of the multi-page build. \<open>path.resolve(__dirname, p)\<close>
  for the relative paths used here appends \<open>p\<close> to the directory.
\<close>

record vite_config =
  vc_root :: jstr
  out_dir :: jstr
  inputs :: "(jstr \<times> jstr) list"
  port :: nat
  open_browser :: bool

definition resolve_path :: "jstr \<Rightarrow> jstr \<Rightarrow> jstr" where
  "resolve_path dir p = dir @ js ''/'' @ p"

definition lumina_vite_config :: "jstr \<Rightarrow> vite_config" where
  "lumina_vite_config dir =
     \<lparr>vc_root = js ''.'', out_dir = js ''dist'',
      inputs = [(js ''main'', resolve_path dir (js ''index.html'')),
                (js ''meridian'', resolve_path dir (js ''meridian/index.html'')),
                (js ''artisan'', resolve_path dir (js ''artisan/index.html'')),
                (js ''aurora'', resolve_path dir (js ''aurora/index.html'')),
                (js ''noir'', resolve_path dir (js ''noir/index.html'')),
                (js ''savor'', resolve_path dir (js ''savor/index.html''))],
      port = 5175, open_browser = True\<rparr>"

subsection \<open>Properties\<close>

text \<open>
  The object literal of \<open>rollupOptions.input\<close> keeps all six pages: the entry names are
  distinct (a repeated key would silently drop an entry) and so are the HTML files.
\<close>

lemma vite_entries_distinct:
  "length (inputs (lumina_vite_config dir)) = 6
   \<and> distinct (map fst (inputs (lumina_vite_config dir)))
   \<and> distinct (map snd (inputs (lumina_vite_config dir)))"
  by (simp add: lumina_vite_config_def resolve_path_def js_def)

end
