(* ===== verification/DesignCursor.thy ===== *)
theory DesignCursor
  imports Cursor
begin

text \<open>
  The cursor draft of the design document (\<open>src/unnamed/part_000\<close>, section 1.2,
  lines 67--151): class \<open>LuminaCursor\<close>, instantiated when the module loads. Unlike the
  shipped \<open>Cursor\<close> it looks its three nodes up in the page instead of creating them,
  has no touch check, no visibility, opacity or click handling and no \<open>hidden\<close> category,
  and writes positions as \<open>translate\<close> transforms. A node is its \<open>data-state\<close> (unset
  until first written) and the translation last written.
\<close>

record dnode =
  dn_state :: "jstr option"
  dn_xy :: "point option"

record dcursor =
  dc_dot :: "dnode option"
  dc_ring :: "dnode option"
  dc_text :: "jstr option"
  dc_pos :: point
  dc_mouse :: point
  dc_anim :: bool

definition dnode0 :: dnode where
  "dnode0 = \<lparr>dn_state = None, dn_xy = None\<rparr>"

text \<open>\<open>animate()\<close>: the frame that runs it is consumed; a new one is requested last.\<close>

definition d_animate :: "dcursor \<Rightarrow> dcursor completion" where
  "d_animate c =
     (let p = (lerp 0.15 (fst (dc_pos c)) (fst (dc_mouse c)), lerp 0.15 (snd (dc_pos c)) (snd (dc_mouse c)));
          c1 = c\<lparr>dc_pos := p, dc_anim := False\<rparr>
      in case dc_dot c of
           None \<Rightarrow> Inl (TypeError, c1)
         | Some d \<Rightarrow>
             (let c2 = c1\<lparr>dc_dot := Some (d\<lparr>dn_xy := Some (dc_mouse c)\<rparr>)\<rparr>
              in case dc_ring c of
                   None \<Rightarrow> Inl (TypeError, c2)
                 | Some r \<Rightarrow> Inr (c2\<lparr>dc_ring := Some (r\<lparr>dn_xy := Some p\<rparr>), dc_anim := True\<rparr>)))"

text \<open>\<open>setState\<close> writes the ring first, then the dot.\<close>

definition d_set_state :: "jstr \<Rightarrow> dcursor \<Rightarrow> dcursor completion" where
  "d_set_state st c =
     (case dc_ring c of
        None \<Rightarrow> Inl (TypeError, c)
      | Some r \<Rightarrow>
          (let c1 = c\<lparr>dc_ring := Some (r\<lparr>dn_state := Some st\<rparr>)\<rparr>
           in case dc_dot c of
                None \<Rightarrow> Inl (TypeError, c1)
              | Some d \<Rightarrow> Inr (c1\<lparr>dc_dot := Some (d\<lparr>dn_state := Some st\<rparr>)\<rparr>)))"

definition d_set_text :: "jstr \<Rightarrow> dcursor \<Rightarrow> dcursor completion" where
  "d_set_text t c = (case dc_text c of None \<Rightarrow> Inl (TypeError, c) | Some _ \<Rightarrow> Inr (c\<lparr>dc_text := Some t\<rparr>))"

text \<open>The constructor: the nodes the page has (\<open>querySelector\<close> may give \<open>null\<close>), then \<open>init()\<close>.\<close>

definition new_dcursor :: "bool \<Rightarrow> bool \<Rightarrow> jstr option \<Rightarrow> dcursor completion" where
  "new_dcursor has_dot has_ring txt =
     d_animate \<lparr>dc_dot = (if has_dot then Some dnode0 else None), dc_ring = (if has_ring then Some dnode0 else None),
                dc_text = txt, dc_pos = (0, 0), dc_mouse = (0, 0), dc_anim = False\<rparr>"

text \<open>\<open>bindHoverTargets\<close>: the listeners of one element, in the order they are added.\<close>

definition d_enter_listeners :: "target \<Rightarrow> listener list" where
  "d_enter_listeners t =
     (if t_hover t then [LState (js ''hover'')] else [])
     @ (if t_media t then [LState (js ''media'')] else [])
     @ (case t_text t of None \<Rightarrow> [] | Some s \<Rightarrow> [LTextEnter s])"

definition d_leave_listeners :: "target \<Rightarrow> listener list" where
  "d_leave_listeners t =
     (if t_hover t then [LState (js ''default'')] else [])
     @ (if t_media t then [LState (js ''default'')] else [])
     @ (case t_text t of None \<Rightarrow> [] | Some _ \<Rightarrow> [LState (js ''default'')])"

fun d_run_listener :: "listener \<Rightarrow> dcursor \<Rightarrow> dcursor completion" where
  "d_run_listener (LState st) c = d_set_state st c"
| "d_run_listener (LTextEnter s) c =
     (case d_set_text s c of Inl e \<Rightarrow> Inl e | Inr c1 \<Rightarrow> d_set_state (js ''text'') c1)"

fun d_dispatch :: "listener list \<Rightarrow> dcursor \<Rightarrow> dcursor completion" where
  "d_dispatch [] c = Inr c"
| "d_dispatch (l # ls) c =
     (case d_run_listener l c of
        Inl (e, c1) \<Rightarrow> Inl (e, state_of (d_dispatch ls c1))
      | Inr c1 \<Rightarrow> d_dispatch ls c1)"

datatype dc_event = DCMove real real | DCEnter target | DCLeave target | DCFrame

fun dc_step :: "dc_event \<Rightarrow> dcursor \<Rightarrow> dcursor completion" where
  "dc_step (DCMove x y) c = Inr (c\<lparr>dc_mouse := (x, y)\<rparr>)"
| "dc_step (DCEnter t) c = d_dispatch (d_enter_listeners t) c"
| "dc_step (DCLeave t) c = d_dispatch (d_leave_listeners t) c"
| "dc_step DCFrame c = (if dc_anim c then d_animate c else Inr c)"

text \<open>The hover state of the draft agrees with the shipped cursor's: both nodes present,
  the same \<open>data-state\<close> on each, the same label node and text.\<close>

definition dc_agree :: "dcursor \<Rightarrow> cursor \<Rightarrow> bool" where
  "dc_agree dc c \<longleftrightarrow>
     (\<exists>dd dr sd sr. dc_dot dc = Some dd \<and> dc_ring dc = Some dr \<and> dot c = Some sd \<and> ring c = Some sr
        \<and> dn_state dd = Some (cn_state sd) \<and> dn_state dr = Some (cn_state sr))
     \<and> dc_text dc = label c \<and> label c \<noteq> None"

subsection \<open>Properties\<close>

text \<open>
  The draft's constructor runs \<open>animate()\<close> at once: on a page without the
  \<open>.cursor-dot\<close> or \<open>.cursor-ring\<close> element the module's top-level
  \<open>new LuminaCursor()\<close> throws.
\<close>

lemma dcursor_needs_markup:
  "(\<exists>c. new_dcursor has_dot has_ring txt = Inl (TypeError, c)) \<longleftrightarrow> \<not> (has_dot \<and> has_ring)"
  by (auto simp: new_dcursor_def d_animate_def Let_def)

lemma d_enter_listeners_shipped: "\<not> t_hidden t \<Longrightarrow> d_enter_listeners t = enter_listeners t"
  and d_leave_listeners_shipped: "\<not> t_hidden t \<Longrightarrow> d_leave_listeners t = leave_listeners t"
  by (simp_all add: d_enter_listeners_def enter_listeners_def d_leave_listeners_def leave_listeners_def)

lemma dc_agree_set_state:
  "dc_agree dc c \<Longrightarrow> \<exists>dc' c'. d_set_state st dc = Inr dc' \<and> set_state st c = Inr c' \<and> dc_agree dc' c'"
  by (auto simp: dc_agree_def d_set_state_def set_state_def)

lemma dc_agree_set_text:
  "dc_agree dc c \<Longrightarrow> \<exists>dc' c'. d_set_text s dc = Inr dc' \<and> set_label s c = Inr c' \<and> dc_agree dc' c'"
  by (auto simp: dc_agree_def d_set_text_def set_label_def)

lemma dc_agree_listener:
  assumes a: "dc_agree dc c"
  shows "\<exists>dc' c'. d_run_listener l dc = Inr dc' \<and> run_listener l c = Inr c' \<and> dc_agree dc' c'"
proof (cases l)
  case (LState st)
  then show ?thesis using dc_agree_set_state [OF a] by simp
next
  case (LTextEnter s)
  obtain dc1 c1 where 1: "d_set_text s dc = Inr dc1" "set_label s c = Inr c1" "dc_agree dc1 c1"
    using dc_agree_set_text [OF a] by blast
  obtain dc2 c2 where 2: "d_set_state (js ''text'') dc1 = Inr dc2" "set_state (js ''text'') c1 = Inr c2" "dc_agree dc2 c2"
    using dc_agree_set_state [OF 1(3)] by blast
  show ?thesis using LTextEnter 1 2 by simp
qed

lemma dc_agree_dispatch:
  "dc_agree dc c \<Longrightarrow> \<exists>dc' c'. d_dispatch ls dc = Inr dc' \<and> dispatch ls c = Inr c' \<and> dc_agree dc' c'"
proof (induction ls arbitrary: dc c)
  case (Cons l ls)
  obtain dc1 c1 where "d_run_listener l dc = Inr dc1" "run_listener l c = Inr c1" "dc_agree dc1 c1"
    using dc_agree_listener [OF Cons.prems] by blast
  then show ?case using Cons.IH [of dc1 c1] by simp
qed simp

lemma run_listener_binds: "run_listener l c = Inr c' \<Longrightarrow> hover_binds c' = hover_binds c"
  by (cases l) (auto simp: set_state_def set_label_def Let_def split: option.splits sum.splits)

lemma dispatch_binds: "dispatch ls c = Inr c' \<Longrightarrow> hover_binds c' = hover_binds c"
proof (induction ls arbitrary: c)
  case (Cons l ls)
  then show ?case by (auto split: sum.splits dest: run_listener_binds)
qed simp

lemma dc_agree_hover:
  assumes "dc_agree dc c" "hover_binds c = 1" "\<not> t_hidden t"
  shows "dc_agree (state_of (dc_step (if en then DCEnter t else DCLeave t) dc))
                  (state_of (cursor_step (if en then CEnter t else CLeave t) c))
         \<and> hover_binds (state_of (cursor_step (if en then CEnter t else CLeave t) c)) = 1"
proof -
  have b: "bound_listeners (Suc 0) ls = ls" for ls by (simp add: bound_listeners_def)
  obtain dc' c' where "d_dispatch ((if en then d_enter_listeners else d_leave_listeners) t) dc = Inr dc'"
      "dispatch ((if en then d_enter_listeners else d_leave_listeners) t) c = Inr c'" "dc_agree dc' c'"
    using dc_agree_dispatch [OF assms(1)] by blast
  moreover have "hover_binds c' = 1" using calculation(2) assms(2) dispatch_binds by metis
  ultimately show ?thesis using assms(2,3)
    by (cases en) (simp_all add: b d_enter_listeners_shipped d_leave_listeners_shipped)
qed

text \<open>
  Refinement on hover: from states that agree, the shipped cursor (bound once, as
  \<open>init()\<close> binds it) and the draft handle any sequence of enters and leaves of
  targets outside the shipped-only \<open>hidden\<close> category without throwing and keep agreeing.
\<close>

lemma shipped_hover_refines_design:
  assumes "dc_agree dc c" "hover_binds c = 1" "\<forall>(en, t) \<in> set evs. \<not> t_hidden t"
  shows "dc_agree (fold (\<lambda>(en, t) d. state_of (dc_step (if en then DCEnter t else DCLeave t) d)) evs dc)
                  (fold (\<lambda>(en, t) s. state_of (cursor_step (if en then CEnter t else CLeave t) s)) evs c)"
  using assms
proof (induction evs arbitrary: dc c)
  case (Cons e evs)
  obtain en t where e: "e = (en, t)" by (cases e)
  then show ?case using Cons dc_agree_hover [OF Cons.prems(1,2), of t en] by simp
qed simp

end
