(* ===== verification/DesignMagnetic.thy ===== *)
theory DesignMagnetic
  imports Magnetic
begin

text \<open>
  The magnetic-element draft of the design document (\<open>src/unnamed/part_000\<close>,
  section 2.2, lines 309--379): the same pull as the shipped \<open>MagneticElement\<close>, with
  other defaults (strength 0.5, trigger area 150), the bounds read on every move, no
  \<open>resize\<close> listener and no \<open>destroy\<close>. The draft runs on the same host and schedules the
  same frame callback. The theory shows that the shipped class, given the draft's
  options, behaves as the draft on every sequence of the draft's events.
\<close>

record dmagnet =
  dm_strength :: real
  dm_trigger :: real
  dm_interp :: real
  dm_pos :: point
  dm_target :: point
  dm_hovered :: bool
  dm_transform :: "point option"

type_synonym dmworld = "dmagnet \<times> mcb host"

datatype dm_event = DMove real real rect | DEnter | DLeave | DFrame

definition dm_on_move :: "real \<Rightarrow> real \<Rightarrow> rect \<Rightarrow> dmagnet \<Rightarrow> dmagnet" where
  "dm_on_move x y r d =
     (let c = rect_center r; dx = x - fst c; dy = y - snd c; dist = hypot dx dy
      in if dist < dm_trigger d then
           (let pull = 1 - dist / dm_trigger d
            in d\<lparr>dm_target := (dx * dm_strength d * pull, dy * dm_strength d * pull)\<rparr>)
         else if \<not> dm_hovered d then d\<lparr>dm_target := (0, 0)\<rparr>
         else d)"

definition dm_animate :: "dmagnet \<Rightarrow> mcb host \<Rightarrow> dmworld" where
  "dm_animate d h =
     (let p = (lerp (dm_interp d) (fst (dm_pos d)) (fst (dm_target d)), lerp (dm_interp d) (snd (dm_pos d)) (snd (dm_target d)));
          (i, h1) = request_frame MAnimate h
      in (d\<lparr>dm_pos := p, dm_transform := Some p\<rparr>, h1))"

text \<open>The constructor with \<open>{ strength: 0.5, triggerArea: 150, interpolation: 0.1, ...options }\<close>.\<close>

definition new_dmagnet :: "real \<Rightarrow> real \<Rightarrow> real \<Rightarrow> mcb host \<Rightarrow> dmworld" where
  "new_dmagnet s t k h =
     dm_animate \<lparr>dm_strength = s, dm_trigger = t, dm_interp = k, dm_pos = (0, 0), dm_target = (0, 0),
                 dm_hovered = False, dm_transform = None\<rparr> h"

text \<open>The draft's initialisation passes only the strength: \<open>parseFloat(...) || 0.5\<close>.\<close>

definition init_dmagnet :: "real option \<Rightarrow> mcb host \<Rightarrow> dmworld" where
  "init_dmagnet sa h = new_dmagnet (float_or 0.5 sa) 150 0.1 h"

fun dm_step :: "dm_event \<Rightarrow> dmworld \<Rightarrow> dmworld" where
  "dm_step (DMove x y r) (d, h) = (dm_on_move x y r d, h)"
| "dm_step DEnter (d, h) = (d\<lparr>dm_hovered := True\<rparr>, h)"
| "dm_step DLeave (d, h) = (d\<lparr>dm_hovered := False, dm_target := (0, 0)\<rparr>, h)"
| "dm_step DFrame (d, h) =
     (case frames h of [] \<Rightarrow> (d, h) | (i, MAnimate) # fs \<Rightarrow> dm_animate d (h\<lparr>frames := fs\<rparr>))"

text \<open>The shipped events that correspond to the draft's.\<close>

fun dm_event_of :: "dm_event \<Rightarrow> mag_event" where
  "dm_event_of (DMove x y r) = MMove x y r"
| "dm_event_of DEnter = MEnter"
| "dm_event_of DLeave = MLeave"
| "dm_event_of DFrame = MFrame"

text \<open>The draft's state read off the shipped one: options, offsets, hover and transform agree.\<close>

definition dm_sim :: "dmworld \<Rightarrow> mworld \<Rightarrow> bool" where
  "dm_sim w w' \<longleftrightarrow> snd w = snd w'
     \<and> dm_strength (fst w) = strength (fst w') \<and> dm_trigger (fst w) = trigger (fst w')
     \<and> dm_interp (fst w) = smoothing (fst w') \<and> dm_pos (fst w) = mpos (fst w')
     \<and> dm_target (fst w) = mtarget (fst w') \<and> dm_hovered (fst w) = hovered (fst w')
     \<and> dm_transform (fst w) = mtransform (fst w')"

subsection \<open>Properties\<close>

lemma dm_sim_animate:
  "dm_sim (d, h) (m, h) \<Longrightarrow> dm_sim (dm_animate d h) (animate_magnet m h)"
  by (simp add: dm_sim_def dm_animate_def animate_magnet_def Let_def split: prod.split)

lemma dm_sim_move:
  "dm_sim (d, h) (m, h) \<Longrightarrow> dm_sim (dm_on_move x y r d, h) (on_mouse_move x y r m, h)"
  by (auto simp: dm_sim_def dm_on_move_def on_mouse_move_def calculate_bounds_def Let_def)

lemma dm_sim_step: "dm_sim w w' \<Longrightarrow> dm_sim (dm_step e w) (mag_step (dm_event_of e) w')"
proof -
  assume s: "dm_sim w w'"
  obtain d h m h' where w: "w = (d, h)" "w' = (m, h')" by (cases w, cases w')
  then have hh: "h' = h" using s by (simp add: dm_sim_def)
  have s': "dm_sim (d, h) (m, h)" using s w hh by simp
  show ?thesis
  proof (cases e)
    case DFrame
    show ?thesis
    proof (cases "frames h")
      case (Cons f fs)
      obtain i c where f: "f = (i, c)" by (cases f)
      have "dm_sim (d, h\<lparr>frames := fs\<rparr>) (m, h\<lparr>frames := fs\<rparr>)" using s' by (simp add: dm_sim_def)
      then show ?thesis using DFrame w hh Cons f by (cases c) (simp add: dm_sim_animate)
    qed (use DFrame w hh s' in simp)
  qed (use w hh s' dm_sim_move in \<open>auto simp: dm_sim_def\<close>)
qed

text \<open>
  Refinement: the shipped \<open>MagneticElement\<close>, constructed with the draft's options, shows
  the same offset and transform as the draft after any sequence of the draft's events, and
  leaves the host with the same frames.
\<close>

lemma shipped_refines_design:
  "dm_sim (fold dm_step es (new_dmagnet s t k h)) (fold mag_step (map dm_event_of es) (new_magnet s t k r h))"
proof -
  have "dm_sim w w' \<Longrightarrow> dm_sim (fold dm_step es w) (fold mag_step (map dm_event_of es) w')" for w w'
    by (induction es arbitrary: w w') (simp_all add: dm_sim_step)
  moreover have "dm_sim (new_dmagnet s t k h) (new_magnet s t k r h)"
    unfolding new_dmagnet_def new_magnet_def
    by (rule dm_sim_animate) (simp add: dm_sim_def calculate_bounds_def)
  ultimately show ?thesis by blast
qed

text \<open>
  The defaults differ: an element without attributes gets strength 0.5 and trigger area
  150 in the draft, 0.4 and 200 in the shipped module.
\<close>

lemma design_defaults_differ:
  "(dm_strength (fst (init_dmagnet None h)), dm_trigger (fst (init_dmagnet None h))) = (0.5, 150)
   \<and> (strength (fst (init_magnet None None r h)), trigger (fst (init_magnet None None r h))) = (0.4, 200)"
  by (simp add: init_dmagnet_def new_dmagnet_def dm_animate_def init_magnet_def new_magnet_def
      animate_magnet_def calculate_bounds_def float_or_def Let_def split: prod.split)

end
