(* ===== verification/DesignKinetic.thy ===== *)
theory DesignKinetic
  imports KineticFx
begin

text \<open>
  The kinetic-typography drafts of the design document (\<open>src/unnamed/part_000\<close>,
  sections 4.2 and 4.3, lines 712--904): \<open>splitText\<close> without trimming and with a
  \<open>lines\<close> mode, \<open>charCascade\<close> and \<open>elasticWave\<close> without options, \<open>TextScramble\<close>
  with another glyph set, and \<open>wordRotator\<close>, a closure over an index and a scrambler
  that keeps no timeout handle and cannot be stopped. The draft's \<open>TextScramble\<close>
  methods are the shipped ones line for line; only its constructor differs, so the
  scrambler of \<open>Scramble\<close> runs it. The theory relates each draft to the shipped code.
\<close>

subsection \<open>splitText\<close>

text \<open>A node the draft appends: a node of the shipped kind, or a \<open>div.line-wrapper\<close>
  around a \<open>span.line\<close> with its \<open>--line-index\<close> and text.\<close>

datatype dk_node = Plain node | LineWrap nat jstr

text \<open>The draft's children and \<open>aria-label\<close>.\<close>

definition d_splitText :: "jstr \<Rightarrow> element \<Rightarrow> dk_node list \<times> jstr" where
  "d_splitText ty e =
     (let text = el_text (children e);
          cs = (if ty = js ''chars'' then map2 char_span [0..<length text] text else []);
          ws = (if ty = js ''words'' then word_nodes 0 (js_split 0x20 text) else []);
          ls = (if ty = js ''lines'' then [LineWrap 0 text] else [])
      in (map Plain cs @ map Plain ws @ ls, text))"

subsection \<open>Effects\<close>

definition d_charCascade :: "nat \<Rightarrow> element \<Rightarrow> (dk_node list \<times> jstr) \<times> gsap_call" where
  "d_charCascade i e =
     (d_splitText (js ''chars'') e,
      GsapFrom \<lparr>tw_targets = Within i (js ''.char''),
                tw_vars = [(js ''opacity'', Num 0), (js ''y'', Num 50), (js ''rotateX'', Num (-90))],
                tw_duration = 0.8, tw_ease = js ''back.out(1.7)'', tw_stagger = 0.03, tw_trigger = None\<rparr>)"

definition d_elasticWave :: "nat \<Rightarrow> element \<Rightarrow> (dk_node list \<times> jstr) \<times> gsap_call" where
  "d_elasticWave i e =
     (d_splitText (js ''chars'') e,
      GsapFrom \<lparr>tw_targets = Within i (js ''.char''), tw_vars = [(js ''y'', Num (-100)), (js ''opacity'', Num 0)],
                tw_duration = 1.2, tw_ease = js ''elastic.out(1, 0.3)'', tw_stagger = 0.05, tw_trigger = None\<rparr>)"

subsection \<open>TextScramble and wordRotator\<close>

text \<open>\<open>'!<>-_\\/[]{}\<mdash>=+*^?#________'\<close>: the shipped set and eight more underscores.\<close>

definition d_glyphs :: jstr where
  "d_glyphs = [0x21, 0x3C, 0x3E, 0x2D, 0x5F, 0x5C, 0x2F, 0x5B, 0x5D, 0x7B, 0x7D,
     0x2014, 0x3D, 0x2B, 0x2A, 0x5E, 0x3F, 0x23, 0x5F, 0x5F, 0x5F, 0x5F, 0x5F, 0x5F, 0x5F, 0x5F]"

text \<open>The draft constructor sets only the element and the glyphs; the other fields are
  \<open>undefined\<close> until \<open>setText\<close> writes them, and \<open>cancelAnimationFrame(undefined)\<close>
  does nothing, as for \<open>null\<close>.\<close>

definition new_d_scrambler :: "piece list \<Rightarrow> scrambler" where
  "new_d_scrambler content =
     \<lparr>el = content, glyphs = d_glyphs, frame_request = None, frame = 0, queue = [], resolve = None\<rparr>"

record d_rot =
  dr_words :: "jstr list"
  dr_interval :: int
  dr_index :: nat
  dr_scr :: scrambler

type_synonym dworld = "d_rot \<times> rcb host"

text \<open>\<open>next()\<close> of the closure: as the shipped \<open>next\<close>; the \<open>then\<close> reaction arms a
  timeout whose handle is dropped.\<close>

definition d_next :: "d_rot \<Rightarrow> rcb host \<Rightarrow> dworld completion" where
  "d_next d h =
     (case js_nth (dr_words d) (dr_index d) of
        None \<Rightarrow> Inl (TypeError, (d, h))
      | Some w \<Rightarrow>
          (case setText RUpdate w (dr_scr d) h of
             Inl (e, (p, s, h')) \<Rightarrow> Inl (e, (d\<lparr>dr_scr := s\<rparr>, h'))
           | Inr (p, s, h') \<Rightarrow>
               Inr (d\<lparr>dr_scr := s, dr_index := (dr_index d + 1) mod length (dr_words d)\<rparr>,
                    promise_then p RThen h')))"

definition d_then :: "d_rot \<Rightarrow> rcb host \<Rightarrow> dworld" where
  "d_then d h = (d, snd (set_timeout RNext (dr_interval d) h))"

fun d_run_cb :: "rcb \<Rightarrow> d_rot \<Rightarrow> rcb host \<Rightarrow> dworld completion" where
  "d_run_cb RUpdate d h =
     (case update RUpdate (dr_scr d) h of
        Inl (e, (s, h')) \<Rightarrow> Inl (e, (d\<lparr>dr_scr := s\<rparr>, h'))
      | Inr (s, h') \<Rightarrow> Inr (d\<lparr>dr_scr := s\<rparr>, h'))"
| "d_run_cb RThen d h = Inr (d_then d h)"
| "d_run_cb RNext d h = d_next d h"

text \<open>\<open>wordRotator(element, words, interval = 3000)\<close>: the closure, then \<open>next()\<close>.\<close>

definition new_d_rotator :: "piece list \<Rightarrow> jstr list \<Rightarrow> int option \<Rightarrow> rcb host \<Rightarrow> dworld completion" where
  "new_d_rotator content ws iv h =
     d_next \<lparr>dr_words = ws, dr_interval = (case iv of None \<Rightarrow> 3000 | Some v \<Rightarrow> v), dr_index = 0,
             dr_scr = new_d_scrambler content\<rparr> h"

text \<open>The event loop of \<open>Rotator.loop_step\<close> over the draft: nothing can stop it.\<close>

inductive d_loop_step :: "dworld \<Rightarrow> dworld \<Rightarrow> bool" where
  job: "jobs h = cb # rest \<Longrightarrow> d_loop_step (d, h) (state_of (d_run_cb cb d (h\<lparr>jobs := rest\<rparr>)))"
| frame: "jobs h = [] \<Longrightarrow> frames h = (i, cb) # fs \<Longrightarrow>
    d_loop_step (d, h) (state_of (d_run_cb cb d (h\<lparr>frames := fs\<rparr>)))"
| timer: "jobs h = [] \<Longrightarrow> (i, due, cb) \<in> set (timers h) \<Longrightarrow> due \<le> now h \<Longrightarrow>
    d_loop_step (d, h) (state_of (d_run_cb cb d (h\<lparr>timers := filter (\<lambda>(j, _). j \<noteq> i) (timers h)\<rparr>)))"
| tick: "jobs h = [] \<Longrightarrow> 0 < t \<Longrightarrow> d_loop_step (d, h) (d, h\<lparr>now := now h + t\<rparr>)"

inductive d_reachable :: "dworld \<Rightarrow> bool" where
  init: "d_reachable (state_of (new_d_rotator content ws iv (page_host rnd)))"
| step: "d_reachable w \<Longrightarrow> d_loop_step w w' \<Longrightarrow> d_reachable w'"

text \<open>A draft rotator as a shipped one, and back: the timeout handle is the only difference.\<close>

definition d_emb :: "d_rot \<Rightarrow> rotator" where
  "d_emb d = \<lparr>words = dr_words d, interval = dr_interval d, current_index = dr_index d, scr = dr_scr d,
     timeout_id = None\<rparr>"

definition d_of :: "rotator \<Rightarrow> d_rot" where
  "d_of r = \<lparr>dr_words = words r, dr_interval = interval r, dr_index = current_index r, dr_scr = scr r\<rparr>"

definition d_world :: "world \<Rightarrow> dworld" where
  "d_world w = (d_of (fst w), snd w)"

subsection \<open>Properties\<close>

lemma d_of_emb [simp]: "d_of (d_emb d) = d"
  by (simp add: d_of_def d_emb_def)

lemma rot_inv_timeout_id: "rot_inv (r\<lparr>timeout_id := x\<rparr>, h) = rot_inv (r, h)"
  by (simp add: rot_inv_def)

lemma rot_inv_emb_of: "rot_inv (r, h) \<Longrightarrow> rot_inv (d_emb (d_of r), h)"
proof -
  assume "rot_inv (r, h)"
  moreover have "d_emb (d_of r) = r\<lparr>timeout_id := None\<rparr>" by (simp add: d_emb_def d_of_def)
  ultimately show ?thesis by (simp add: rot_inv_timeout_id)
qed

lemma d_run_cb_emb:
  "d_run_cb cb d h = map_sum (apsnd d_world) d_world (run_cb cb (d_emb d) h)"
  by (cases cb)
     (auto simp: d_world_def d_of_def d_emb_def d_next_def rot_next_def d_then_def rot_then_def
        split: sum.split option.split prod.split)

lemma state_of_map_sum: "state_of (map_sum (apsnd f) f c) = f (state_of c)"
  by (cases c) auto

text \<open>Every turn of the draft's loop is a turn of the shipped loop on the embedded world,
  so the shipped rotator's invariant \<open>rot_inv\<close> is preserved.\<close>

lemma d_loop_step_inv:
  assumes "d_loop_step w w'" and "rot_inv (d_emb (fst w), snd w)"
  shows "rot_inv (d_emb (fst w'), snd w')"
  using assms
proof (induction rule: d_loop_step.induct)
  case (job h cb rest d)
  have "loop_step (d_emb d, h) (state_of (run_cb cb (d_emb d) (h\<lparr>jobs := rest\<rparr>)))"
    using job.hyps by (rule loop_step.job)
  then have "rot_inv (state_of (run_cb cb (d_emb d) (h\<lparr>jobs := rest\<rparr>)))"
    using loop_step_inv job.prems by simp
  then show ?case
    by (cases "state_of (run_cb cb (d_emb d) (h\<lparr>jobs := rest\<rparr>))")
       (simp add: d_run_cb_emb state_of_map_sum d_world_def rot_inv_emb_of)
next
  case (frame h i cb fs d)
  have "loop_step (d_emb d, h) (state_of (run_cb cb (d_emb d) (h\<lparr>frames := fs\<rparr>)))"
    using frame.hyps by (rule loop_step.frame)
  then have "rot_inv (state_of (run_cb cb (d_emb d) (h\<lparr>frames := fs\<rparr>)))"
    using loop_step_inv frame.prems by simp
  then show ?case
    by (cases "state_of (run_cb cb (d_emb d) (h\<lparr>frames := fs\<rparr>))")
       (simp add: d_run_cb_emb state_of_map_sum d_world_def rot_inv_emb_of)
next
  case (timer h i due cb d)
  let ?h = "h\<lparr>timers := filter (\<lambda>(j, _). j \<noteq> i) (timers h)\<rparr>"
  have "loop_step (d_emb d, h) (state_of (run_cb cb (d_emb d) ?h))"
    using timer.hyps by (rule loop_step.timer)
  then have "rot_inv (state_of (run_cb cb (d_emb d) ?h))"
    using loop_step_inv timer.prems by simp
  then show ?case
    by (cases "state_of (run_cb cb (d_emb d) ?h)")
       (simp add: d_run_cb_emb state_of_map_sum d_world_def rot_inv_emb_of)
next
  case (tick h t d)
  have "loop_step (d_emb d, h) (d_emb d, h\<lparr>now := now h + t\<rparr>)"
    using tick.hyps by (rule loop_step.tick)
  then show ?case using loop_step_inv tick.prems by fastforce
qed

text \<open>
  Refinement in the other direction: every world the draft \<open>wordRotator\<close> reaches,
  embedded as a shipped rotator, satisfies \<open>rot_inv\<close>, although the draft scrambler has
  another glyph set and the closure keeps no timeout handle.
\<close>

lemma d_reachable_inv: "d_reachable w \<Longrightarrow> rot_inv (d_emb (fst w), snd w)"
proof (induction rule: d_reachable.induct)
  case (init content ws iv rnd)
  let ?d = "\<lparr>dr_words = ws, dr_interval = (case iv of None \<Rightarrow> 3000 | Some v \<Rightarrow> v), dr_index = 0,
             dr_scr = new_d_scrambler content\<rparr>"
  have i0: "rot_inv (d_emb ?d, page_host rnd)"
    by (simp add: rot_inv_def d_emb_def new_d_scrambler_def page_host_def host_wf_def)
  have "rot_inv (state_of (rot_next (d_emb ?d) (page_host rnd)))"
    using rot_next_inv [OF i0] by (simp add: page_host_def)
  moreover have "new_d_rotator content ws iv (page_host rnd) = map_sum (apsnd d_world) d_world (rot_next (d_emb ?d) (page_host rnd))"
    using d_run_cb_emb [of RNext ?d] by (simp add: new_d_rotator_def)
  ultimately show ?case
    by (cases "state_of (rot_next (d_emb ?d) (page_host rnd))")
       (simp add: state_of_map_sum d_world_def rot_inv_emb_of)
next
  case (step w w')
  then show ?case using d_loop_step_inv by blast
qed

text \<open>So the draft too has at most one frame pending, its scrambler's own, and its index
  stays in range.\<close>

lemma d_rotator_single_frame:
  "d_reachable (d, h) \<Longrightarrow> length (frames h) \<le> 1
     \<and> (\<forall>(i, c) \<in> set (frames h). c = RUpdate \<and> frame_request (dr_scr d) = Some i)
     \<and> (dr_words d \<noteq> [] \<longrightarrow> dr_index d < length (dr_words d))"
  using d_reachable_inv [of "(d, h)"] by (simp add: rot_inv_def d_emb_def)

text \<open>
  The shipped \<open>splitText\<close> is the draft applied to the trimmed text, for every mode but
  \<open>lines\<close>, which the shipped function dropped (it then leaves the element empty).
\<close>

lemma splitText_trims_draft:
  assumes "ty \<noteq> js ''lines''"
  shows "d_splitText ty (e\<lparr>children := [TextNode (js_trim (el_text (children e)))]\<rparr>)
       = (map Plain (children (splitText ty e)), js_trim (el_text (children e)))"
proof -
  have cw: "js ''chars'' \<noteq> js ''words''" by (simp add: js_def)
  show ?thesis using assms cw by (auto simp: d_splitText_def splitText_def Let_def node_text_def)
qed

text \<open>Without options the shipped effects hand GSAP the draft's tweens (the cascade lists the
  same variables in another order).\<close>

lemma cascade_matches_draft:
  "(call_tween (snd (charCascade no_opts i e)))\<lparr>tw_vars := []\<rparr> = (call_tween (snd (d_charCascade i e')))\<lparr>tw_vars := []\<rparr>
   \<and> set (tw_vars (call_tween (snd (charCascade no_opts i e)))) = set (tw_vars (call_tween (snd (d_charCascade i e'))))"
  by (auto simp: charCascade_def d_charCascade_def no_opts_def opt_or_def call_tween_def Let_def)

lemma elastic_matches_draft:
  "call_tween (snd (elasticWave no_opts i e)) = call_tween (snd (d_elasticWave i e'))"
  by (simp add: elasticWave_def d_elasticWave_def no_opts_def opt_or_def call_tween_def)

end
