(* ===== verification/DesignTilt.thy ===== *)
theory DesignTilt
  imports Tilt
begin

text \<open>
  The tilt draft of the design document (\<open>src/unnamed/part_000\<close>, section 6.3, lines
  1344--1438): class \<open>TiltElement\<close> with other defaults (scale 1.05, glare opacity
  0.3), no touch check, the transition set in \<open>init\<close> and switched off in \<open>onEnter\<close> at
  once (the shipped class defers that by a timeout), and a glare background reset to
  \<open>transparent\<close> on leave. The rotation is the shipped \<open>tilt_angles\<close>; a value computed
  over a zero-sized box is invalid CSS and is ignored, as in \<open>Tilt\<close>.
\<close>

datatype dglare_bg = DGradient real real real | DTransparent

record dtilt =
  dt_max :: real
  dt_persp :: real
  dt_scale :: real
  dt_speed :: real
  dt_max_glare :: real
  dt_glare :: "dglare_bg option option"
  dt_transform :: "tilt_tf option"
  dt_transition :: "trans option"
  dt_preserve3d :: bool

datatype dt_event = DTEnter | DTMove real real rect | DTLeave

text \<open>The constructor with the defaults and \<open>init()\<close>: \<open>dt_glare\<close> is the glare element
  (\<open>None\<close> without one) with its background.\<close>

definition new_dtilt :: "bool \<Rightarrow> dtilt" where
  "new_dtilt gl =
     \<lparr>dt_max = 15, dt_persp = 1000, dt_scale = 1.05, dt_speed = 400, dt_max_glare = 0.3,
      dt_glare = (if gl then Some None else None), dt_transform = None,
      dt_transition = Some (TEase 400), dt_preserve3d = True\<rparr>"

text \<open>The draft's initialisation: \<open>new TiltElement(el)\<close> without options, so with a glare.\<close>

definition init_dtilt :: dtilt where
  "init_dtilt = new_dtilt True"

definition d_on_enter :: "dtilt \<Rightarrow> dtilt" where
  "d_on_enter t = t\<lparr>dt_transition := Some TNone\<rparr>"

definition d_on_move :: "real \<Rightarrow> real \<Rightarrow> rect \<Rightarrow> dtilt \<Rightarrow> dtilt" where
  "d_on_move x y r t =
     (let finite = (0 < r_width r \<and> 0 < r_height r);
          (rx, ry) = tilt_angles x y r (dt_max t);
          t1 = (if finite then t\<lparr>dt_transform := Some \<lparr>tf_persp = dt_persp t, tf_rx = rx, tf_ry = ry, tf_scale = dt_scale t\<rparr>\<rparr>
                else t)
      in case dt_glare t1 of
           None \<Rightarrow> t1
         | Some bg \<Rightarrow>
             t1\<lparr>dt_glare := Some (if finite then Some (DGradient ((x - r_left r) / r_width r * 100)
                                                     ((y - r_top r) / r_height r * 100) (dt_max_glare t))
                                 else bg)\<rparr>)"

definition d_on_leave :: "dtilt \<Rightarrow> dtilt" where
  "d_on_leave t =
     (let t1 = t\<lparr>dt_transition := Some (TEase (dt_speed t)),
                 dt_transform := Some \<lparr>tf_persp = dt_persp t, tf_rx = 0, tf_ry = 0, tf_scale = 1\<rparr>\<rparr>
      in case dt_glare t1 of None \<Rightarrow> t1 | Some _ \<Rightarrow> t1\<lparr>dt_glare := Some (Some DTransparent)\<rparr>)"

fun dt_step :: "dt_event \<Rightarrow> dtilt \<Rightarrow> dtilt" where
  "dt_step DTEnter t = d_on_enter t"
| "dt_step (DTMove x y r) t = d_on_move x y r t"
| "dt_step DTLeave t = d_on_leave t"

subsection \<open>Properties\<close>

text \<open>
  In the draft a leave always eases back: after a leave, whatever moves follow, the
  transition is the ease of \<open>speed\<close> milliseconds, also right after an enter (in the shipped
  code the timeout \<open>onEnter\<close> left pending switches it off, claim C28).
\<close>

lemma draft_leave_eases:
  "dt_transition (fold dt_step (DTLeave # map (\<lambda>(x, y, r). DTMove x y r) ms) t) = Some (TEase (dt_speed t))"
proof (induction ms rule: rev_induct)
  case Nil
  then show ?case by (cases "dt_glare t") (simp_all add: d_on_leave_def)
next
  case (snoc m ms)
  obtain x y r where "m = (x, y, r)" by (cases m) auto
  then show ?case using snoc
    by (cases "dt_glare (fold dt_step (DTLeave # map (\<lambda>(x, y, r). DTMove x y r) ms) t)")
       (auto simp: d_on_move_def Let_def split: prod.split)
qed

text \<open>
  The shipped \<open>onMove\<close> rotates as the draft's: with the same maximal tilt and
  perspective, over a non-empty box, both write the same angles and perspective.
\<close>

lemma on_move_rotation_as_draft:
  assumes "0 < r_width r" "0 < r_height r" "max_tilt s = dt_max d" "persp s = dt_persp d"
  shows "map_option (\<lambda>f. (tf_persp f, tf_rx f, tf_ry f)) (transform (on_move x y r s))
       = map_option (\<lambda>f. (tf_persp f, tf_rx f, tf_ry f)) (dt_transform (d_on_move x y r d))"
proof -
  obtain rx ry where a: "tilt_angles x y r (max_tilt s) = (rx, ry)" by (cases "tilt_angles x y r (max_tilt s)")
  then show ?thesis using assms on_move_finite [OF assms(1,2) a]
    by (cases "dt_glare d") (auto simp: d_on_move_def Let_def)
qed

end
