(* ===== verification/DesignScroll.thy ===== *)
theory DesignScroll
  imports ScrollFx
begin

text \<open>
  The scroll-animation draft of the design document (\<open>src/unnamed/part_000\<close>, section
  3.2, lines 425--637). Like \<open>ScrollFx\<close> it is modelled as the calls it makes to GSAP,
  here with the options the draft uses beyond the shipped ones: \<open>from\<close> and \<open>set\<close> calls,
  pinning, numeric scrub and snap, and \<open>snap\<close> of tweened properties. Numbers the draft
  divides are JavaScript numbers, with \<open>Infinity\<close> and \<open>NaN\<close>; \<open>parseInt\<close> is called
  without a radix, so a \<open>0x\<close> prefix reads hexadecimal.
\<close>

datatype jsnum = JNum real | JPosInf | JNegInf | JNaN

text \<open>Division of JavaScript numbers.\<close>

definition js_div :: "real \<Rightarrow> real \<Rightarrow> jsnum" where
  "js_div a b = (if b \<noteq> 0 then JNum (a / b) else if 0 < a then JPosInf else if a < 0 then JNegInf else JNaN)"

subsection \<open>parseInt without a radix\<close>

definition is_hex :: "code_unit \<Rightarrow> bool" where
  "is_hex c \<longleftrightarrow> is_digit c \<or> (0x41 \<le> c \<and> c \<le> 0x46) \<or> (0x61 \<le> c \<and> c \<le> 0x66)"

definition hex_value :: "code_unit \<Rightarrow> nat" where
  "hex_value c = (if is_digit c then unat c - 48 else if c \<le> 0x46 then unat c - 55 else unat c - 87)"

definition hex_digits_value :: "jstr \<Rightarrow> nat" where
  "hex_digits_value ds = foldl (\<lambda>n c. 16 * n + hex_value c) 0 ds"

text \<open>\<open>parseInt(a)\<close>: as \<open>parse_int\<close>, but after the sign a \<open>0x\<close> or \<open>0X\<close> prefix switches
  to radix 16.\<close>

definition d_parse_int :: "jstr option \<Rightarrow> int option" where
  "d_parse_int a =
     (let s = dropWhile js_ws (case a of None \<Rightarrow> js ''undefined'' | Some v \<Rightarrow> v);
          (sg, r) = (case s of [] \<Rightarrow> (1 :: int, [])
                      | c # cs \<Rightarrow> if c = 0x2D then (-1, cs) else if c = 0x2B then (1, cs) else (1, s))
      in if take 2 r = js ''0x'' \<or> take 2 r = js ''0X''
         then (let ds = takeWhile is_hex (drop 2 r)
               in if ds = [] then None else Some (sg * int (hex_digits_value ds)))
         else (let ds = takeWhile is_digit r
               in if ds = [] then None else Some (sg * int (digits_value ds))))"

subsection \<open>The calls\<close>

datatype d_target = DT gtarget | DParent nat | DBody | DPanels nat | DPath nat nat

datatype d_method = MFrom | MTo | MSet

text \<open>\<open>scrub: true\<close> ties the tween to the scroll position; a number lags by that many seconds.\<close>

datatype d_scrub = ScrubOn | ScrubLag real

record d_trigger =
  dtr_el :: d_target
  dtr_start :: "jstr option"
  dtr_end :: "jstr option"
  dtr_actions :: "jstr option"
  dtr_scrub :: "d_scrub option"
  dtr_pin :: bool
  dtr_snap :: "jsnum option"

record d_tw =
  dw_method :: d_method
  dw_targets :: d_target
  dw_vars :: "(jstr \<times> gval) list"
  dw_duration :: "real option"
  dw_ease :: "jstr option"
  dw_stagger :: real
  dw_trigger :: "d_trigger option"
  dw_snap :: "(jstr \<times> real) list"
  dw_update :: bool

definition d_trig :: "d_target \<Rightarrow> jstr \<Rightarrow> d_trigger" where
  "d_trig tg st = \<lparr>dtr_el = tg, dtr_start = Some st, dtr_end = None, dtr_actions = None, dtr_scrub = None,
     dtr_pin = False, dtr_snap = None\<rparr>"

definition d_call :: "d_method \<Rightarrow> d_target \<Rightarrow> (jstr \<times> gval) list \<Rightarrow> real option \<Rightarrow> jstr option \<Rightarrow> d_trigger option \<Rightarrow> d_tw" where
  "d_call m tg vs d es tr = \<lparr>dw_method = m, dw_targets = tg, dw_vars = vs, dw_duration = d, dw_ease = es,
     dw_stagger = 0, dw_trigger = tr, dw_snap = [], dw_update = False\<rparr>"

definition d_fade_up :: "nat \<Rightarrow> d_tw" where
  "d_fade_up e = d_call MFrom (DT (El e)) [(js ''y'', Num 60), (js ''opacity'', Num 0)] (Some 1) (Some (js ''power3.out''))
     (Some ((d_trig (DT (El e)) (js ''top 85%''))\<lparr>dtr_actions := Some (js ''play none none reverse'')\<rparr>))"

definition d_stagger :: "nat \<Rightarrow> d_tw" where
  "d_stagger e = (d_call MFrom (DT (ChildrenOf e)) [(js ''y'', Num 40), (js ''opacity'', Num 0)] (Some 0.8)
     (Some (js ''power2.out'')) (Some (d_trig (DT (El e)) (js ''top 80%''))))\<lparr>dw_stagger := 0.1\<rparr>"

definition d_text_reveal :: "nat \<Rightarrow> d_tw" where
  "d_text_reveal e = (d_call MFrom (DT (Within e (js ''.line''))) [(js ''yPercent'', Num 100), (js ''opacity'', Num 0)]
     (Some 1) (Some (js ''power4.out'')) (Some (d_trig (DT (El e)) (js ''top 80%''))))\<lparr>dw_stagger := 0.15\<rparr>"

text \<open>\<open>initParallax\<close>: the trigger is \<open>el.parentElement\<close>, without the shipped \<open>|| el\<close>.\<close>

definition d_parallax :: "real option \<Rightarrow> nat \<Rightarrow> d_tw" where
  "d_parallax sp e = d_call MTo (DT (El e)) [(js ''yPercent'', Num (-30 * float_or 0.5 sp))] None (Some (js ''none''))
     (Some ((d_trig (DParent e) (js ''top bottom''))\<lparr>dtr_end := Some (js ''bottom top''), dtr_scrub := Some ScrubOn\<rparr>))"

text \<open>\<open>initCounters\<close>: \<open>innerText\<close> tweened to the target and snapped to integers.\<close>

definition d_counter :: "nat \<Rightarrow> jstr option \<Rightarrow> d_tw" where
  "d_counter e ca =
     (d_call MTo (DT (El e)) [(js ''innerText'', case d_parse_int ca of None \<Rightarrow> NaNv | Some n \<Rightarrow> Num (of_int n))]
        (Some 2) (Some (js ''power2.out'')) (Some (d_trig (DT (El e)) (js ''top 80%''))))
     \<lparr>dw_snap := [(js ''innerText'', 1)], dw_update := True\<rparr>"

text \<open>\<open>initHorizontalScroll\<close> for a container with \<open>n\<close> panels and width \<open>w\<close>, the
  \<open>end\<close> function evaluated when ScrollTrigger refreshes.\<close>

definition d_horizontal :: "nat \<Rightarrow> nat \<Rightarrow> int \<Rightarrow> d_tw" where
  "d_horizontal c n w =
     d_call MTo (DPanels c) [(js ''xPercent'', Num (-100 * (real n - 1)))] None (Some (js ''none''))
       (Some \<lparr>dtr_el = DT (El c), dtr_start = None, dtr_end = Some (js ''+='' @ int_to_js w), dtr_actions = None,
              dtr_scrub = Some (ScrubLag 1), dtr_pin = True, dtr_snap = Some (js_div 1 (real n - 1))\<rparr>)"

text \<open>\<open>initSVGDraw\<close> for one SVG with the lengths of its paths: a \<open>set\<close> and a tween per path.\<close>

definition d_svg_draw :: "nat \<Rightarrow> real list \<Rightarrow> d_tw list" where
  "d_svg_draw s ls =
     concat (map (\<lambda>(j, l). [d_call MSet (DPath s j) [(js ''strokeDasharray'', Num l), (js ''strokeDashoffset'', Num l)]
                              None None None,
                           d_call MTo (DPath s j) [(js ''strokeDashoffset'', Num 0)] (Some 2) (Some (js ''power2.inOut''))
                              (Some (d_trig (DT (El s)) (js ''top 70%'')))])
       (enumerate 0 ls))"

definition d_image_reveal :: "nat \<Rightarrow> d_tw" where
  "d_image_reveal e = d_call MFrom (DT (El e)) [(js ''clipPath'', Str (js ''inset(100% 0% 0% 0%)''))] (Some 1.2)
     (Some (js ''power4.inOut'')) (Some (d_trig (DT (El e)) (js ''top 75%'')))"

definition d_progress :: "nat \<Rightarrow> d_tw" where
  "d_progress p = d_call MTo (DT (El p)) [(js ''scaleX'', Num 1)] None (Some (js ''none''))
     (Some ((d_trig DBody (js ''top top''))\<lparr>dtr_end := Some (js ''bottom bottom''), dtr_scrub := Some (ScrubLag 0.3)\<rparr>))"

subsection \<open>initScrollAnimations\<close>

record d_scroll_page =
  dsp_animated :: "(nat \<times> jstr option) list"
  dsp_parallax :: "(nat \<times> real option) list"
  dsp_counters :: "(nat \<times> jstr option) list"
  dsp_horizontal :: "(nat \<times> nat \<times> int) option"
  dsp_paths :: "nat \<Rightarrow> real list"
  dsp_progress :: "nat option"

definition d_pass :: "jstr \<Rightarrow> (nat \<Rightarrow> 'a list) \<Rightarrow> (nat \<times> jstr option) list \<Rightarrow> 'a list" where
  "d_pass k f els = concat (map (\<lambda>(e, a). if a = Some k then f e else []) els)"

text \<open>The nine initialisers in the order of the draft's \<open>initScrollAnimations\<close>.\<close>

definition d_init_scroll :: "d_scroll_page \<Rightarrow> d_tw list" where
  "d_init_scroll pg =
     d_pass (js ''fade-up'') (\<lambda>e. [d_fade_up e]) (dsp_animated pg)
     @ d_pass (js ''stagger'') (\<lambda>e. [d_stagger e]) (dsp_animated pg)
     @ d_pass (js ''text-reveal'') (\<lambda>e. [d_text_reveal e]) (dsp_animated pg)
     @ map (\<lambda>(e, sp). d_parallax sp e) (dsp_parallax pg)
     @ map (\<lambda>(e, ca). d_counter e ca) (dsp_counters pg)
     @ (case dsp_horizontal pg of None \<Rightarrow> [] | Some (c, n, w) \<Rightarrow> [d_horizontal c n w])
     @ d_pass (js ''draw'') (\<lambda>s. d_svg_draw s (dsp_paths pg s)) (dsp_animated pg)
     @ d_pass (js ''reveal'') (\<lambda>e. [d_image_reveal e]) (dsp_animated pg)
     @ (case dsp_progress pg of None \<Rightarrow> [] | Some p \<Rightarrow> [d_progress p])"

subsection \<open>Properties\<close>

text \<open>
  The horizontal section's snap is \<open>1 / (n - 1)\<close> for \<open>n\<close> panels: \<open>Infinity\<close> for a
  single panel, \<open>-1\<close> (with the panels pushed right by 100%) for none, and a fraction in
  \<open>(0, 1]\<close> only from two panels on.
\<close>

lemma horizontal_snap:
  "dtr_snap (the (dw_trigger (d_horizontal c 1 w))) = Some JPosInf
   \<and> dtr_snap (the (dw_trigger (d_horizontal c 0 w))) = Some (JNum (-1))
   \<and> dw_vars (d_horizontal c 0 w) = [(js ''xPercent'', Num 100)]
   \<and> (2 \<le> n \<longrightarrow> (\<exists>q. dtr_snap (the (dw_trigger (d_horizontal c n w))) = Some (JNum q) \<and> 0 < q \<and> q \<le> 1))"
  by (auto simp: d_horizontal_def d_call_def js_div_def)

text \<open>Without a radix the draft reads a hexadecimal counter; the shipped call does not.\<close>

lemma d_parse_int_hex:
  "d_parse_int (Some (js ''0x10'')) = Some 16 \<and> parse_int (Some (js ''0x10'')) = Some 0"
  by (simp add: d_parse_int_def parse_int_def js_def js_ws_def is_hex_def is_digit_def hex_digits_value_def
      hex_value_def digits_value_def)

text \<open>Of the draft's \<open>data-animate\<close> values, the shipped reveals handle \<open>fade-up\<close>,
  \<open>stagger\<close> and \<open>reveal\<close>, but not \<open>text-reveal\<close> nor \<open>draw\<close>.\<close>

lemma draft_kinds_shipped:
  "reveal_tween (js ''text-reveal'') e = None \<and> reveal_tween (js ''draw'') e = None
   \<and> reveal_tween (js ''fade-up'') e \<noteq> None \<and> reveal_tween (js ''stagger'') e \<noteq> None
   \<and> reveal_tween (js ''reveal'') e \<noteq> None"
  by (simp add: reveal_tween_def js_def)

text \<open>The shipped parallax moves elements as the draft's does (only its trigger falls back
  to the element itself when it has no parent).\<close>

lemma parallax_as_draft: "dw_vars (d_parallax sp e) = tw_vars (parallax_tween sp e)"
  by (simp add: d_parallax_def d_call_def parallax_tween_def)

lemma x_in_take2:
  assumes "take 2 r = js ''0x'' \<or> take 2 r = js ''0X''"
  shows "0x78 \<in> set r \<or> 0x58 \<in> set r"
proof -
  have "js ''0x'' = [0x30, 0x78]" "js ''0X'' = [0x30, 0x58]" by (simp_all add: js_def)
  then have "0x78 \<in> set (take 2 r) \<or> 0x58 \<in> set (take 2 r)" using assms by auto
  then show ?thesis by (auto dest: in_set_takeD)
qed

text \<open>On attributes without \<open>x\<close> or \<open>X\<close> both calls of \<open>parseInt\<close> agree.\<close>

lemma d_parse_int_decimal:
  assumes "0x78 \<notin> set v" "0x58 \<notin> set v"
  shows "d_parse_int (Some v) = parse_int (Some v)"
proof -
  let ?s = "dropWhile js_ws v"
  have s: "set ?s \<subseteq> set v" by (metis set_dropWhileD subsetI)
  obtain sg r where sr: "(case ?s of [] \<Rightarrow> (1 :: int, [])
      | c # cs \<Rightarrow> if c = 0x2D then (-1, cs) else if c = 0x2B then (1, cs) else (1, ?s)) = (sg, r)"
    by (cases "case ?s of [] \<Rightarrow> (1 :: int, [])
      | c # cs \<Rightarrow> if c = 0x2D then (-1, cs) else if c = 0x2B then (1, cs) else (1, ?s)")
  have "set r \<subseteq> set ?s"
  proof (cases ?s)
    case Nil
    then have "r = []" using sr unfolding Nil list.case by simp
    then show ?thesis by simp
  next
    case (Cons c cs)
    have "(if c = 0x2D then (-1 :: int, cs) else if c = 0x2B then (1, cs) else (1, c # cs)) = (sg, r)"
      using sr unfolding Cons list.case .
    then have "r = cs \<or> r = c # cs" by (auto split: if_splits)
    then show ?thesis using Cons by auto
  qed
  then have nx: "\<not> (take 2 r = js ''0x'' \<or> take 2 r = js ''0X'')" using x_in_take2 s assms by blast
  show ?thesis
    unfolding d_parse_int_def parse_int_def Let_def option.case sr prod.case using nx by (simp only: if_False)
qed

end
