(* ===== verification/DesignTransitions.thy ===== *)
theory DesignTransitions
  imports DesignScroll Magnetic
begin

text \<open>
  The page-transition draft of the design document (\<open>src/unnamed/part_000\<close>, section 5,
  lines 1056--1207 with the overlay's stylesheet at 1213--1228): three transitions handed
  to Barba.js, written as object literals that spread a transition object into a literal
  with a name and rules, and a global \<open>after\<close> hook that re-runs the draft's scroll
  initialiser (theory \<open>DesignScroll\<close>). A hook's GSAP calls are descriptions as in
  \<open>DesignScroll\<close>; their effect on the fixed overlay is the CSS state the tweens leave.
  Barba's own behaviour (the navigation data, the choice of a transition by its rules,
  the order of the hooks) is modelled from its documentation.
\<close>

section \<open>Navigation data\<close>

text \<open>
  \<open>data.trigger\<close>: the link that was clicked, the string \<open>'barba'\<close> for a navigation
  started by \<open>barba.go\<close>, or \<open>'popstate'\<close> for the browser's back and forward buttons.
\<close>

record link =
  lk_rect :: rect
  lk_classes :: "jstr list"

datatype trig = TrigLink link | TrigBarba | TrigPopstate

record tr_data =
  td_trigger :: trig
  td_from :: jstr
  td_to :: jstr
  td_current :: nat
  td_next :: nat
  td_win :: "real \<times> real"

section \<open>The transitions' calls\<close>

text \<open>
  A hook's calls: a GSAP tween with its \<open>delay\<close> and the calls of its \<open>onComplete\<close>, or
  \<open>overlay.style.setProperty(name, `${v}px`)\<close>.
\<close>

datatype tr_call = Tween d_tw real "d_tw list" | SetPx jstr real

definition overlay :: d_target where
  "overlay = DT (Sel (js ''.page-transition-overlay''))"

definition tcall :: "d_method \<Rightarrow> d_target \<Rightarrow> (jstr \<times> gval) list \<Rightarrow> real option \<Rightarrow> jstr option \<Rightarrow> d_tw" where
  "tcall m tg vs d e = d_call m tg vs d e None"

definition wipe_leave :: "tr_data \<Rightarrow> js_error + tr_call list" where
  "wipe_leave d = Inr [Tween (tcall MTo overlay [(js ''scaleY'', Num 1), (js ''transformOrigin'', Str (js ''bottom''))]
     (Some 0.6) (Some (js ''power4.inOut''))) 0 []]"

definition wipe_enter :: "tr_data \<Rightarrow> js_error + tr_call list" where
  "wipe_enter d = Inr [Tween (tcall MSet overlay [(js ''transformOrigin'', Str (js ''top''))] None None) 0 [],
     Tween (tcall MTo overlay [(js ''scaleY'', Num 0)] (Some 0.6) (Some (js ''power4.inOut''))) 0.1 []]"

text \<open>
  The centre of the clip: the window's centre, or the trigger's box when the trigger is
  truthy and not \<open>'barba'\<close>. \<open>'popstate'\<close> passes that test and has no
  \<open>getBoundingClientRect\<close>: calling \<open>undefined\<close> throws a \<open>TypeError\<close>.
\<close>

definition clip_origin :: "tr_data \<Rightarrow> js_error + real \<times> real" where
  "clip_origin d =
     (let x = fst (td_win d) / 2; y = snd (td_win d) / 2; t = td_trigger d in
      if t \<noteq> TrigBarba then
        (case t of TrigLink l \<Rightarrow> Inr (r_left (lk_rect l) + r_width (lk_rect l) / 2,
                                      r_top (lk_rect l) + r_height (lk_rect l) / 2)
                 | _ \<Rightarrow> Inl TypeError)
      else Inr (x, y))"

definition clip_leave :: "tr_data \<Rightarrow> js_error + tr_call list" where
  "clip_leave d = (case clip_origin d of Inl e \<Rightarrow> Inl e | Inr (x, y) \<Rightarrow>
     Inr [SetPx (js ''--clip-x'') x, SetPx (js ''--clip-y'') y,
          Tween (tcall MTo overlay [(js ''--clip-radius'', Str (js ''150vmax''))] (Some 0.8) (Some (js ''power3.inOut''))) 0 []])"

definition clip_enter :: "tr_data \<Rightarrow> js_error + tr_call list" where
  "clip_enter d = Inr [Tween (tcall MTo overlay [(js ''opacity'', Num 0)] (Some 0.4) (Some (js ''power2.out''))) 0
     [tcall MSet overlay [(js ''--clip-radius'', Str (js ''0'')), (js ''opacity'', Num 1)] None None]]"

definition slide_leave :: "tr_data \<Rightarrow> js_error + tr_call list" where
  "slide_leave d = Inr [Tween (tcall MTo (DT (El (td_current d))) [(js ''x'', Str (js ''-100%''))] (Some 0.6)
     (Some (js ''power3.inOut''))) 0 []]"

definition slide_enter :: "tr_data \<Rightarrow> js_error + tr_call list" where
  "slide_enter d = Inr [Tween (tcall MSet (DT (El (td_next d))) [(js ''x'', Str (js ''100%''))] None None) 0 [],
     Tween (tcall MTo (DT (El (td_next d))) [(js ''x'', Str (js ''0%''))] (Some 0.6) (Some (js ''power3.inOut''))) 0 []]"

section \<open>Object literals and spread\<close>

text \<open>
  An object literal is the list of its property definitions in source order, a spread
  \<open>...o\<close> contributing \<open>o\<close>'s properties at its place; a later definition of a key
  overwrites an earlier one, so a lookup finds the last.
\<close>

datatype tr_val = VStr jstr | VNs "jstr list" | VRule "tr_data \<Rightarrow> bool" | VHook "tr_data \<Rightarrow> js_error + tr_call list"

type_synonym js_obj = "(jstr \<times> tr_val) list"

definition obj_get :: "js_obj \<Rightarrow> jstr \<Rightarrow> tr_val option" where
  "obj_get ob k = map_of (rev ob) k"

definition wipe_obj :: js_obj where
  "wipe_obj = [(js ''name'', VStr (js ''wipe'')), (js ''leave'', VHook wipe_leave), (js ''enter'', VHook wipe_enter)]"

definition clip_obj :: js_obj where
  "clip_obj = [(js ''name'', VStr (js ''clip'')), (js ''leave'', VHook clip_leave), (js ''enter'', VHook clip_enter)]"

definition slide_obj :: js_obj where
  "slide_obj = [(js ''name'', VStr (js ''slide'')), (js ''leave'', VHook slide_leave), (js ''enter'', VHook slide_enter)]"

text \<open>\<open>trigger.classList?.contains('nav-link')\<close>: a string has no \<open>classList\<close>, so \<open>?.\<close> gives \<open>undefined\<close>.\<close>

definition nav_link_rule :: "tr_data \<Rightarrow> bool" where
  "nav_link_rule d = (case td_trigger d of TrigLink l \<Rightarrow> js ''nav-link'' \<in> set (lk_classes l) | _ \<Rightarrow> False)"

definition default_tr :: js_obj where
  "default_tr = (js ''name'', VStr (js ''default'')) # wipe_obj"

definition project_tr :: js_obj where
  "project_tr = [(js ''name'', VStr (js ''project'')), (js ''from'', VNs [js ''home'', js ''work'']),
     (js ''to'', VNs [js ''project''])] @ clip_obj"

definition navigation_tr :: js_obj where
  "navigation_tr = [(js ''name'', VStr (js ''navigation'')), (js ''custom'', VRule nav_link_rule)] @ slide_obj"

definition barba_transitions :: "js_obj list" where
  "barba_transitions = [default_tr, project_tr, navigation_tr]"

section \<open>Barba's choice of a transition\<close>

text \<open>
  A transition applies when each of its rules holds: the namespace left is among
  \<open>from\<close>, the one entered among \<open>to\<close>, and \<open>custom\<close> returns a truthy value. Barba sorts
  the transitions by priority, a \<open>custom\<close> rule above namespace rules and \<open>from\<close> with
  \<open>to\<close> above either alone, and takes the first that applies.
\<close>

definition ns_rule :: "js_obj \<Rightarrow> jstr \<Rightarrow> jstr \<Rightarrow> bool" where
  "ns_rule t k ns = (case obj_get t k of Some (VNs l) \<Rightarrow> ns \<in> set l | _ \<Rightarrow> True)"

definition tr_applies :: "tr_data \<Rightarrow> js_obj \<Rightarrow> bool" where
  "tr_applies d t \<longleftrightarrow> ns_rule t (js ''from'') (td_from d) \<and> ns_rule t (js ''to'') (td_to d)
     \<and> (case obj_get t (js ''custom'') of Some (VRule f) \<Rightarrow> f d | _ \<Rightarrow> True)"

definition has_key :: "js_obj \<Rightarrow> jstr \<Rightarrow> bool" where
  "has_key t k \<longleftrightarrow> k \<in> fst ` set t"

definition tr_priority :: "js_obj \<Rightarrow> nat" where
  "tr_priority t = (if has_key t (js ''custom'') then 100 else 0)
     + (if has_key t (js ''to'') then 2 else 0) + (if has_key t (js ''from'') then 1 else 0)"

definition barba_transition :: "tr_data \<Rightarrow> js_obj option" where
  "barba_transition d = find (tr_applies d) (rev (sort_key tr_priority barba_transitions))"

section \<open>The overlay\<close>

text \<open>
  The overlay's style: the values a tween or \<open>setProperty\<close> wrote, as GSAP values or
  pixel lengths. The stylesheet starts it with \<open>transform: scaleY(0)\<close>, the custom
  properties \<open>--clip-x\<close>, \<open>--clip-y\<close> at \<open>50%\<close> and \<open>--clip-radius\<close> at \<open>0\<close>, and
  \<open>clip-path: circle(var(--clip-radius) at var(--clip-x) var(--clip-y))\<close>; its opacity
  is the initial 1.
\<close>

datatype ov_val = OV gval | OPx real

type_synonym ostyle = "jstr \<Rightarrow> ov_val option"

definition ov_css :: ostyle where
  "ov_css = [js ''scaleY'' \<mapsto> OV (Num 0), js ''opacity'' \<mapsto> OV (Num 1), js ''--clip-x'' \<mapsto> OV (Str (js ''50%'')),
     js ''--clip-y'' \<mapsto> OV (Str (js ''50%'')), js ''--clip-radius'' \<mapsto> OV (Str (js ''0''))]"

text \<open>
  The state a call leaves: a \<open>to\<close> or \<open>set\<close> on the overlay writes its properties (a
  \<open>to\<close> tween ends at them), then its \<open>onComplete\<close> calls run; calls on other targets
  leave the overlay alone.
\<close>

definition tw_apply :: "d_tw \<Rightarrow> ostyle \<Rightarrow> ostyle" where
  "tw_apply t s = (if dw_targets t = overlay \<and> dw_method t \<noteq> MFrom
     then fold (\<lambda>(k, v) s. s(k \<mapsto> OV v)) (dw_vars t) s else s)"

fun call_apply :: "tr_call \<Rightarrow> ostyle \<Rightarrow> ostyle" where
  "call_apply (Tween t dl oc) s = fold tw_apply oc (tw_apply t s)"
| "call_apply (SetPx k x) s = s(k \<mapsto> OPx x)"

definition run_calls :: "tr_call list \<Rightarrow> ostyle \<Rightarrow> ostyle" where
  "run_calls cs s = fold call_apply cs s"

text \<open>The overlay properties a call moves while it runs, before its \<open>onComplete\<close>.\<close>

fun call_moving :: "tr_call \<Rightarrow> jstr list" where
  "call_moving (Tween t dl oc) = (if dw_targets t = overlay \<and> dw_method t \<noteq> MFrom then map fst (dw_vars t) else [])"
| "call_moving (SetPx k x) = [k]"

text \<open>
  A length, factor or opacity of zero: \<open>0\<close> as a number, the string \<open>'0'\<close> or \<open>0px\<close>. The
  overlay can be seen only if its vertical scale, its clip radius and its opacity are all
  non-zero.
\<close>

definition css_zero :: "ov_val option \<Rightarrow> bool" where
  "css_zero v \<longleftrightarrow> v = Some (OV (Num 0)) \<or> v = Some (OV (Str (js ''0''))) \<or> v = Some (OPx 0)"

definition ov_may_show :: "ostyle \<Rightarrow> bool" where
  "ov_may_show s \<longleftrightarrow> \<not> css_zero (s (js ''scaleY'')) \<and> \<not> css_zero (s (js ''--clip-radius''))
     \<and> \<not> css_zero (s (js ''opacity''))"

section \<open>A navigation\<close>

definition tr_hook :: "js_obj \<Rightarrow> jstr \<Rightarrow> tr_data \<Rightarrow> js_error + tr_call list" where
  "tr_hook t k d = (case obj_get t k of Some (VHook h) \<Rightarrow> h d | _ \<Rightarrow> Inr [])"

text \<open>
  The transition's \<open>leave\<close>, then, once its tween has finished and the next container
  is in the page, its \<open>enter\<close>; a throw in \<open>leave\<close> stops the transition.
\<close>

definition nav_calls :: "tr_data \<Rightarrow> js_error + tr_call list" where
  "nav_calls d = (case barba_transition d of None \<Rightarrow> Inr [] | Some t \<Rightarrow>
     (case tr_hook t (js ''leave'') d of Inl e \<Rightarrow> Inl e | Inr ls \<Rightarrow>
       (case tr_hook t (js ''enter'') d of Inl e \<Rightarrow> Inl e | Inr es \<Rightarrow> Inr (ls @ es))))"

text \<open>The views' \<open>afterEnter\<close> hooks: the initialisers each namespace calls.\<close>

definition view_after_enter :: "jstr \<Rightarrow> jstr list" where
  "view_after_enter ns = (if ns = js ''home'' then [js ''initHeroAnimations'']
     else if ns = js ''project'' then [js ''initProjectAnimations''] else [])"

text \<open>
  \<open>barba.hooks.after\<close>: \<open>ScrollTrigger.refresh()\<close> recomputes the live triggers'
  positions and removes none, then \<open>initScrollAnimations()\<close> creates the new page's.
\<close>

definition barba_after :: "d_scroll_page \<Rightarrow> d_tw list \<Rightarrow> d_tw list" where
  "barba_after pg live = live @ d_init_scroll pg"

record tr_world =
  tw_overlay :: ostyle
  tw_ns :: jstr
  tw_live :: "d_tw list"
  tw_inits :: "jstr list"

text \<open>
  One navigation to the page \<open>pg\<close> of namespace \<open>td_to d\<close>, leaving the current
  namespace: the transition's calls, the view's \<open>afterEnter\<close>, then the \<open>after\<close> hook.
\<close>

definition barba_nav :: "tr_data \<Rightarrow> d_scroll_page \<Rightarrow> tr_world \<Rightarrow> tr_world completion" where
  "barba_nav d pg w = (let d' = d\<lparr>td_from := tw_ns w\<rparr> in
     case nav_calls d' of Inl e \<Rightarrow> Inl (e, w) | Inr cs \<Rightarrow>
       Inr (w\<lparr>tw_overlay := run_calls cs (tw_overlay w), tw_ns := td_to d,
              tw_live := barba_after pg (tw_live w), tw_inits := tw_inits w @ view_after_enter (td_to d)\<rparr>))"

definition tr_init :: "jstr \<Rightarrow> d_scroll_page \<Rightarrow> tr_world" where
  "tr_init ns pg = \<lparr>tw_overlay = ov_css, tw_ns = ns, tw_live = d_init_scroll pg, tw_inits = []\<rparr>"

inductive tr_reach :: "tr_world \<Rightarrow> bool" where
  start: "tr_reach (tr_init ns pg)"
| nav: "tr_reach w \<Longrightarrow> barba_nav d pg w = Inr w' \<Longrightarrow> tr_reach w'"


text \<open>
  The overlay at rest between navigations: its vertical scale and its clip radius are
  zero. \<open>calls_hidden s cs\<close>: at every moment of the calls \<open>cs\<close> from \<open>s\<close>, whatever
  values the moving properties of the running call have reached, the overlay cannot be
  seen. \<open>nav_run\<close>: a run of navigations, stopping at the first throw.
\<close>
definition ov_rest :: "ostyle \<Rightarrow> bool" where
  "ov_rest s \<longleftrightarrow> css_zero (s (js ''scaleY'')) \<and> css_zero (s (js ''--clip-radius''))"

fun nav_run :: "(tr_data \<times> d_scroll_page) list \<Rightarrow> tr_world \<Rightarrow> tr_world completion" where
  "nav_run [] w = Inr w"
| "nav_run ((d, pg) # ns) w = (case barba_nav d pg w of Inl e \<Rightarrow> Inl e | Inr w' \<Rightarrow> nav_run ns w')"

definition calls_hidden :: "ostyle \<Rightarrow> tr_call list \<Rightarrow> bool" where
  "calls_hidden s cs \<longleftrightarrow> (\<forall>i < length cs. \<forall>f.
     \<not> ov_may_show (override_on (run_calls (take i cs) s) f (set (call_moving (cs ! i)))))"

section \<open>Properties\<close>

lemma calls_hidden_append:
  assumes "calls_hidden s xs" "calls_hidden (run_calls xs s) ys"
  shows "calls_hidden s (xs @ ys)"
  unfolding calls_hidden_def
proof (intro allI impI)
  fix i f assume i: "i < length (xs @ ys)"
  show "\<not> ov_may_show (override_on (run_calls (take i (xs @ ys)) s) f (set (call_moving ((xs @ ys) ! i))))"
  proof (cases "i < length xs")
    case True thus ?thesis using assms(1) by (simp add: calls_hidden_def nth_append)
  next
    case False
    hence "i - length xs < length ys" using i by simp
    thus ?thesis using assms(2) False
      by (simp add: calls_hidden_def nth_append run_calls_def)
  qed
qed

lemma calls_hidden_Cons:
  "calls_hidden s (c # cs) \<longleftrightarrow> (\<forall>f. \<not> ov_may_show (override_on s f (set (call_moving c))))
     \<and> calls_hidden (call_apply c s) cs"
  by (auto simp: calls_hidden_def run_calls_def less_Suc_eq_0_disj)

lemma calls_hidden_Nil [simp]: "calls_hidden s []"
  by (simp add: calls_hidden_def)

lemmas ov_simps = ov_may_show_def css_zero_def override_on_def overlay_def tcall_def d_call_def tw_apply_def

lemma wipe_hidden:
  assumes "ov_rest s"
  shows "calls_hidden s (projr (wipe_leave d) @ projr (wipe_enter d))
    \<and> ov_rest (run_calls (projr (wipe_leave d) @ projr (wipe_enter d)) s)"
  using assms by (simp add: wipe_leave_def wipe_enter_def calls_hidden_Cons run_calls_def ov_rest_def ov_simps)


lemma clip_hidden:
  assumes "ov_rest s" "clip_leave d = Inr ls"
  shows "calls_hidden s (ls @ projr (clip_enter d)) \<and> ov_rest (run_calls (ls @ projr (clip_enter d)) s)"
proof -
  have ls: "ls = projr (clip_leave d)" using assms(2) by simp
  obtain x y where "clip_origin d = Inr (x, y)"
    using assms(2) by (cases "clip_origin d") (auto simp: clip_leave_def)
  thus ?thesis using assms(1) unfolding ls
    by (simp add: clip_leave_def clip_enter_def calls_hidden_Cons run_calls_def ov_rest_def ov_simps)
qed

lemma slide_hidden:
  assumes "ov_rest s"
  shows "calls_hidden s (projr (slide_leave d) @ projr (slide_enter d))
    \<and> ov_rest (run_calls (projr (slide_leave d) @ projr (slide_enter d)) s)"
  using assms by (simp add: slide_leave_def slide_enter_def calls_hidden_Cons run_calls_def ov_rest_def ov_simps)

lemmas tr_obj_defs = default_tr_def project_tr_def navigation_tr_def wipe_obj_def clip_obj_def slide_obj_def

text \<open>
  The spread comes after the literal's \<open>name\<close>, so each transition keeps the name of the
  object spread into it: Barba sees \<open>wipe\<close>, \<open>clip\<close> and \<open>slide\<close>, never \<open>default\<close>,
  \<open>project\<close> or \<open>navigation\<close>.
\<close>

lemma transition_names:
  "map (\<lambda>t. obj_get t (js ''name'')) barba_transitions
   = [Some (VStr (js ''wipe'')), Some (VStr (js ''clip'')), Some (VStr (js ''slide''))]"
  by (simp add: barba_transitions_def tr_obj_defs obj_get_def)

lemma barba_order: "rev (sort_key tr_priority barba_transitions) = [navigation_tr, project_tr, default_tr]"
  by (simp add: barba_transitions_def tr_obj_defs tr_priority_def has_key_def)

lemma applies_navigation: "tr_applies d navigation_tr = nav_link_rule d"
  by (simp add: tr_applies_def ns_rule_def obj_get_def tr_obj_defs)

lemma applies_project: "tr_applies d project_tr \<longleftrightarrow> td_from d \<in> {js ''home'', js ''work''} \<and> td_to d = js ''project''"
  by (simp add: tr_applies_def ns_rule_def obj_get_def tr_obj_defs)

lemma applies_default: "tr_applies d default_tr"
  by (simp add: tr_applies_def ns_rule_def obj_get_def tr_obj_defs)

text \<open>
  The transition Barba runs: the slide for a link of class \<open>nav-link\<close>, whatever the
  namespaces; otherwise the clip from the home or work pages to a project; otherwise the
  wipe.
\<close>

lemma barba_transition_eq:
  "barba_transition d = Some (if nav_link_rule d then navigation_tr
     else if td_from d \<in> {js ''home'', js ''work''} \<and> td_to d = js ''project'' then project_tr else default_tr)"
  unfolding barba_transition_def barba_order
  by (simp only: find.simps applies_navigation applies_project applies_default if_True) simp

lemma nav_calls_eq:
  "nav_calls d = (if nav_link_rule d then Inr (projr (slide_leave d) @ projr (slide_enter d))
     else if td_from d \<in> {js ''home'', js ''work''} \<and> td_to d = js ''project''
     then (case clip_leave d of Inl e \<Rightarrow> Inl e | Inr ls \<Rightarrow> Inr (ls @ projr (clip_enter d)))
     else Inr (projr (wipe_leave d) @ projr (wipe_enter d)))"
  unfolding nav_calls_def barba_transition_eq
  by (simp add: tr_hook_def obj_get_def tr_obj_defs slide_leave_def slide_enter_def wipe_leave_def
      wipe_enter_def clip_enter_def split: sum.split)

lemma nav_hidden:
  assumes "ov_rest s" "nav_calls d = Inr cs"
  shows "calls_hidden s cs \<and> ov_rest (run_calls cs s)"
  using assms clip_hidden[OF assms(1)] slide_hidden[OF assms(1)] wipe_hidden[OF assms(1)]
  by (auto simp: nav_calls_eq split: if_splits sum.splits)

lemma tr_reach_rest: "tr_reach w \<Longrightarrow> ov_rest (tw_overlay w)"
proof (induction rule: tr_reach.induct)
  case (start ns pg) thus ?case by (simp add: tr_init_def ov_css_def ov_rest_def css_zero_def)
next
  case (nav w d pg w')
  thus ?case using nav_hidden by (auto simp: barba_nav_def Let_def split: sum.splits)
qed

text \<open>
  The overlay never shows. At rest its scale and its clip radius are zero; the wipe
  grows the scale with the radius still zero, the clip grows the radius with the scale
  still zero and resets it before the next navigation, and the slide does not touch the
  overlay. So at every moment of every navigation, midway through each tween included,
  one factor is zero: neither overlay transition covers the page swap.
\<close>

lemma overlay_never_shows:
  assumes "tr_reach w" "nav_calls (d\<lparr>td_from := tw_ns w\<rparr>) = Inr cs" "i < length cs"
  shows "\<not> ov_may_show (override_on (run_calls (take i cs) (tw_overlay w)) f (set (call_moving (cs ! i))))"
  using nav_hidden[OF tr_reach_rest[OF assms(1)] assms(2)] assms(3) by (simp add: calls_hidden_def)

lemma rest_hidden: "tr_reach w \<Longrightarrow> \<not> ov_may_show (tw_overlay w)"
  using tr_reach_rest by (simp add: ov_rest_def ov_may_show_def)

text \<open>
  Back and forward navigation from the home or work pages to a project page takes the
  clip transition, whose \<open>leave\<close> calls \<open>getBoundingClientRect\<close> on the string
  \<open>'popstate'\<close>: the transition throws before any of its calls.
\<close>

lemma popstate_to_project_throws:
  assumes "td_trigger d = TrigPopstate" "tw_ns w \<in> {js ''home'', js ''work''}" "td_to d = js ''project''"
  shows "barba_nav d pg w = Inl (TypeError, w)"
  using assms by (simp add: barba_nav_def nav_calls_eq nav_link_rule_def clip_leave_def clip_origin_def)

lemma nav_run_live:
  "nav_run ns w = Inr w' \<Longrightarrow> tw_live w' = tw_live w @ concat (map (d_init_scroll \<circ> snd) ns)"
proof (induction ns arbitrary: w)
  case (Cons n ns)
  obtain d pg where n: "n = (d, pg)" by (cases n)
  then obtain w1 where "barba_nav d pg w = Inr w1" "nav_run ns w1 = Inr w'"
    using Cons.prems by (auto split: sum.splits)
  thus ?case using Cons.IH by (auto simp: n barba_nav_def barba_after_def Let_def split: sum.splits)
qed simp

lemma progress_tweens:
  "filter ((=) (d_progress p)) (d_init_scroll pg) = (if dsp_progress pg = Some p then [d_progress p] else [])"
proof -
  have pass: "\<And>k f els. (\<And>e. d_progress p \<notin> set (f e)) \<Longrightarrow> filter ((=) (d_progress p)) (d_pass k f els) = []"
    by (force simp: d_pass_def filter_empty_conv)
  have ne: "d_progress p \<noteq> d_fade_up e" "d_progress p \<noteq> d_stagger e" "d_progress p \<noteq> d_text_reveal e"
    "d_progress p \<noteq> d_parallax sp e" "d_progress p \<noteq> d_counter e ca" "d_progress p \<noteq> d_horizontal c n w"
    "d_progress p \<noteq> d_image_reveal e" for e sp ca c n w
    by (simp_all add: d_progress_def d_fade_up_def d_stagger_def d_text_reveal_def d_parallax_def d_counter_def
        d_horizontal_def d_image_reveal_def d_call_def)
  have svg: "d_progress p \<notin> set (d_svg_draw s ls)" for s ls
    by (auto simp: d_svg_draw_def d_progress_def d_call_def)
  have inj: "d_progress p = d_progress q \<longleftrightarrow> p = q" for q
    by (simp add: d_progress_def d_call_def)
  show ?thesis
    by (auto simp: d_init_scroll_def pass ne svg inj filter_empty_conv split: option.split)
qed

text \<open>
  The \<open>after\<close> hook never kills a trigger: after \<open>n\<close> navigations between pages that
  share a progress bar outside the Barba container, \<open>n + 1\<close> scrubbed tweens drive it.
\<close>

lemma progress_accumulates:
  assumes "nav_run ns (tr_init ns0 pg0) = Inr w" "\<forall>pg \<in> set (pg0 # map snd ns). dsp_progress pg = Some p"
  shows "length (filter ((=) (d_progress p)) (tw_live w)) = Suc (length ns)"
proof -
  have "length (filter ((=) (d_progress p)) (concat (map d_init_scroll pgs))) = length pgs"
    if "\<forall>pg \<in> set pgs. dsp_progress pg = Some p" for pgs
    using that by (induction pgs) (simp_all add: progress_tweens)
  from this[of "pg0 # map snd ns"] show ?thesis
    using nav_run_live[OF assms(1)] assms(2) by (simp add: tr_init_def comp_def)
qed

text \<open>
  From the home page, the browser's forward button to a project page (after going back
  from it) throws in the clip transition's \<open>leave\<close>.
\<close>

lemma popstate_example:
  "barba_nav \<lparr>td_trigger = TrigPopstate, td_from = js ''home'', td_to = js ''project'', td_current = 0, td_next = 1,
      td_win = (1280, 720)\<rparr> pg (tr_init (js ''home'') pg)
   = Inl (TypeError, tr_init (js ''home'') pg)"
  by (rule popstate_to_project_throws) (simp_all add: tr_init_def)

end
