(* ===== verification/DesignParticles.thy ===== *)
theory DesignParticles
  imports DesignScroll
begin

text \<open>
  The particle background of the design document (\<open>src/unnamed/part_000\<close>, section 6.5,
  lines 1466--1560): \<open>ParticleBackground\<close> fills a \<open>Float32Array\<close> with 6000 random
  coordinates, follows the pointer and rotates the point cloud in a frame loop. three.js is
  modelled as the state the code writes into it (renderer size and pixel ratio, camera
  aspect and position, the cloud's rotation) and the number of frames rendered. The
  coordinates are computed as the engine does: \<open>Math.random() - 0.5\<close> is exact, the
  product by \<open>10\<close> rounds to a double and the store rounds to a single-precision float,
  both to nearest with ties to even; the values lie far inside both formats' exponent
  ranges, so only the significand is rounded. The rotation's additions are exact reals.
\<close>

section \<open>Rounding\<close>

fun nbits :: "nat \<Rightarrow> nat" where
  "nbits n = (if n = 0 then 0 else Suc (nbits (n div 2)))"

declare nbits.simps [simp del]

text \<open>\<open>n\<close> rounded to a multiple of \<open>2^s\<close>, to nearest with ties to even.\<close>

definition round_at :: "nat \<Rightarrow> nat \<Rightarrow> nat" where
  "round_at s n = (let q = n div 2 ^ s; r = n mod 2 ^ s in
     if 2 ^ s < 2 * r \<or> (2 * r = 2 ^ s \<and> odd q) then (q + 1) * 2 ^ s else q * 2 ^ s)"

text \<open>The integer \<open>n\<close> rounded to \<open>p\<close> significant bits.\<close>

definition round_sig :: "nat \<Rightarrow> int \<Rightarrow> int" where
  "round_sig p n = (let m = nat \<bar>n\<bar>; r = int (round_at (nbits m - p) m) in if n < 0 then - r else r)"

text \<open>
  \<open>positions[i] = (Math.random() - 0.5) * 10\<close> for the draw \<open>k / 2^53\<close>: the exact value
  is \<open>10 (k - 2^52) / 2^53\<close>; a double keeps 53 significant bits, a float 24.
\<close>

definition particle_coord :: "rand53 \<Rightarrow> real" where
  "particle_coord k = real_of_int (round_sig 24 (round_sig 53 (10 * (int (unat k) - 2 ^ 52)))) / 2 ^ 53"

text \<open>The loop \<open>for (let i = 0; i < count * 3; i++)\<close>, one draw per coordinate.\<close>

fun gen_positions :: "nat \<Rightarrow> 'cb host \<Rightarrow> real list \<times> 'cb host" where
  "gen_positions 0 h = ([], h)"
| "gen_positions (Suc n) h =
     (let (k, h1) = math_random h; (ps, h2) = gen_positions n h1 in (particle_coord k # ps, h2))"

section \<open>The particle background\<close>

text \<open>The window's inner size and device pixel ratio.\<close>

record pwin =
  pw_width :: real
  pw_height :: real
  pw_dpr :: real

datatype pcb = PAnimate

record particle_bg =
  pb_container :: nat
  pb_aspect :: jsnum
  pb_size :: "real \<times> real"
  pb_pixel_ratio :: real
  pb_canvas :: bool
  pb_positions :: "real list"
  pb_color :: nat
  pb_point_size :: real
  pb_opacity :: real
  pb_cam_z :: real
  pb_rot :: "real \<times> real"
  pb_mouse :: "real \<times> real"
  pb_listening :: bool
  pb_renders :: nat

type_synonym pworld = "particle_bg \<times> pcb host"

text \<open>
  \<open>animate()\<close>: request the next frame, add the constant spin and the pointer's
  influence to the rotation, render.
\<close>

definition p_animate :: "particle_bg \<Rightarrow> pcb host \<Rightarrow> pworld" where
  "p_animate p h =
     (let (_, h1) = request_frame PAnimate h;
          (rx, ry) = pb_rot p; rx1 = rx + 0.0003; ry1 = ry + 0.0005;
          rx2 = rx1 + snd (pb_mouse p) * 0.0005; ry2 = ry1 + fst (pb_mouse p) * 0.0005
      in (p\<lparr>pb_rot := (rx2, ry2), pb_renders := Suc (pb_renders p)\<rparr>, h1))"

text \<open>
  The constructor, then \<open>init()\<close>: the renderer's size and pixel ratio, the canvas appended,
  2000 points of three coordinates, the material, the camera at \<open>z = 3\<close>, the listeners,
  and the first \<open>animate()\<close>.
\<close>

definition p_count :: nat where
  "p_count = 2000"

definition new_particles :: "nat \<Rightarrow> pwin \<Rightarrow> pcb host \<Rightarrow> pworld" where
  "new_particles c w h =
     (let (ps, h1) = gen_positions (p_count * 3) h
      in p_animate \<lparr>pb_container = c, pb_aspect = js_div (pw_width w) (pw_height w),
           pb_size = (pw_width w, pw_height w), pb_pixel_ratio = min (pw_dpr w) 2, pb_canvas = True,
           pb_positions = ps, pb_color = 0xC9A962, pb_point_size = 0.02, pb_opacity = 0.8, pb_cam_z = 3,
           pb_rot = (0, 0), pb_mouse = (0, 0), pb_listening = True, pb_renders = 0\<rparr> h1)"

definition p_on_resize :: "pwin \<Rightarrow> particle_bg \<Rightarrow> particle_bg" where
  "p_on_resize w p = p\<lparr>pb_aspect := js_div (pw_width w) (pw_height w), pb_size := (pw_width w, pw_height w)\<rparr>"

text \<open>
  \<open>onMouseMove\<close>, for a window with a pointer in it, whose inner size is positive: the
  pointer in normalised device coordinates, \<open>y\<close> upwards.
\<close>

definition p_on_mouse_move :: "real \<Rightarrow> real \<Rightarrow> pwin \<Rightarrow> particle_bg \<Rightarrow> particle_bg" where
  "p_on_mouse_move cx cy w p = p\<lparr>pb_mouse := (cx / pw_width w * 2 - 1, - (cy / pw_height w) * 2 + 1)\<rparr>"

datatype p_event = PResize pwin | PMouse real real pwin | PFrame

fun p_step :: "p_event \<Rightarrow> pworld \<Rightarrow> pworld" where
  "p_step (PResize w) (p, h) = (p_on_resize w p, h)"
| "p_step (PMouse x y w) (p, h) = (p_on_mouse_move x y w p, h)"
| "p_step PFrame (p, h) = (case frames h of [] \<Rightarrow> (p, h) | (i, PAnimate) # fs \<Rightarrow> p_animate p (h\<lparr>frames := fs\<rparr>))"

text \<open>\<open>if (particleContainer) new ParticleBackground(particleContainer)\<close>.\<close>

definition init_particles :: "nat option \<Rightarrow> pwin \<Rightarrow> pcb host \<Rightarrow> pworld option" where
  "init_particles c w h = (case c of None \<Rightarrow> None | Some e \<Rightarrow> Some (new_particles e w h))"

text \<open>Worlds reached from a page with the pointer, when it moves, inside the window.\<close>

definition in_window :: "p_event \<Rightarrow> bool" where
  "in_window ev = (case ev of PMouse x y w \<Rightarrow> 0 \<le> x \<and> x \<le> pw_width w \<and> 0 \<le> y \<and> y \<le> pw_height w
     \<and> 0 < pw_width w \<and> 0 < pw_height w | _ \<Rightarrow> True)"

inductive p_reach :: "pworld \<Rightarrow> bool" where
  init: "p_reach (new_particles c w (page_host rnd))"
| step: "p_reach pw \<Longrightarrow> in_window ev \<Longrightarrow> p_reach (p_step ev pw)"

section \<open>Properties\<close>

lemma nbits_le: "n < 2 ^ b \<Longrightarrow> nbits n \<le> b"
proof (induction b arbitrary: n)
  case 0 thus ?case by (simp add: nbits.simps)
next
  case (Suc b)
  hence "n div 2 < 2 ^ b" by simp
  with Suc.IH show ?case by (subst nbits.simps) simp
qed

lemma round_at_le:
  assumes "2 ^ s dvd M" "n \<le> M"
  shows "round_at s n \<le> M"
proof -
  obtain Q where M: "M = Q * 2 ^ s" using assms(1) by (auto elim: dvdE simp: mult.commute)
  have q: "n div 2 ^ s \<le> Q" using div_le_mono[OF assms(2), of "2 ^ s"] M by simp
  have low: "n div 2 ^ s * 2 ^ s \<le> n" by simp
  show ?thesis
  proof (cases "n div 2 ^ s < Q")
    case True
    hence "(n div 2 ^ s + 1) * 2 ^ s \<le> M" unfolding M by (intro mult_le_mono1) simp
    thus ?thesis using low assms(2) by (auto simp: round_at_def Let_def)
  next
    case False
    hence "n div 2 ^ s = Q" using q by simp
    hence "n = M" using low assms(2) M by simp
    hence "n mod 2 ^ s = 0" using assms(1) by simp
    thus ?thesis using le_trans[OF low assms(2)] by (simp add: round_at_def Let_def)
  qed
qed

text \<open>Rounding to at least three bits never leaves \<open>[-5 * 2^53, 5 * 2^53]\<close>, whose ends are representable.\<close>

lemma round_sig_bound:
  assumes "\<bar>n\<bar> \<le> 5 * 2 ^ 53" "3 \<le> p"
  shows "\<bar>round_sig p n\<bar> \<le> 5 * 2 ^ 53"
proof -
  let ?m = "nat \<bar>n\<bar>"
  have m: "?m \<le> 5 * 2 ^ 53" using assms(1) by (simp add: nat_le_iff)
  hence "?m < 2 ^ 56" by simp
  hence "nbits ?m - p \<le> 53" using nbits_le assms(2) by fastforce
  hence "(2::nat) ^ (nbits ?m - p) dvd 2 ^ 53" by (rule le_imp_power_dvd)
  hence "(2::nat) ^ (nbits ?m - p) dvd 5 * 2 ^ 53" by (rule dvd_mult)
  hence "round_at (nbits ?m - p) ?m \<le> 5 * 2 ^ 53" using round_at_le m by blast
  hence r: "int (round_at (nbits ?m - p) ?m) \<le> int (5 * 2 ^ 53)" by (simp only: of_nat_le_iff)
  have e: "\<bar>round_sig p n\<bar> = int (round_at (nbits ?m - p) ?m)" by (simp add: round_sig_def Let_def)
  show ?thesis using r unfolding e by simp
qed

text \<open>Every stored coordinate lies in \<open>[-5, 5]\<close>.\<close>

lemma particle_coord_bounds: "- 5 \<le> particle_coord k \<and> particle_coord k \<le> 5"
proof -
  have "unat k < 2 ^ 53" using unsigned_less[of k] by simp
  hence "int (unat k) < int (2 ^ 53)" by (simp only: of_nat_less_iff)
  hence xlt: "int (unat k) < 2 ^ 53" by simp
  have x0: "0 \<le> int (unat k)" by simp
  have "\<bar>10 * (int (unat k) - 2 ^ 52)\<bar> \<le> 5 * 2 ^ 53"
    unfolding abs_le_iff using x0 xlt by simp
  hence "\<bar>round_sig 24 (round_sig 53 (10 * (int (unat k) - 2 ^ 52)))\<bar> \<le> 5 * 2 ^ 53"
    by (intro round_sig_bound) simp_all
  hence "real_of_int \<bar>round_sig 24 (round_sig 53 (10 * (int (unat k) - 2 ^ 52)))\<bar> \<le> real_of_int (5 * 2 ^ 53)"
    by (simp only: of_int_le_iff)
  hence "\<bar>real_of_int (round_sig 24 (round_sig 53 (10 * (int (unat k) - 2 ^ 52))))\<bar> \<le> 5 * 2 ^ 53"
    by simp
  thus ?thesis unfolding particle_coord_def by (simp add: abs_le_iff divide_le_eq le_divide_eq)
qed

text \<open>The loop takes the next \<open>n\<close> draws in order.\<close>

lemma gen_positions_eq:
  "gen_positions n h = (map (\<lambda>i. particle_coord (rand h (rand_pos h + i))) [0..<n], h\<lparr>rand_pos := rand_pos h + n\<rparr>)"
proof (induction n arbitrary: h)
  case (Suc n)
  show ?case
    by (simp add: Suc.IH math_random_def map_upt_Suc del: upt_Suc)
qed simp

lemma p_animate_frames: "frames (snd (p_animate p h)) = frames h @ [(handle_next h, PAnimate)]"
  by (simp add: p_animate_def request_frame_def split: prod.split)

lemma new_particles_frames: "frames (snd (new_particles c w (page_host rnd))) = [(1, PAnimate)]"
  by (simp add: new_particles_def gen_positions_eq page_host_def p_animate_frames split: prod.split)

text \<open>
  The frame loop never stops and never doubles: in every reachable world exactly one
  \<open>animate\<close> frame is pending (the class has no \<open>destroy\<close> and never cancels it).
\<close>

lemma p_reach_frame: "p_reach (p, h) \<Longrightarrow> \<exists>i. frames h = [(i, PAnimate)]"
proof (induction "(p, h)" arbitrary: p h rule: p_reach.induct)
  case (init c w rnd)
  hence "new_particles c w (page_host rnd) = (p, h)" by simp
  thus ?case using new_particles_frames[of c w rnd] by (metis snd_conv)
next
  case (step pw ev)
  obtain p0 h0 where pw: "pw = (p0, h0)" by (cases pw)
  with step obtain i where fr: "frames h0 = [(i, PAnimate)]" by blast
  have eq: "p_step ev (p0, h0) = (p, h)" using step pw by simp
  show ?case
  proof (cases ev)
    case PFrame
    hence "h = snd (p_animate p0 (h0\<lparr>frames := []\<rparr>))" using eq fr by (metis p_step.simps(3) list.simps(5) case_prod_conv pcb.case snd_conv)
    thus ?thesis using p_animate_frames by simp
  qed (use eq fr in \<open>auto simp: p_on_resize_def p_on_mouse_move_def\<close>)
qed

lemma unit_ratio: "0 \<le> x \<Longrightarrow> x \<le> a \<Longrightarrow> 0 < a \<Longrightarrow> \<bar>x / a * 2 - 1\<bar> \<le> (1::real)"
  by (simp add: abs_le_iff divide_le_eq_1 pos_divide_le_eq)

text \<open>While the pointer stays in the window, its normalised coordinates stay in \<open>[-1, 1]\<close>.\<close>

lemma p_reach_mouse: "p_reach (p, h) \<Longrightarrow> \<bar>fst (pb_mouse p)\<bar> \<le> 1 \<and> \<bar>snd (pb_mouse p)\<bar> \<le> 1"
proof (induction "(p, h)" arbitrary: p h rule: p_reach.induct)
  case (init c w rnd)
  hence "new_particles c w (page_host rnd) = (p, h)" by simp
  thus ?case by (auto simp: new_particles_def p_animate_def request_frame_def split: prod.splits)
next
  case (step pw ev)
  obtain p0 h0 where pw: "pw = (p0, h0)" by (cases pw)
  with step have m: "\<bar>fst (pb_mouse p0)\<bar> \<le> 1 \<and> \<bar>snd (pb_mouse p0)\<bar> \<le> 1" by blast
  have eq: "p_step ev (p0, h0) = (p, h)" using step pw by simp
  show ?case
  proof (cases ev)
    case (PMouse x y w)
    hence "\<bar>x / pw_width w * 2 - 1\<bar> \<le> 1" "\<bar>y / pw_height w * 2 - 1\<bar> \<le> 1"
      using step.hyps(3) unit_ratio[of x "pw_width w"] unit_ratio[of y "pw_height w"] by (simp_all add: in_window_def)
    thus ?thesis using eq PMouse by (auto simp: p_on_mouse_move_def)
  next
    case PFrame
    thus ?thesis using eq m
      by (auto simp: p_animate_def request_frame_def split: list.splits prod.splits pcb.splits)
  qed (use eq m in \<open>auto simp: p_on_resize_def\<close>)
qed

lemma p_reach_PFrame: "p_reach (p, h) \<Longrightarrow> p_step PFrame (p, h) = p_animate p (h\<lparr>frames := []\<rparr>)"
  using p_reach_frame by fastforce

text \<open>
  The spin about \<open>y\<close> (\<open>0.0005\<close> a frame) outweighs the pointer's influence
  (\<open>0.0005\<close> times at least \<open>-1\<close>): no event turns the cloud back about \<open>y\<close>.
\<close>

lemma rot_y_monotone:
  assumes "p_reach (p, h)"
  shows "snd (pb_rot p) \<le> snd (pb_rot (fst (p_step ev (p, h))))"
proof (cases ev)
  case PFrame
  have "- 1 \<le> fst (pb_mouse p)" using p_reach_mouse[OF assms] by linarith
  thus ?thesis using PFrame p_reach_PFrame[OF assms]
    by (simp add: p_animate_def request_frame_def split: prod.split)
qed (simp_all add: p_on_resize_def p_on_mouse_move_def)

text \<open>\<open>n\<close> frames with the pointer at rest: the rotation advances linearly and every frame renders.\<close>

lemma p_frames_closed_form:
  assumes "p_reach (p, h)"
  shows "pb_rot (fst ((p_step PFrame ^^ n) (p, h)))
           = (fst (pb_rot p) + n * (0.0003 + snd (pb_mouse p) * 0.0005),
              snd (pb_rot p) + n * (0.0005 + fst (pb_mouse p) * 0.0005))
         \<and> pb_renders (fst ((p_step PFrame ^^ n) (p, h))) = pb_renders p + n
         \<and> pb_mouse (fst ((p_step PFrame ^^ n) (p, h))) = pb_mouse p"
  using assms
proof (induction n arbitrary: p h)
  case (Suc n)
  obtain p1 h1 where 1: "p_step PFrame (p, h) = (p1, h1)" by (cases "p_step PFrame (p, h)")
  have r1: "p_reach (p1, h1)" using p_reach.step[OF Suc.prems, of PFrame] 1 by (simp add: in_window_def)
  have "pb_rot p1 = (fst (pb_rot p) + (0.0003 + snd (pb_mouse p) * 0.0005),
                     snd (pb_rot p) + (0.0005 + fst (pb_mouse p) * 0.0005))"
       "pb_renders p1 = Suc (pb_renders p)" "pb_mouse p1 = pb_mouse p"
    using 1 p_reach_PFrame[OF Suc.prems] by (auto simp: p_animate_def request_frame_def split: prod.splits)
  thus ?case using Suc.IH[OF r1] 1 by (simp add: funpow_Suc_right add_divide_distrib algebra_simps del: funpow.simps)
qed simp

text \<open>
  The bounds are reached: the draw \<open>0\<close> stores \<open>-5\<close> and the largest draw
  \<open>1 - 2^-53\<close> stores exactly \<open>5\<close>, since \<open>5 - 10 * 2^-53\<close> rounds up to \<open>5\<close> as a
  float. The expression's half-open range \<open>[-5, 5)\<close> is closed by the store.
\<close>

lemma particle_coord_min: "particle_coord 0 = - 5"
  by code_simp

lemma particle_coord_max: "particle_coord (- 1) = 5"
  by code_simp

text \<open>The constructor stores 6000 coordinates, one per draw, all in \<open>[-5, 5]\<close>.\<close>

lemma new_particles_positions:
  "pb_positions (fst (new_particles c w h)) = map (\<lambda>i. particle_coord (rand h (rand_pos h + i))) [0..<6000]
   \<and> (\<forall>x \<in> set (pb_positions (fst (new_particles c w h))). - 5 \<le> x \<and> x \<le> 5)"
  using particle_coord_bounds
  by (simp add: new_particles_def gen_positions_eq p_animate_def p_count_def request_frame_def split: prod.split)

end
