(* ===== verification/Css.thy ===== *)
theory Css
  imports Pointer
begin

text \<open>
  The part of the CSS cascade the design document's stylesheets rely on
  (\<open>src/unnamed/part_000\<close>, sections 1.3 and 7), modelled from the Selectors and
  Cascading specifications. Names, tokens and pseudo-classes are the stylesheet's ASCII text, as HOL strings;
  attribute values are the strings a script writes. A value is kept as the stylesheet writes it: a pixel length, a
  number, any other token as its source text, a \<open>transition\<close> list of properties with
  their durations, the \<open>translate(x px, y px)\<close> a script writes, or a \<open>rotateY(a deg)\<close>. A selector is read from its subject leftwards: the subject's compound
  selector, then each combinator with the compound to its left. An element knows its
  classes, attributes, the pseudo-classes it is in, its position among its siblings, its
  parent and its previous sibling. The declared value of a property is the one of the
  matching declaration that is \<open>!important\<close>, then inline, then of the highest
  specificity, the later in source order among equals.
\<close>

datatype css_val = CPx real | CNum real | CTok string | CTrans "(string \<times> real) list" | CTranslate real real
  | CRotateY real

datatype simple = Cls string | AttrHas string | AttrEq string jstr | PClass string | NotPClass string | NthChild nat

record compound =
  cp_simple :: "simple list"
  cp_pseudo :: "string option"

datatype comb = Desc | Adj

type_synonym selector = "compound \<times> (comb \<times> compound) list"

record node =
  nd_classes :: "string list"
  nd_attrs :: "(string \<times> jstr) list"
  nd_pcs :: "string list"
  nd_index :: nat

text \<open>An element: its node, its parent and its previous element sibling.\<close>

datatype el = El node "el option" "el option"

primrec el_node :: "el \<Rightarrow> node" where
  "el_node (El n p s) = n"

fun simple_ok :: "node \<Rightarrow> simple \<Rightarrow> bool" where
  "simple_ok n (Cls c) = (c \<in> set (nd_classes n))"
| "simple_ok n (AttrHas a) = (map_of (nd_attrs n) a \<noteq> None)"
| "simple_ok n (AttrEq a v) = (map_of (nd_attrs n) a = Some v)"
| "simple_ok n (PClass p) = (p \<in> set (nd_pcs n))"
| "simple_ok n (NotPClass p) = (p \<notin> set (nd_pcs n))"
| "simple_ok n (NthChild k) = (nd_index n = k)"

definition compound_ok :: "node \<Rightarrow> compound \<Rightarrow> bool" where
  "compound_ok n c \<longleftrightarrow> list_all (simple_ok n) (cp_simple c)"

text \<open>
  \<open>chain_ok rest e\<close>: the combinators and compounds left of a compound that \<open>e\<close>
  matches; \<open>anc_ok c rest a\<close>: some ancestor from \<open>a\<close> upwards matches \<open>c\<close> and the rest.
\<close>

fun chain_ok :: "(comb \<times> compound) list \<Rightarrow> el \<Rightarrow> bool"
and anc_ok :: "compound \<Rightarrow> (comb \<times> compound) list \<Rightarrow> el option \<Rightarrow> bool" where
  "chain_ok [] e = True"
| "chain_ok ((Desc, c) # rest) (El n p s) = anc_ok c rest p"
| "chain_ok ((Adj, c) # rest) (El n p s) =
     (case s of None \<Rightarrow> False | Some e' \<Rightarrow> compound_ok (el_node e') c \<and> chain_ok rest e')"
| "anc_ok c rest None = False"
| "anc_ok c rest (Some e) = ((compound_ok (el_node e) c \<and> chain_ok rest e)
     \<or> (case e of El n p s \<Rightarrow> anc_ok c rest p))"

text \<open>A selector matches an element, or one of its pseudo-elements \<open>::before\<close>, \<open>::after\<close>.\<close>

definition sel_ok :: "selector \<Rightarrow> el \<Rightarrow> string option \<Rightarrow> bool" where
  "sel_ok s e pe \<longleftrightarrow> cp_pseudo (fst s) = pe \<and> compound_ok (el_node e) (fst s) \<and> chain_ok (snd s) e"

text \<open>
  Specificity: classes, attributes and pseudo-classes (\<open>:not\<close> counting its argument)
  in the second column, pseudo-elements in the third; no selector here has an id.
\<close>

definition compound_spec :: "compound \<Rightarrow> nat \<times> nat" where
  "compound_spec c = (length (cp_simple c), if cp_pseudo c = None then 0 else 1)"

definition sel_spec :: "selector \<Rightarrow> nat \<times> nat" where
  "sel_spec s = fold (\<lambda>c (a, b). (a + fst (compound_spec c), b + snd (compound_spec c)))
     (map snd (snd s)) (compound_spec (fst s))"

definition spec_le :: "nat \<times> nat \<Rightarrow> nat \<times> nat \<Rightarrow> bool" where
  "spec_le s t \<longleftrightarrow> fst s < fst t \<or> (fst s = fst t \<and> snd s \<le> snd t)"

text \<open>Helpers for writing stylesheets: a compound of classes, a declaration.\<close>

definition cls :: "string list \<Rightarrow> string option \<Rightarrow> compound" where
  "cls cs pe = \<lparr>cp_simple = map Cls cs, cp_pseudo = pe\<rparr>"

definition cpc :: "string list \<Rightarrow> string list \<Rightarrow> string option \<Rightarrow> compound" where
  "cpc cs pcs pe = \<lparr>cp_simple = map Cls cs @ map PClass pcs, cp_pseudo = pe\<rparr>"

definition pe_before :: "string option" where
  "pe_before = Some ''before''"

definition pe_after :: "string option" where
  "pe_after = Some ''after''"

text \<open>The media a rule is inside of: none, or \<open>(hover: none) and (pointer: coarse)\<close>.\<close>

datatype media = MAll | MCoarse

record css_decl =
  dc_prop :: string
  dc_val :: css_val
  dc_imp :: bool

record css_rule =
  cr_media :: media
  cr_sels :: "selector list"
  cr_decls :: "css_decl list"

definition media_ok :: "bool \<Rightarrow> media \<Rightarrow> bool" where
  "media_ok coarse m = (case m of MAll \<Rightarrow> True | MCoarse \<Rightarrow> coarse)"

definition decl :: "string \<Rightarrow> css_val \<Rightarrow> css_decl" where
  "decl p v = \<lparr>dc_prop = p, dc_val = v, dc_imp = False\<rparr>"

definition tok :: "string \<Rightarrow> css_val" where
  "tok s = CTok s"

text \<open>
  The declarations of a property that apply to a subject, in source order, each with the
  specificity of the most specific selector of its rule that matches.
\<close>

definition rule_spec :: "css_rule \<Rightarrow> el \<Rightarrow> string option \<Rightarrow> (nat \<times> nat) option" where
  "rule_spec r e pe = (case filter (\<lambda>s. sel_ok s e pe) (cr_sels r) of [] \<Rightarrow> None
     | s # ss \<Rightarrow> Some (fold (\<lambda>t m. if spec_le m (sel_spec t) then sel_spec t else m) ss (sel_spec s)))"

definition applicable :: "css_rule list \<Rightarrow> bool \<Rightarrow> el \<Rightarrow> string option \<Rightarrow> string \<Rightarrow> ((nat \<times> nat) \<times> css_decl) list" where
  "applicable rs coarse e pe p = concat (map (\<lambda>r.
     if media_ok coarse (cr_media r) then
       (case rule_spec r e pe of None \<Rightarrow> []
        | Some sp \<Rightarrow> map (\<lambda>d. (sp, d)) (filter (\<lambda>d. dc_prop d = p) (cr_decls r)))
     else []) rs)"

text \<open>The winner among declarations: the highest specificity, the later among equals.\<close>

definition css_best :: "((nat \<times> nat) \<times> css_decl) list \<Rightarrow> css_val option" where
  "css_best ds = map_option (dc_val \<circ> snd)
     (fold (\<lambda>d acc. case acc of None \<Rightarrow> Some d | Some w \<Rightarrow> if spec_le (fst w) (fst d) then Some d else Some w) ds None)"

text \<open>
  The cascaded value: an \<open>!important\<close> declaration, else the element's inline style
  (pseudo-elements have none), else the best normal declaration; \<open>None\<close> is the initial
  value.
\<close>

definition cascade :: "css_rule list \<Rightarrow> bool \<Rightarrow> (string \<Rightarrow> css_val option) \<Rightarrow> el \<Rightarrow> string option \<Rightarrow> string \<Rightarrow> css_val option" where
  "cascade rs coarse inl e pe p =
     (let ds = applicable rs coarse e pe p; imp = filter (dc_imp \<circ> snd) ds in
      if imp \<noteq> [] then css_best imp
      else case (if pe = None then inl p else None) of Some v \<Rightarrow> Some v
           | None \<Rightarrow> css_best (filter (Not \<circ> dc_imp \<circ> snd) ds))"

text \<open>
  A change of the style from one element state to another animates a property when the
  \<open>transition\<close> of the style after the change lists it, or \<open>all\<close>, with a positive
  duration (the last entry that names it counts).
\<close>

definition trans_dur :: "(string \<times> real) list \<Rightarrow> string \<Rightarrow> real option" where
  "trans_dur l p = map_option snd (find (\<lambda>(q, _). q = p \<or> q = ''all'') (rev l))"

definition animates :: "css_val option \<Rightarrow> string \<Rightarrow> bool" where
  "animates tr p = (case tr of Some (CTrans l) \<Rightarrow> (case trans_dur l p of Some d \<Rightarrow> 0 < d | None \<Rightarrow> False)
     | _ \<Rightarrow> False)"

text \<open>
  The style at the first frame after a change: a property that changes and animates
  starts from its value before the change; every other property has its new value.
\<close>

definition style_at_change :: "(string \<Rightarrow> css_val option) \<Rightarrow> (string \<Rightarrow> css_val option) \<Rightarrow> string \<Rightarrow> css_val option" where
  "style_at_change old new p = (if old p \<noteq> new p \<and> animates (new ''transition'') p then old p else new p)"

text \<open>The rules of a stylesheet that apply to a subject.\<close>

definition matched :: "css_rule list \<Rightarrow> bool \<Rightarrow> el \<Rightarrow> string option \<Rightarrow> css_rule list" where
  "matched rs coarse e pe = filter (\<lambda>r. media_ok coarse (cr_media r) \<and> rule_spec r e pe \<noteq> None) rs"

text \<open>
  Between two states of a subject, with no media feature and no inline style: the
  properties any matching rule declares, those of them whose value changes, and those
  of the changes that do not animate.
\<close>

definition sheet_style :: "css_rule list \<Rightarrow> el \<Rightarrow> string option \<Rightarrow> string \<Rightarrow> css_val option" where
  "sheet_style rs e pe = cascade rs False (\<lambda>_. None) e pe"

definition sheet_props :: "css_rule list \<Rightarrow> el \<Rightarrow> el \<Rightarrow> string option \<Rightarrow> string list" where
  "sheet_props rs e1 e2 pe = remdups (filter (\<lambda>p. p \<noteq> ''transition'' \<and> p \<noteq> ''transition-delay'')
     (map dc_prop (concat (map cr_decls (matched rs False e1 pe @ matched rs False e2 pe)))))"

definition sheet_changes :: "css_rule list \<Rightarrow> el \<Rightarrow> el \<Rightarrow> string option \<Rightarrow> string list" where
  "sheet_changes rs e1 e2 pe = filter (\<lambda>p. sheet_style rs e1 pe p \<noteq> sheet_style rs e2 pe p) (sheet_props rs e1 e2 pe)"

definition sheet_jumps :: "css_rule list \<Rightarrow> el \<Rightarrow> el \<Rightarrow> string option \<Rightarrow> string list" where
  "sheet_jumps rs e1 e2 pe = filter (\<lambda>p. \<not> animates (sheet_style rs e2 pe ''transition'') p) (sheet_changes rs e1 e2 pe)"

text \<open>
  A toggle between two states moves exactly the properties \<open>ps\<close> and animates every one
  of them in both directions.
\<close>

definition smooth_toggle :: "css_rule list \<Rightarrow> el \<Rightarrow> el \<Rightarrow> string option \<Rightarrow> string list \<Rightarrow> bool" where
  "smooth_toggle rs e1 e2 pe ps \<longleftrightarrow> sheet_changes rs e1 e2 pe = ps \<and> sheet_jumps rs e1 e2 pe = [] \<and> sheet_jumps rs e2 e1 pe = []"

subsection \<open>Evaluation\<close>

text \<open>Only the rules that match a subject decide its style.\<close>

lemma applicable_matched: "applicable (matched rs coarse e pe) coarse e pe p = applicable rs coarse e pe p"
  by (induction rs) (auto simp: applicable_def matched_def split: option.split)

lemma cascade_matched: "cascade (matched rs coarse e pe) coarse inl e pe = cascade rs coarse inl e pe"
  by (simp add: fun_eq_iff cascade_def applicable_matched)

text \<open>The rules that evaluate the cascade on a concrete stylesheet and element.\<close>

lemmas css_eval = cascade_def applicable_def rule_spec_def sel_ok_def compound_ok_def media_ok_def css_best_def
  spec_le_def sel_spec_def compound_spec_def cls_def cpc_def decl_def tok_def pe_before_def pe_after_def

lemmas transition_eval = style_at_change_def animates_def trans_dur_def

end
