(* ===== verification/DesignCursorCss.thy ===== *)
theory DesignCursorCss
  imports Css DesignCursor
begin

text \<open>
  The cursor stylesheet of the design document (\<open>src/unnamed/part_000\<close>, section 1.3,
  lines 155--264) and the markup of section 1.4 (lines 268--278), composed with the
  cursor draft of theory \<open>DesignCursor\<close>: the draft writes each node's \<open>data-state\<close>
  and an inline \<open>transform: translate(...)\<close>; the stylesheet decides each node's
  offsets, size, opacity and display from the state. The stylesheet's rules are
  transcribed in source order with every declaration; values with no role in the
  properties below are kept as their source text.
\<close>

definition univ_sels :: "selector list" where
  "univ_sels = [(cls [] None, []), (cls [] pe_before, []), (cls [] pe_after, [])]"

definition state_is :: "string list \<Rightarrow> string \<Rightarrow> compound" where
  "state_is cs v = \<lparr>cp_simple = map Cls cs @ [AttrEq ''data-state'' (js v)], cp_pseudo = None\<rparr>"

definition cursor_css :: "css_rule list" where
  "cursor_css =
    [\<lparr>cr_media = MAll, cr_sels = univ_sels,
      cr_decls = [(decl ''cursor'' (tok ''none''))\<lparr>dc_imp := True\<rparr>]\<rparr>,
     \<lparr>cr_media = MAll, cr_sels = [(cls [''cursor-dot''] None, [])],
      cr_decls = [decl ''position'' (tok ''fixed''), decl ''top'' (CPx (-4)), decl ''left'' (CPx (-4)),
        decl ''width'' (CPx 8), decl ''height'' (CPx 8), decl ''background'' (tok ''var(--color-accent)''),
        decl ''border-radius'' (tok ''50%''), decl ''pointer-events'' (tok ''none''), decl ''z-index'' (CNum 10001),
        decl ''mix-blend-mode'' (tok ''difference''),
        decl ''transition'' (CTrans [(''transform'', 0.1), (''width'', 0.3), (''height'', 0.3)])]\<rparr>,
     \<lparr>cr_media = MAll, cr_sels = [(cls [''cursor-ring''] None, [])],
      cr_decls = [decl ''position'' (tok ''fixed''), decl ''top'' (CPx (-24)), decl ''left'' (CPx (-24)),
        decl ''width'' (CPx 48), decl ''height'' (CPx 48), decl ''border'' (tok ''1px solid var(--color-accent)''),
        decl ''border-radius'' (tok ''50%''), decl ''pointer-events'' (tok ''none''), decl ''z-index'' (CNum 10000),
        decl ''opacity'' (CNum 0.5),
        decl ''transition'' (CTrans [(''width'', 0.4), (''height'', 0.4), (''opacity'', 0.3),
          (''border-radius'', 0.4)])]\<rparr>,
     \<lparr>cr_media = MAll, cr_sels = [(cls [''cursor-text''] None, [])],
      cr_decls = [decl ''position'' (tok ''absolute''), decl ''top'' (tok ''50%''), decl ''left'' (tok ''50%''),
        decl ''transform'' (tok ''translate(-50%, -50%)''), decl ''font-size'' (CPx 12), decl ''font-weight'' (CNum 500),
        decl ''letter-spacing'' (tok ''0.05em''), decl ''text-transform'' (tok ''uppercase''), decl ''opacity'' (CNum 0),
        decl ''transition'' (CTrans [(''opacity'', 0.3)]), decl ''white-space'' (tok ''nowrap'')]\<rparr>,
     \<lparr>cr_media = MAll, cr_sels = [(state_is [''cursor-ring''] ''hover'', [])],
      cr_decls = [decl ''width'' (CPx 80), decl ''height'' (CPx 80), decl ''top'' (CPx (-40)), decl ''left'' (CPx (-40)),
        decl ''opacity'' (CNum 1), decl ''background'' (tok ''rgba(255, 255, 255, 0.05)'')]\<rparr>,
     \<lparr>cr_media = MAll, cr_sels = [(state_is [''cursor-dot''] ''hover'', [])],
      cr_decls = [decl ''transform'' (tok ''scale(0)'')]\<rparr>,
     \<lparr>cr_media = MAll, cr_sels = [(state_is [''cursor-ring''] ''text'', [])],
      cr_decls = [decl ''width'' (CPx 120), decl ''height'' (CPx 120), decl ''top'' (CPx (-60)), decl ''left'' (CPx (-60)),
        decl ''background'' (tok ''var(--color-accent)''), decl ''opacity'' (CNum 1)]\<rparr>,
     \<lparr>cr_media = MAll, cr_sels = [(cls [''cursor-text''] None, [(Desc, state_is [''cursor-ring''] ''text'')])],
      cr_decls = [decl ''opacity'' (CNum 1), decl ''color'' (tok ''var(--color-bg)'')]\<rparr>,
     \<lparr>cr_media = MAll, cr_sels = [(state_is [''cursor-ring''] ''media'', [])],
      cr_decls = [decl ''width'' (CPx 64), decl ''height'' (CPx 64), decl ''border'' (tok ''none''),
        decl ''border-radius'' (CPx 0),
        decl ''background'' (tok ''linear-gradient(var(--color-accent), var(--color-accent)) top left, linear-gradient(var(--color-accent), var(--color-accent)) top right, linear-gradient(var(--color-accent), var(--color-accent)) bottom left, linear-gradient(var(--color-accent), var(--color-accent)) bottom right''),
        decl ''background-size'' (tok ''12px 1px, 12px 1px, 12px 1px, 12px 1px, 1px 12px, 1px 12px, 1px 12px, 1px 12px''),
        decl ''background-repeat'' (tok ''no-repeat'')]\<rparr>,
     \<lparr>cr_media = MCoarse, cr_sels = univ_sels,
      cr_decls = [(decl ''cursor'' (tok ''auto''))\<lparr>dc_imp := True\<rparr>]\<rparr>,
     \<lparr>cr_media = MCoarse, cr_sels = [(cls [''cursor-dot''] None, []), (cls [''cursor-ring''] None, [])],
      cr_decls = [decl ''display'' (tok ''none'')]\<rparr>]"

subsection \<open>The draft's nodes in the page\<close>

text \<open>
  The markup of section 1.4: the dot, then the ring holding the label span, children of
  the body. A node carries the \<open>data-state\<close> the draft last wrote and, as inline style,
  the \<open>translate\<close> it last wrote.
\<close>

definition page_body :: el where
  "page_body = El \<lparr>nd_classes = [], nd_attrs = [], nd_pcs = [], nd_index = 1\<rparr> None None"

definition state_attrs :: "jstr option \<Rightarrow> (string \<times> jstr) list" where
  "state_attrs st = (case st of None \<Rightarrow> [] | Some s \<Rightarrow> [(''data-state'', s)])"

definition dot_el :: "dnode \<Rightarrow> el" where
  "dot_el d = El \<lparr>nd_classes = [''cursor-dot''], nd_attrs = state_attrs (dn_state d), nd_pcs = [], nd_index = 1\<rparr>
     (Some page_body) None"

definition ring_el :: "dnode \<Rightarrow> dnode \<Rightarrow> el" where
  "ring_el d r = El \<lparr>nd_classes = [''cursor-ring''], nd_attrs = state_attrs (dn_state r), nd_pcs = [], nd_index = 2\<rparr>
     (Some page_body) (Some (dot_el d))"

definition text_el :: "dnode \<Rightarrow> dnode \<Rightarrow> el" where
  "text_el d r = El \<lparr>nd_classes = [''cursor-text''], nd_attrs = [], nd_pcs = [], nd_index = 1\<rparr> (Some (ring_el d r)) None"

definition dn_inline :: "dnode \<Rightarrow> string \<Rightarrow> css_val option" where
  "dn_inline n p = (if p = ''transform'' then map_option (\<lambda>(x, y). CTranslate x y) (dn_xy n) else None)"

definition dot_style :: "bool \<Rightarrow> dnode \<Rightarrow> string \<Rightarrow> css_val option" where
  "dot_style coarse d = cascade cursor_css coarse (dn_inline d) (dot_el d) None"

definition ring_style :: "bool \<Rightarrow> dnode \<Rightarrow> dnode \<Rightarrow> string \<Rightarrow> css_val option" where
  "ring_style coarse d r = cascade cursor_css coarse (dn_inline r) (ring_el d r) None"

definition text_style :: "bool \<Rightarrow> dnode \<Rightarrow> dnode \<Rightarrow> string \<Rightarrow> css_val option" where
  "text_style coarse d r = cascade cursor_css coarse (\<lambda>_. None) (text_el d r) None"

text \<open>
  Where a fixed box is drawn: its \<open>left\<close> and \<open>top\<close> offsets, moved by its
  \<open>translate\<close>; the offset of its centre from the translation is half its size on.
\<close>

definition css_px :: "css_val option \<Rightarrow> real" where
  "css_px v = (case v of Some (CPx x) \<Rightarrow> x | _ \<Rightarrow> 0)"

definition centre_offset :: "(string \<Rightarrow> css_val option) \<Rightarrow> real \<times> real" where
  "centre_offset st = (css_px (st (''left'')) + css_px (st (''width'')) / 2,
                       css_px (st (''top'')) + css_px (st (''height'')) / 2)"

text \<open>The draft cursors a page reaches: built with both nodes, then any events.\<close>

inductive dc_reach :: "dcursor \<Rightarrow> bool" where
  init: "new_dcursor True True txt = Inr c \<Longrightarrow> dc_reach c"
| step: "dc_reach c \<Longrightarrow> dc_reach (state_of (dc_step ev c))"

text \<open>Both nodes are present and have had a translation written.\<close>

definition nodes_placed :: "dcursor \<Rightarrow> bool" where
  "nodes_placed c \<longleftrightarrow> (\<exists>d r. dc_dot c = Some d \<and> dc_ring c = Some r \<and> dn_xy d \<noteq> None \<and> dn_xy r \<noteq> None)"

section \<open>Properties\<close>

lemmas cursor_eval = cursor_css_def univ_sels_def state_is_def ring_el_def dot_el_def
  text_el_def page_body_def state_attrs_def dn_inline_def

text \<open>
  The ring is centred on its translation in every state but \<open>media\<close>, whose rule sets the
  size 64 without moving the offsets from the default \<open>-24px\<close>: its centre is 8 pixels
  right of and below the point the draft places it at.
\<close>

lemma ring_centre_offset:
  "centre_offset (ring_style coarse d r) = (if dn_state r = Some (js ''media'') then (8, 8) else (0, 0))"
  by (cases coarse; cases "dn_state r") (simp_all add: centre_offset_def ring_style_def css_px_def css_eval cursor_eval)

text \<open>The inline \<open>translate\<close> the draft writes beats every rule of the stylesheet.\<close>

lemma dot_transform:
  "dn_xy d = Some (x, y) \<Longrightarrow> dot_style coarse d (''transform'') = Some (CTranslate x y)"
  by (cases coarse) (simp_all add: dot_style_def css_eval cursor_eval)

text \<open>The label shows in the \<open>text\<close> state and only there.\<close>

lemma text_opacity:
  "text_style coarse d r (''opacity'') = Some (CNum (if dn_state r = Some (js ''text'') then 1 else 0))"
  by (cases coarse; cases "dn_state r") (simp_all add: text_style_def css_eval cursor_eval)

text \<open>
  The ring's transition lists its size but not its offsets: on a change of state the
  offsets jump while the size starts from its old value, so the ring's first frame in the
  new state is off the pointer, by 16 pixels on entering or leaving \<open>hover\<close>, by 36 for
  \<open>text\<close>, and glides back as the size animates.
\<close>

lemma hover_first_frame:
  "dn_state r = None \<Longrightarrow>
   centre_offset (style_at_change (ring_style False d r) (ring_style False d (r\<lparr>dn_state := Some (js ''hover'')\<rparr>))) = (-16, -16)"
  by (simp add: centre_offset_def transition_eval ring_style_def css_px_def css_eval cursor_eval)

text \<open>Every reachable draft cursor has both nodes, each with a translation written.\<close>

lemma placed_set_state: "nodes_placed c \<Longrightarrow> nodes_placed (state_of (d_set_state st c))"
  by (auto simp: nodes_placed_def d_set_state_def state_of_def)

lemma placed_listener:
  assumes "nodes_placed c"
  shows "nodes_placed (state_of (d_run_listener l c))"
proof (cases l)
  case (LState st)
  thus ?thesis using placed_set_state[OF assms] by simp
next
  case (LTextEnter s)
  show ?thesis
  proof (cases "dc_text c")
    case None
    thus ?thesis using assms LTextEnter by (simp add: d_set_text_def state_of_def)
  next
    case (Some t)
    have "nodes_placed (c\<lparr>dc_text := Some s\<rparr>)" using assms by (simp add: nodes_placed_def)
    thus ?thesis using LTextEnter Some placed_set_state by (simp add: d_set_text_def)
  qed
qed

lemma placed_dispatch: "nodes_placed c \<Longrightarrow> nodes_placed (state_of (d_dispatch ls c))"
proof (induction ls arbitrary: c)
  case (Cons l ls)
  have p1: "nodes_placed (state_of (d_run_listener l c))" by (rule placed_listener[OF Cons.prems])
  show ?case
  proof (cases "d_run_listener l c")
    case (Inl ab)
    then obtain a b where ab: "d_run_listener l c = Inl (a, b)" by (cases ab) auto
    hence "nodes_placed b" using p1 by (simp add: state_of_def)
    hence "nodes_placed (state_of (d_dispatch ls b))" by (rule Cons.IH)
    thus ?thesis using ab by (simp add: state_of_def)
  next
    case (Inr b)
    hence "nodes_placed b" using p1 by (simp add: state_of_def)
    thus ?thesis using Cons.IH Inr by simp
  qed
qed (simp add: state_of_def)

lemma placed_animate: "nodes_placed c \<Longrightarrow> nodes_placed (state_of (d_animate c))"
  by (auto simp: nodes_placed_def d_animate_def state_of_def Let_def)

lemma dc_reach_placed: "dc_reach c \<Longrightarrow> nodes_placed c"
proof (induction rule: dc_reach.induct)
  case (init tx c)
  thus ?case by (auto simp: nodes_placed_def new_dcursor_def d_animate_def Let_def)
next
  case (step c ev)
  show ?case
  proof (cases ev)
    case (DCMove x y)
    thus ?thesis using step.IH by (simp add: nodes_placed_def state_of_def)
  next
    case (DCEnter t)
    thus ?thesis using placed_dispatch[OF step.IH] by simp
  next
    case (DCLeave t)
    thus ?thesis using placed_dispatch[OF step.IH] by simp
  next
    case DCFrame
    thus ?thesis using placed_animate[OF step.IH] step.IH by (simp add: state_of_def)
  qed
qed

text \<open>
  So in every reachable state, \<open>hover\<close> included, the dot's transform is the draft's
  \<open>translate\<close>: the stylesheet's \<open>scale(0)\<close> for the hovering dot never applies.
\<close>

lemma dot_never_shrinks:
  assumes "dc_reach c" "dc_dot c = Some d"
  shows "\<exists>x y. dot_style coarse d (''transform'') = Some (CTranslate x y)"
  using dc_reach_placed[OF assms(1)] assms(2) dot_transform by (auto simp: nodes_placed_def)

text \<open>On a coarse pointer without hover the media query hides both nodes; elsewhere they show.\<close>

lemma touch_hides:
  "dot_style True d (''display'') = Some (tok ''none'') \<and> ring_style True d r (''display'') = Some (tok ''none'')
   \<and> dot_style False d (''display'') = None \<and> ring_style False d r (''display'') = None"
  by (cases "dn_state d"; cases "dn_state r") (simp_all add: dot_style_def ring_style_def css_eval cursor_eval)

lemma ring_jumps:
  "dn_state r = None \<Longrightarrow>
   centre_offset (style_at_change (ring_style False d r) (ring_style False d (r\<lparr>dn_state := Some (js ''text'')\<rparr>))) = (-36, -36)
   \<and> centre_offset (style_at_change (ring_style False d (r\<lparr>dn_state := Some (js ''hover'')\<rparr>)) (ring_style False d r)) = (16, 16)
   \<and> centre_offset (style_at_change (ring_style False d (r\<lparr>dn_state := Some (js ''text'')\<rparr>)) (ring_style False d r)) = (36, 36)"
  by (simp add: centre_offset_def transition_eval ring_style_def css_px_def css_eval cursor_eval)

end
