(* ===== verification/DesignMicroCss.thy ===== *)
theory DesignMicroCss
  imports Css
begin

text \<open>
  The micro-interaction stylesheets of the design document (\<open>src/unnamed/part_000\<close>,
  section 7, lines 1568--1966): buttons, links, cards, form fields and loading states.
  Their behaviour is which properties change when an element is hovered, pressed or
  focused, and whether each change is animated: by the cascade of theory \<open>Css\<close>, a
  change animates when the \<open>transition\<close> of the style after the change lists the
  property. The rules are transcribed in source order with every declaration; the
  \<open>@keyframes\<close> blocks are the stops of each animation.
\<close>

definition sel1 :: "compound \<Rightarrow> selector" where
  "sel1 c = (c, [])"

definition rule :: "selector list \<Rightarrow> css_decl list \<Rightarrow> css_rule" where
  "rule ss ds = \<lparr>cr_media = MAll, cr_sels = ss, cr_decls = ds\<rparr>"

text \<open>Buttons (section 7.1, lines 1568--1691): ripple, shine, border draw, fill slide.\<close>

definition micro_buttons :: "css_rule list" where
  "micro_buttons =
    [rule [sel1 (cls [''btn-ripple''] None)] [decl ''position'' (tok ''relative''), decl ''overflow'' (tok ''hidden'')],
     rule [sel1 (cls [''btn-ripple''] pe_after)]
       [decl ''content'' (tok ''''), decl ''position'' (tok ''absolute''), decl ''width'' (tok ''100%''),
       decl ''height'' (tok ''100%''), decl ''top'' (CPx 0), decl ''left'' (CPx 0), decl ''pointer-events'' (tok ''none''),
       decl ''background-image'' (tok ''radial-gradient(circle, #fff 10%, transparent 10.01%)''),
       decl ''background-repeat'' (tok ''no-repeat''), decl ''background-position'' (tok ''50%''),
       decl ''transform'' (tok ''scale(10, 10)''), decl ''opacity'' (CNum 0),
       decl ''transition'' (CTrans [(''transform'', 0.5), (''opacity'', 1)])],
     rule [sel1 (cpc [''btn-ripple''] [''active''] pe_after)]
       [decl ''transform'' (tok ''scale(0, 0)''), decl ''opacity'' (CNum 0.3), decl ''transition'' (CTrans [(''all'', 0)])],
     rule [sel1 (cls [''btn-shine''] None)] [decl ''position'' (tok ''relative''), decl ''overflow'' (tok ''hidden'')],
     rule [sel1 (cls [''btn-shine''] pe_before)]
       [decl ''content'' (tok ''''), decl ''position'' (tok ''absolute''), decl ''top'' (CPx 0), decl ''left'' (tok ''-100%''),
       decl ''width'' (tok ''100%''), decl ''height'' (tok ''100%''),
       decl ''background'' (tok ''linear-gradient(90deg, transparent, rgba(255, 255, 255, 0.2), transparent)''),
       decl ''transition'' (CTrans [(''left'', 0.5)])],
     rule [sel1 (cpc [''btn-shine''] [''hover''] pe_before)] [decl ''left'' (tok ''100%'')],
     rule [sel1 (cls [''btn-border-draw''] None)]
       [decl ''position'' (tok ''relative''), decl ''background'' (tok ''transparent''), decl ''border'' (tok ''none''),
       decl ''padding'' (tok ''12px 24px''), decl ''color'' (tok ''var(--color-text)'')],
     rule [sel1 (cls [''btn-border-draw''] pe_before), sel1 (cls [''btn-border-draw''] pe_after)]
       [decl ''content'' (tok ''''), decl ''position'' (tok ''absolute''), decl ''width'' (CPx 0), decl ''height'' (CPx 0),
       decl ''border'' (tok ''1px solid transparent''), decl ''transition'' (CTrans [(''all'', 0.3)])],
     rule [sel1 (cls [''btn-border-draw''] pe_before)] [decl ''top'' (CPx 0), decl ''left'' (CPx 0)],
     rule [sel1 (cls [''btn-border-draw''] pe_after)] [decl ''bottom'' (CPx 0), decl ''right'' (CPx 0)],
     rule [sel1 (cpc [''btn-border-draw''] [''hover''] pe_before)]
       [decl ''width'' (tok ''100%''), decl ''height'' (tok ''100%''), decl ''border-top-color'' (tok ''var(--color-accent)''),
       decl ''border-right-color'' (tok ''var(--color-accent)'')],
     rule [sel1 (cpc [''btn-border-draw''] [''hover''] pe_after)]
       [decl ''width'' (tok ''100%''), decl ''height'' (tok ''100%''), decl ''border-bottom-color'' (tok ''var(--color-accent)''),
       decl ''border-left-color'' (tok ''var(--color-accent)'')],
     rule [sel1 (cls [''btn-fill-slide''] None)]
       [decl ''position'' (tok ''relative''), decl ''overflow'' (tok ''hidden''), decl ''z-index'' (CNum 1)],
     rule [sel1 (cls [''btn-fill-slide''] pe_before)]
       [decl ''content'' (tok ''''), decl ''position'' (tok ''absolute''), decl ''top'' (CPx 0), decl ''left'' (CPx 0),
       decl ''width'' (tok ''100%''), decl ''height'' (tok ''100%''), decl ''background'' (tok ''var(--color-accent)''),
       decl ''transform'' (tok ''translateX(-101%)''), decl ''transition'' (CTrans [(''transform'', 0.4)]),
       decl ''z-index'' (CNum (-1))],
     rule [sel1 (cpc [''btn-fill-slide''] [''hover''] pe_before)] [decl ''transform'' (tok ''translateX(0)'')]]"

text \<open>Links (section 7.2, lines 1695--1759): underline, brackets, highlight.\<close>

definition micro_links :: "css_rule list" where
  "micro_links =
    [rule [sel1 (cls [''link-underline-grow''] None)] [decl ''position'' (tok ''relative'')],
     rule [sel1 (cls [''link-underline-grow''] pe_after)]
       [decl ''content'' (tok ''''), decl ''position'' (tok ''absolute''), decl ''bottom'' (CPx (-2)), decl ''left'' (tok ''50%''),
       decl ''width'' (CPx 0), decl ''height'' (CPx 1), decl ''background'' (tok ''currentColor''),
       decl ''transition'' (CTrans [(''width'', 0.3), (''left'', 0.3)])],
     rule [sel1 (cpc [''link-underline-grow''] [''hover''] pe_after)] [decl ''width'' (tok ''100%''), decl ''left'' (CPx 0)],
     rule [sel1 (cls [''link-brackets''] pe_before), sel1 (cls [''link-brackets''] pe_after)]
       [decl ''display'' (tok ''inline-block''), decl ''opacity'' (CNum 0),
       decl ''transition'' (CTrans [(''transform'', 0.3), (''opacity'', 0.2)])],
     rule [sel1 (cls [''link-brackets''] pe_before)]
       [decl ''content'' (tok ''['' ), decl ''margin-right'' (tok ''0.2em''), decl ''transform'' (tok ''translateX(10px)'')],
     rule [sel1 (cls [''link-brackets''] pe_after)]
       [decl ''content'' (tok '']''), decl ''margin-left'' (tok ''0.2em''), decl ''transform'' (tok ''translateX(-10px)'')],
     rule [sel1 (cpc [''link-brackets''] [''hover''] pe_before), sel1 (cpc [''link-brackets''] [''hover''] pe_after)]
       [decl ''opacity'' (CNum 1), decl ''transform'' (tok ''translateX(0)'')],
     rule [sel1 (cls [''link-highlight''] None)]
       [decl ''background'' (tok ''linear-gradient(to right, var(--color-accent) 50%, transparent 50%)''),
       decl ''background-size'' (tok ''200% 100%''), decl ''background-position'' (tok ''right''),
       decl ''transition'' (CTrans [(''background-position'', 0.3)])],
     rule [sel1 (cpc [''link-highlight''] [''hover''] None)]
       [decl ''background-position'' (tok ''left''), decl ''color'' (tok ''var(--color-bg)'')]]"

text \<open>Cards (section 7.3, lines 1763--1848): lift, glow, reveal.\<close>

definition micro_cards :: "css_rule list" where
  "micro_cards =
    [rule [sel1 (cls [''card-lift''] None)] [decl ''transition'' (CTrans [(''transform'', 0.3), (''box-shadow'', 0.3)])],
     rule [sel1 (cpc [''card-lift''] [''hover''] None)]
       [decl ''transform'' (tok ''translateY(-8px)''),
       decl ''box-shadow'' (tok ''0 20px 40px rgba(0, 0, 0, 0.3), 0 0 0 1px rgba(255, 255, 255, 0.1)'')],
     rule [sel1 (cls [''card-glow''] None)] [decl ''position'' (tok ''relative'')],
     rule [sel1 (cls [''card-glow''] pe_before)]
       [decl ''content'' (tok ''''), decl ''position'' (tok ''absolute''), decl ''inset'' (CPx (-1)),
       decl ''background'' (tok ''linear-gradient(135deg, var(--color-accent), transparent 50%, var(--color-accent))''),
       decl ''border-radius'' (tok ''inherit''), decl ''z-index'' (CNum (-1)), decl ''opacity'' (CNum 0),
       decl ''transition'' (CTrans [(''opacity'', 0.3)])],
     rule [sel1 (cpc [''card-glow''] [''hover''] pe_before)] [decl ''opacity'' (CNum 1)],
     rule [sel1 (cls [''card-reveal''] None)] [decl ''overflow'' (tok ''hidden'')],
     rule [(cls [''card-overlay''] None, [(Desc, cls [''card-reveal''] None)])]
       [decl ''position'' (tok ''absolute''), decl ''inset'' (CPx 0),
       decl ''background'' (tok ''linear-gradient(to top, rgba(0, 0, 0, 0.9) 0%, transparent 100%)''),
       decl ''display'' (tok ''flex''), decl ''flex-direction'' (tok ''column''), decl ''justify-content'' (tok ''flex-end''),
       decl ''padding'' (CPx 24), decl ''transform'' (tok ''translateY(60%)''), decl ''transition'' (CTrans [(''transform'', 0.4)])],
     rule [(cls [''card-overlay''] None, [(Desc, cpc [''card-reveal''] [''hover''] None)])] [decl ''transform'' (tok ''translateY(0)'')],
     rule [(cls [''card-title''] None, [(Desc, cls [''card-reveal''] None)])]
       [decl ''transform'' (tok ''translateY(0)''), decl ''transition'' (CTrans [(''transform'', 0.4)])],
     rule [(cls [''card-title''] None, [(Desc, cpc [''card-reveal''] [''hover''] None)])] [decl ''transform'' (tok ''translateY(-10px)'')],
     rule [(cls [''card-description''] None, [(Desc, cls [''card-reveal''] None)])]
       [decl ''opacity'' (CNum 0), decl ''transform'' (tok ''translateY(20px)''),
       decl ''transition'' (CTrans [(''opacity'', 0.3), (''transform'', 0.4)]), decl ''transition-delay'' (CNum 0.1)],
     rule [(cls [''card-description''] None, [(Desc, cpc [''card-reveal''] [''hover''] None)])]
       [decl ''opacity'' (CNum 1), decl ''transform'' (tok ''translateY(0)'')]]"

text \<open>Form fields (section 7.4, lines 1852--1903): the animated input, its label and line.\<close>

definition micro_forms :: "css_rule list" where
  "micro_forms =
    [rule [sel1 (cls [''input-animated''] None)]
       [decl ''position'' (tok ''relative''), decl ''background'' (tok ''transparent''), decl ''border'' (tok ''none''),
       decl ''border-bottom'' (tok ''1px solid var(--color-border)''), decl ''padding'' (tok ''12px 0''),
       decl ''width'' (tok ''100%''), decl ''color'' (tok ''var(--color-text)''), decl ''transition'' (CTrans [(''border-color'', 0.3)])],
     rule [sel1 (cpc [''input-animated''] [''focus''] None)]
       [decl ''outline'' (tok ''none''), decl ''border-color'' (tok ''var(--color-accent)'')],
     rule [(cls [''input-label''] None, [(Adj, cls [''input-animated''] None)])]
       [decl ''position'' (tok ''absolute''), decl ''left'' (CPx 0), decl ''top'' (CPx 12), decl ''color'' (tok ''var(--color-muted)''),
       decl ''pointer-events'' (tok ''none''),
       decl ''transition'' (CTrans [(''transform'', 0.3), (''font-size'', 0.3), (''color'', 0.3)])],
     rule [(cls [''input-label''] None, [(Adj, cpc [''input-animated''] [''focus''] None)]),
       (cls [''input-label''] None, [(Adj, \<lparr>cp_simple = [Cls (''input-animated''), NotPClass (''placeholder-shown'')],
       cp_pseudo = None\<rparr>)])]
       [decl ''transform'' (tok ''translateY(-24px)''), decl ''font-size'' (CPx 12), decl ''color'' (tok ''var(--color-accent)'')],
     rule [(cls [''input-line''] None, [(Adj, cls [''input-label''] None), (Adj, cls [''input-animated''] None)])]
       [decl ''position'' (tok ''absolute''), decl ''bottom'' (CPx 0), decl ''left'' (CPx 0), decl ''width'' (tok ''100%''),
       decl ''height'' (CPx 2), decl ''background'' (tok ''var(--color-accent)''), decl ''transform'' (tok ''scaleX(0)''),
       decl ''transition'' (CTrans [(''transform'', 0.3)])],
     rule [(cls [''input-line''] None, [(Adj, cls [''input-label''] None), (Adj, cpc [''input-animated''] [''focus''] None)])]
       [decl ''transform'' (tok ''scaleX(1)'')]]"

text \<open>Loading states (section 7.5, lines 1907--1966): skeleton, dots, spinner.\<close>

definition micro_loading :: "css_rule list" where
  "micro_loading =
    [rule [sel1 (cls [''skeleton''] None)]
       [decl ''background'' (tok ''linear-gradient(90deg, var(--color-surface) 25%, var(--color-surface-light) 50%, var(--color-surface) 75%)''),
       decl ''background-size'' (tok ''200% 100%''), decl ''animation'' (tok ''skeleton-loading 1.5s infinite'')],
     rule [sel1 (cls [''loading-dot''] None)]
       [decl ''width'' (CPx 8), decl ''height'' (CPx 8), decl ''background'' (tok ''var(--color-accent)''),
       decl ''border-radius'' (tok ''50%''), decl ''animation'' (tok ''pulse 1.4s ease-in-out infinite both'')],
     rule [sel1 (cls [''loading-dots''] None)] [decl ''display'' (tok ''flex''), decl ''gap'' (CPx 6)],
     rule [(\<lparr>cp_simple = [Cls (''loading-dot''), NthChild 1], cp_pseudo = None\<rparr>, [(Desc, cls [''loading-dots''] None)])]
       [decl ''animation-delay'' (CNum (-0.32))],
     rule [(\<lparr>cp_simple = [Cls (''loading-dot''), NthChild 2], cp_pseudo = None\<rparr>, [(Desc, cls [''loading-dots''] None)])]
       [decl ''animation-delay'' (CNum (-0.16))],
     rule [sel1 (cls [''spinner''] None)]
       [decl ''width'' (CPx 40), decl ''height'' (CPx 40), decl ''border'' (tok ''3px solid var(--color-surface)''),
       decl ''border-top-color'' (tok ''var(--color-accent)''), decl ''border-radius'' (tok ''50%''),
       decl ''animation'' (tok ''spin 0.8s linear infinite'')]]"

text \<open>The five stylesheets in document order.\<close>

definition micro_css :: "css_rule list" where
  "micro_css = micro_buttons @ micro_links @ micro_cards @ micro_forms @ micro_loading"

text \<open>\<open>@keyframes pulse\<close>: the stops, as fractions of the cycle, with the scale they set.\<close>

definition pulse_keyframes :: "(real \<times> real \<times> real) list" where
  "pulse_keyframes = [(0, 0, 0.5), (0.8, 0, 0.5), (1, 0, 0.5), (0.4, 1, 1)]"

definition pulse_duration :: real where
  "pulse_duration = 1.4"

subsection \<open>Elements\<close>

text \<open>An element with one class, in the pseudo-classes given, at a sibling position.\<close>

definition nd :: "string \<Rightarrow> string list \<Rightarrow> nat \<Rightarrow> node" where
  "nd c pcs i = \<lparr>nd_classes = [c], nd_attrs = [], nd_pcs = pcs, nd_index = i\<rparr>"

definition lone :: "string \<Rightarrow> string list \<Rightarrow> el" where
  "lone c pcs = El (nd c pcs 1) None None"

text \<open>
  The form field: the input (focused or not, showing its placeholder or not), then its
  label and line as the next siblings.
\<close>

definition input_el :: "bool \<Rightarrow> bool \<Rightarrow> el" where
  "input_el focus shown = El (nd ''input-animated'' ((if focus then [''focus''] else []) @
     (if shown then [''placeholder-shown''] else [])) 1) None None"

definition label_el :: "bool \<Rightarrow> bool \<Rightarrow> el" where
  "label_el focus shown = El (nd ''input-label'' [] 2) None (Some (input_el focus shown))"

definition line_el :: "bool \<Rightarrow> bool \<Rightarrow> el" where
  "line_el focus shown = El (nd ''input-line'' [] 3) None (Some (label_el focus shown))"

text \<open>A child of a \<open>.card-reveal\<close> card, hovered or not (hovering a child hovers the card).\<close>

definition card_child :: "string \<Rightarrow> bool \<Rightarrow> el" where
  "card_child c hov = El (nd c [] 1) (Some (lone ''card-reveal'' (if hov then [''hover''] else []))) None"

definition loading_dot :: "nat \<Rightarrow> el" where
  "loading_dot i = El (nd ''loading-dot'' [] i) (Some (lone ''loading-dots'' [])) None"

subsection \<open>State changes\<close>

definition micro_style :: "el \<Rightarrow> string option \<Rightarrow> string \<Rightarrow> css_val option" where
  "micro_style = sheet_style micro_css"

text \<open>
  The loading dots: the \<open>animation-delay\<close> of a dot (none is \<open>0s\<close>) and the stop of
  \<open>pulse\<close> at which a dot is full size; a dot peaks that far into each cycle, less its delay.
\<close>

definition anim_delay :: "el \<Rightarrow> real" where
  "anim_delay e = (case micro_style e None ''animation-delay'' of Some (CNum d) \<Rightarrow> d | _ \<Rightarrow> 0)"

definition pulse_peak :: real where
  "pulse_peak = fst (hd (filter (\<lambda>(_, s, _). s = 1) pulse_keyframes))"

definition dot_peak :: "nat \<Rightarrow> real" where
  "dot_peak i = pulse_peak * pulse_duration + anim_delay (loading_dot i)"


section \<open>Properties\<close>

text \<open>
  Every hover effect of the buttons animates what it moves, in and out: the shine's
  sweep, the border drawing on both pseudo-elements and the fill's slide.
\<close>

lemma buttons_smooth:
  "smooth_toggle micro_css (lone ''btn-shine'' []) (lone ''btn-shine'' [''hover'']) pe_before [''left'']
   \<and> smooth_toggle micro_css (lone ''btn-border-draw'' []) (lone ''btn-border-draw'' [''hover'']) pe_before
       [''width'', ''height'', ''border-top-color'', ''border-right-color'']
   \<and> smooth_toggle micro_css (lone ''btn-border-draw'' []) (lone ''btn-border-draw'' [''hover'']) pe_after
       [''width'', ''height'', ''border-bottom-color'', ''border-left-color'']
   \<and> smooth_toggle micro_css (lone ''btn-fill-slide'' []) (lone ''btn-fill-slide'' [''hover'']) pe_before [''transform'']"
  by code_simp

text \<open>
  The ripple is meant to jump on press and animate on release: the \<open>:active\<close> rule's
  \<open>transition: 0s\<close> makes the press instant, and releasing animates back with the base
  rule's transition.
\<close>

lemma ripple_press_release:
  "sheet_changes micro_css (lone ''btn-ripple'' []) (lone ''btn-ripple'' [''active'']) pe_after = [''transform'', ''opacity'']
   \<and> sheet_jumps micro_css (lone ''btn-ripple'' []) (lone ''btn-ripple'' [''active'']) pe_after = [''transform'', ''opacity'']
   \<and> sheet_jumps micro_css (lone ''btn-ripple'' [''active'']) (lone ''btn-ripple'' []) pe_after = []"
  by code_simp

lemma links_smooth:
  "smooth_toggle micro_css (lone ''link-underline-grow'' []) (lone ''link-underline-grow'' [''hover'']) pe_after [''width'', ''left'']
   \<and> smooth_toggle micro_css (lone ''link-brackets'' []) (lone ''link-brackets'' [''hover'']) pe_before [''opacity'', ''transform'']
   \<and> smooth_toggle micro_css (lone ''link-brackets'' []) (lone ''link-brackets'' [''hover'']) pe_after [''opacity'', ''transform'']"
  by code_simp

text \<open>
  The highlight link slides its background but changes its text colour, which its
  transition does not list: the colour jumps on hover and back.
\<close>

lemma highlight_color_jumps:
  "sheet_changes micro_css (lone ''link-highlight'' []) (lone ''link-highlight'' [''hover'']) None = [''background-position'', ''color'']
   \<and> sheet_jumps micro_css (lone ''link-highlight'' []) (lone ''link-highlight'' [''hover'']) None = [''color'']
   \<and> sheet_jumps micro_css (lone ''link-highlight'' [''hover'']) (lone ''link-highlight'' []) None = [''color'']"
  by code_simp

text \<open>The cards: lift, glow and the three parts of the reveal card, whose hover is the card's.\<close>

lemma cards_smooth:
  "smooth_toggle micro_css (lone ''card-lift'' []) (lone ''card-lift'' [''hover'']) None [''transform'', ''box-shadow'']
   \<and> smooth_toggle micro_css (lone ''card-glow'' []) (lone ''card-glow'' [''hover'']) pe_before [''opacity'']
   \<and> smooth_toggle micro_css (card_child ''card-overlay'' False) (card_child ''card-overlay'' True) None [''transform'']
   \<and> smooth_toggle micro_css (card_child ''card-title'' False) (card_child ''card-title'' True) None [''transform'']
   \<and> smooth_toggle micro_css (card_child ''card-description'' False) (card_child ''card-description'' True) None
       [''opacity'', ''transform'']"
  by code_simp

text \<open>
  Focusing the field animates its border colour, its label and its line; only the
  outline, a discrete property, switches off at once.
\<close>

lemma input_focus:
  "sheet_changes micro_css (input_el False True) (input_el True True) None = [''outline'', ''border-color'']
   \<and> sheet_jumps micro_css (input_el False True) (input_el True True) None = [''outline'']
   \<and> smooth_toggle micro_css (label_el False True) (label_el True True) None [''transform'', ''font-size'', ''color'']
   \<and> smooth_toggle micro_css (line_el False True) (line_el True True) None [''transform'']"
  by code_simp

text \<open>
  The label floats above the field when it is focused or when the field does not show
  its placeholder; a field without a \<open>placeholder\<close> attribute never shows one, so its
  label floats even while the field is empty.
\<close>

lemma label_floats:
  "micro_style (label_el False True) None ''transform'' = None
   \<and> micro_style (label_el True True) None ''transform'' = Some (tok ''translateY(-24px)'')
   \<and> micro_style (label_el False False) None ''transform'' = Some (tok ''translateY(-24px)'')"
  by code_simp

text \<open>
  The three loading dots peak in order, 0.16 seconds apart, within each 1.4 second cycle:
  the \<open>nth-child\<close> rules outweigh the dot's own rule and shift the first two.
\<close>

lemma dots_peak: "map dot_peak [1, 2, 3] = [0.24, 0.4, 0.56]"
  by code_simp

end
