(* ===== verification/DesignMotionCss.thy ===== *)
theory DesignMotionCss
  imports DesignMicroCss
begin

text \<open>
  The remaining motion stylesheets of the design document (\<open>src/unnamed/part_000\<close>):
  the kinetic-text styles of section 4.4 (lines 911--991), the 3D card flip of section 6.2
  (lines 1303--1340) and the reduced-motion rule of section 9.2 (lines 2079--2090), with
  the part of CSS Animations the last one acts on: an \<open>animation\<close> shorthand read into
  its name, duration, iteration count, delay, direction and fill mode, the longhands that
  override it, and the keyframe value an element shows at a given time.
\<close>

section \<open>Stylesheets\<close>

definition impdecl :: "string \<Rightarrow> css_val \<Rightarrow> css_decl" where
  "impdecl p v = \<lparr>dc_prop = p, dc_val = v, dc_imp = True\<rparr>"

text \<open>\<open>kinetic-text.css\<close>, section 4.4.\<close>

definition kinetic_css :: "css_rule list" where
  "kinetic_css =
    [rule [sel1 \<lparr>cp_simple = [AttrHas ''data-kinetic''], cp_pseudo = None\<rparr>] [decl ''display'' (tok ''inline-block'')],
     rule [sel1 (cls [''char''] None), sel1 (cls [''word''] None), sel1 (cls [''line''] None)]
       [decl ''display'' (tok ''inline-block''), decl ''will-change'' (tok ''transform, opacity'')],
     rule [sel1 (cls [''line-wrapper''] None)] [decl ''overflow'' (tok ''hidden'')],
     rule [sel1 (cls [''scramble-char''] None)] [decl ''color'' (tok ''var(--color-accent)''), decl ''opacity'' (CNum 0.7)],
     rule [sel1 (cls [''glitch''] None)] [decl ''position'' (tok ''relative'')],
     rule [sel1 (cls [''glitch''] pe_before), sel1 (cls [''glitch''] pe_after)]
       [decl ''content'' (tok ''attr(data-text)''), decl ''position'' (tok ''absolute''), decl ''top'' (CPx 0),
        decl ''left'' (CPx 0), decl ''width'' (tok ''100%''), decl ''height'' (tok ''100%''), decl ''opacity'' (CNum 0.8)],
     rule [sel1 (cls [''glitch''] pe_before)]
       [decl ''animation'' (tok ''glitch-1 0.3s infinite linear alternate-reverse''),
        decl ''clip-path'' (tok ''polygon(0 0, 100% 0, 100% 35%, 0 35%)''), decl ''color'' (tok ''cyan'')],
     rule [sel1 (cls [''glitch''] pe_after)]
       [decl ''animation'' (tok ''glitch-2 0.3s infinite linear alternate-reverse''),
        decl ''clip-path'' (tok ''polygon(0 65%, 100% 65%, 100% 100%, 0 100%)''), decl ''color'' (tok ''magenta'')],
     rule [sel1 (cls [''text-reveal-underline''] None)] [decl ''position'' (tok ''relative''), decl ''display'' (tok ''inline-block'')],
     rule [sel1 (cls [''text-reveal-underline''] pe_after)]
       [decl ''content'' (tok ''''), decl ''position'' (tok ''absolute''), decl ''bottom'' (CPx (-2)), decl ''left'' (CPx 0),
        decl ''width'' (tok ''100%''), decl ''height'' (CPx 1), decl ''background'' (tok ''currentColor''),
        decl ''transform'' (tok ''scaleX(0)''), decl ''transform-origin'' (tok ''right''),
        decl ''transition'' (CTrans [(''transform'', 0.4)])],
     rule [sel1 (cpc [''text-reveal-underline''] [''hover''] pe_after)]
       [decl ''transform'' (tok ''scaleX(1)''), decl ''transform-origin'' (tok ''left'')]]"

text \<open>\<open>@keyframes glitch-1\<close> and \<open>glitch-2\<close>: the stops with the horizontal offset in pixels.\<close>

definition kinetic_keyframes :: "(string \<times> (real \<times> real) list) list" where
  "kinetic_keyframes = [(''glitch-1'', [(0, 2), (1, -2)]), (''glitch-2'', [(0, -2), (1, 2)])]"

text \<open>\<open>3d-card.css\<close>, section 6.2.\<close>

definition card_css :: "css_rule list" where
  "card_css =
    [rule [sel1 (cls [''card-3d-container''] None)]
       [decl ''perspective'' (CPx 1000), decl ''width'' (CPx 300), decl ''height'' (CPx 400)],
     rule [sel1 (cls [''card-3d''] None)]
       [decl ''width'' (tok ''100%''), decl ''height'' (tok ''100%''), decl ''position'' (tok ''relative''),
        decl ''transform-style'' (tok ''preserve-3d''), decl ''transition'' (CTrans [(''transform'', 0.8)])],
     rule [sel1 (cpc [''card-3d''] [''hover''] None)] [decl ''transform'' (CRotateY 180)],
     rule [sel1 (cls [''card-3d-face''] None)]
       [decl ''position'' (tok ''absolute''), decl ''width'' (tok ''100%''), decl ''height'' (tok ''100%''),
        decl ''backface-visibility'' (tok ''hidden''), decl ''border-radius'' (CPx 16), decl ''overflow'' (tok ''hidden'')],
     rule [sel1 (cls [''card-3d-front''] None)] [decl ''background'' (tok ''var(--color-surface)'')],
     rule [sel1 (cls [''card-3d-back''] None)]
       [decl ''background'' (tok ''var(--color-accent)''), decl ''transform'' (CRotateY 180)]]"

text \<open>
  The reduced-motion rule of section 9.2: inside \<open>@media (prefers-reduced-motion:
  reduce)\<close>, so it is part of the page's stylesheet when the user asks for reduced motion,
  after every other rule. Times are in seconds: \<open>0.01ms\<close> is \<open>1/100000\<close>.
\<close>

definition reduced_decls :: "css_decl list" where
  "reduced_decls = [impdecl ''animation-duration'' (CNum (1/100000)), impdecl ''animation-iteration-count'' (CNum 1),
     impdecl ''transition-duration'' (CNum (1/100000)), impdecl ''scroll-behavior'' (tok ''auto'')]"

definition reduced_motion_css :: "css_rule list" where
  "reduced_motion_css = [rule [sel1 (cls [] None), sel1 (cls [] pe_before), sel1 (cls [] pe_after)] reduced_decls]"

definition with_motion_pref :: "bool \<Rightarrow> css_rule list \<Rightarrow> css_rule list" where
  "with_motion_pref reduce rs = rs @ (if reduce then reduced_motion_css else [])"

subsection \<open>Elements\<close>

definition underline_el :: "bool \<Rightarrow> el" where
  "underline_el hov = lone ''text-reveal-underline'' (if hov then [''hover''] else [])"

text \<open>The card, hovered or not, in its container, and one of its faces (\<open>card-3d-front\<close> or \<open>card-3d-back\<close>).\<close>

definition card_el :: "bool \<Rightarrow> el" where
  "card_el hov = El (nd ''card-3d'' (if hov then [''hover''] else []) 1) (Some (lone ''card-3d-container'' [])) None"

definition face_el :: "bool \<Rightarrow> string \<Rightarrow> el" where
  "face_el hov f = El \<lparr>nd_classes = [''card-3d-face'', f], nd_attrs = [], nd_pcs = [], nd_index = 1\<rparr> (Some (card_el hov)) None"

subsection \<open>The card's faces\<close>

text \<open>
  The rotation about the vertical axis a transform sets (none is \<open>0\<close>), and whether a
  plane turned by an angle faces the viewer: its normal points away from the screen for
  angles strictly between 90 and 270 degrees, modulo 360.
\<close>

definition rot_y :: "css_val option \<Rightarrow> real" where
  "rot_y v = (case v of Some (CRotateY a) \<Rightarrow> a | _ \<Rightarrow> 0)"

definition deg_mod :: "real \<Rightarrow> real" where
  "deg_mod a = a - 360 * of_int \<lfloor>a / 360\<rfloor>"

definition faces_viewer :: "real \<Rightarrow> bool" where
  "faces_viewer a \<longleftrightarrow> \<not> (90 < deg_mod a \<and> deg_mod a < 270)"

text \<open>
  A face is drawn when the card is turned by \<open>a\<close> degrees: under \<open>preserve-3d\<close> its own
  rotation adds to the card's, and a face with \<open>backface-visibility: hidden\<close> is drawn
  only while it faces the viewer.
\<close>

definition face_shown :: "css_rule list \<Rightarrow> el \<Rightarrow> el \<Rightarrow> real \<Rightarrow> bool" where
  "face_shown rs ce fe a \<longleftrightarrow>
     (let turn = (if sheet_style rs ce None ''transform-style'' = Some (tok ''preserve-3d'')
                  then a + rot_y (sheet_style rs fe None ''transform'') else rot_y (sheet_style rs fe None ''transform'')) in
      sheet_style rs fe None ''backface-visibility'' \<noteq> Some (tok ''hidden'') \<or> faces_viewer turn)"


subsection \<open>Animations\<close>

text \<open>
  The words of a shorthand value, and a time such as \<open>1.4s\<close> in seconds (the only unit
  the shorthands here use).
\<close>

fun words_acc :: "string \<Rightarrow> string \<Rightarrow> string list" where
  "words_acc [] w = (if w = [] then [] else [rev w])"
| "words_acc (c # cs) w = (if c = CHR '' '' then (if w = [] then words_acc cs [] else rev w # words_acc cs [])
     else words_acc cs (c # w))"

definition css_words :: "string \<Rightarrow> string list" where
  "css_words s = words_acc s []"

definition is_digit :: "char \<Rightarrow> bool" where
  "is_digit c \<longleftrightarrow> 48 \<le> (of_char c :: nat) \<and> (of_char c :: nat) \<le> 57"

definition digits_nat :: "string \<Rightarrow> nat" where
  "digits_nat ds = fold (\<lambda>c n. 10 * n + (of_char c - 48)) ds 0"

definition css_time :: "string \<Rightarrow> real option" where
  "css_time w = (if w \<noteq> [] \<and> last w = CHR ''s'' then
     (let b = butlast w; i = takeWhile (\<lambda>c. c \<noteq> CHR ''.'') b; f = drop (Suc (length i)) b in
      if i \<noteq> [] \<and> list_all is_digit i \<and> list_all is_digit f
      then Some (of_nat (digits_nat i) + of_nat (digits_nat f) / 10 ^ length f) else None)
   else None)"

datatype anim_count = Times real | Forever

datatype anim_dir = Normal | Reverse | Alternate | AltReverse

record anim =
  an_name :: string
  an_dur :: real
  an_count :: anim_count
  an_delay :: real
  an_dir :: anim_dir
  an_back :: bool
  an_fwd :: bool

text \<open>
  The animation of a computed style: the shorthand's name (its first word), its first
  time as the duration and its second as the delay, \<open>infinite\<close>, the direction and
  the fill mode; a longhand the cascade gives outweighs the shorthand, as every longhand
  in these stylesheets is declared by a more specific or an \<open>!important\<close> rule.
\<close>

definition style_anim :: "(string \<Rightarrow> css_val option) \<Rightarrow> anim option" where
  "style_anim st = (case st ''animation'' of Some (CTok a) \<Rightarrow>
     (let ws = css_words a; ts = List.map_filter css_time ws in Some
      \<lparr>an_name = hd ws,
       an_dur = (case st ''animation-duration'' of Some (CNum d) \<Rightarrow> d | _ \<Rightarrow> (case ts of t # _ \<Rightarrow> t | [] \<Rightarrow> 0)),
       an_count = (case st ''animation-iteration-count'' of Some (CNum n) \<Rightarrow> Times n
                   | _ \<Rightarrow> if ''infinite'' \<in> set ws then Forever else Times 1),
       an_delay = (case st ''animation-delay'' of Some (CNum d) \<Rightarrow> d | _ \<Rightarrow> (case ts of _ # t # _ \<Rightarrow> t | _ \<Rightarrow> 0)),
       an_dir = (if ''alternate-reverse'' \<in> set ws then AltReverse else if ''alternate'' \<in> set ws then Alternate
                 else if ''reverse'' \<in> set ws then Reverse else Normal),
       an_back = (''both'' \<in> set ws \<or> ''backwards'' \<in> set ws),
       an_fwd = (''both'' \<in> set ws \<or> ''forwards'' \<in> set ws)\<rparr>)
   | _ \<Rightarrow> None)"

text \<open>The progress within iteration \<open>i\<close> after the direction is applied.\<close>

definition dir_progress :: "anim_dir \<Rightarrow> int \<Rightarrow> real \<Rightarrow> real" where
  "dir_progress d i x = (case d of Normal \<Rightarrow> x | Reverse \<Rightarrow> 1 - x
     | Alternate \<Rightarrow> if even i then x else 1 - x | AltReverse \<Rightarrow> if even i then 1 - x else x)"

text \<open>
  The keyframe progress an animation is at, \<open>t\<close> seconds after it was applied: before
  its delay only with a backwards fill, after its last iteration only with a forwards
  fill (at the end of that iteration), and \<open>None\<close> when it has no effect.
\<close>

definition anim_progress :: "anim \<Rightarrow> real \<Rightarrow> real option" where
  "anim_progress a t =
     (if t < an_delay a then (if an_back a then Some (dir_progress (an_dir a) 0 0) else None)
      else case an_count a of
        Times n \<Rightarrow> if an_delay a + an_dur a * n \<le> t
                   then (if an_fwd a then Some (dir_progress (an_dir a) (\<lceil>n\<rceil> - 1) (1 + n - of_int \<lceil>n\<rceil>)) else None)
                   else let x = (t - an_delay a) / an_dur a in Some (dir_progress (an_dir a) \<lfloor>x\<rfloor> (x - of_int \<lfloor>x\<rfloor>))
      | Forever \<Rightarrow> let x = (t - an_delay a) / an_dur a in Some (dir_progress (an_dir a) \<lfloor>x\<rfloor> (x - of_int \<lfloor>x\<rfloor>)))"

text \<open>
  The value at a progress of keyframes sorted by offset, with the timing function
  \<open>ease\<close> applied between two stops.
\<close>

fun kf_value :: "(real \<Rightarrow> real) \<Rightarrow> (real \<times> real) list \<Rightarrow> real \<Rightarrow> real" where
  "kf_value f [] x = 0"
| "kf_value f [(k, v)] x = v"
| "kf_value f ((k1, v1) # (k2, v2) # ks) x =
     (if x \<le> k2 \<or> ks = [] then v1 + (v2 - v1) * f ((x - k1) / (k2 - k1)) else kf_value f ((k2, v2) # ks) x)"

text \<open>The value an animated property shows at time \<open>t\<close>; \<open>base\<close> when no animation applies.\<close>

definition anim_value :: "(string \<Rightarrow> css_val option) \<Rightarrow> (string \<Rightarrow> (real \<times> real) list option) \<Rightarrow> (real \<Rightarrow> real) \<Rightarrow> real \<Rightarrow> real \<Rightarrow> real" where
  "anim_value st kfs f base t = (case style_anim st of None \<Rightarrow> base
     | Some a \<Rightarrow> (case (kfs (an_name a), anim_progress a t) of (Some ks, Some x) \<Rightarrow> kf_value f ks x | _ \<Rightarrow> base))"

text \<open>The scale stops of \<open>@keyframes pulse\<close>, sorted by offset.\<close>

definition pulse_scale :: "(real \<times> real) list" where
  "pulse_scale = map (\<lambda>(k, s, _). (k, s)) (sort_key fst pulse_keyframes)"

text \<open>
  A loading dot's scale and a glitch layer's offset, with or without reduced motion:
  an element with no transform has scale 1 and offset 0.
\<close>

definition dot_scale :: "bool \<Rightarrow> (real \<Rightarrow> real) \<Rightarrow> nat \<Rightarrow> real \<Rightarrow> real" where
  "dot_scale reduce f i t = anim_value (sheet_style (with_motion_pref reduce micro_css) (loading_dot i) None)
     (\<lambda>n. if n = ''pulse'' then Some pulse_scale else None) f 1 t"

definition glitch_offset :: "bool \<Rightarrow> (real \<Rightarrow> real) \<Rightarrow> string option \<Rightarrow> real \<Rightarrow> real" where
  "glitch_offset reduce f pe t = anim_value (sheet_style (with_motion_pref reduce kinetic_css) (lone ''glitch'' []) pe)
     (map_of kinetic_keyframes) f 0 t"


section \<open>Properties\<close>

subsection \<open>Kinetic text and the card\<close>

text \<open>
  The underline of \<open>.text-reveal-underline\<close> draws in from the left and retracts to
  the right: on hover and on leave its scale animates, while its origin, which the
  transition does not list, switches at once to the side the line grows from or
  shrinks to.
\<close>

lemma underline_draw:
  "sheet_changes kinetic_css (underline_el False) (underline_el True) pe_after = [''transform'', ''transform-origin'']
   \<and> sheet_jumps kinetic_css (underline_el False) (underline_el True) pe_after = [''transform-origin'']
   \<and> sheet_jumps kinetic_css (underline_el True) (underline_el False) pe_after = [''transform-origin'']
   \<and> sheet_style kinetic_css (underline_el True) pe_after ''transform-origin'' = Some (tok ''left'')
   \<and> sheet_style kinetic_css (underline_el False) pe_after ''transform-origin'' = Some (tok ''right'')"
  by code_simp

text \<open>
  Hovering the card turns it half a turn and leaving turns it back, both animated;
  its faces' styles are those of a preserve-3d card with hidden back faces.
\<close>

lemma card_flip:
  "smooth_toggle card_css (card_el False) (card_el True) None [''transform'']
   \<and> rot_y (sheet_style card_css (card_el False) None ''transform'') = 0
   \<and> rot_y (sheet_style card_css (card_el True) None ''transform'') = 180"
  by code_simp

lemma card_face_styles:
  "sheet_style card_css (card_el h) None ''transform-style'' = Some (tok ''preserve-3d'')
   \<and> sheet_style card_css (face_el h f) None ''backface-visibility'' = Some (tok ''hidden'')
   \<and> rot_y (sheet_style card_css (face_el h ''card-3d-front'') None ''transform'') = 0
   \<and> rot_y (sheet_style card_css (face_el h ''card-3d-back'') None ''transform'') = 180"
  by (cases h) (simp_all add: css_eval sheet_style_def card_css_def card_el_def face_el_def rule_def sel1_def nd_def lone_def rot_y_def)

lemma deg_mod_shift:
  assumes "360 * of_int k \<le> a" "a < 360 * of_int k + 360"
  shows "deg_mod a = a - 360 * of_int k"
proof -
  have "\<lfloor>a / 360\<rfloor> = k" using assms by (simp add: floor_eq_iff field_simps)
  thus ?thesis by (simp add: deg_mod_def)
qed

text \<open>
  At every angle of the half turn exactly one face is drawn, the front up to 90 degrees
  and the back from there (both only edge-on at 90): the back's own half turn makes it
  face the viewer when the card shows its back.
\<close>

lemma faces_during_flip:
  assumes "0 \<le> a" "a \<le> 180"
  shows "face_shown card_css (card_el h) (face_el h ''card-3d-front'') a = (a \<le> 90)
    \<and> face_shown card_css (card_el h) (face_el h ''card-3d-back'') a = (90 \<le> a)"
proof -
  have af: "deg_mod a = a" using deg_mod_shift [of 0 a] assms by simp
  have ab: "deg_mod (a + 180) = (if a < 180 then a + 180 else a - 180)"
    using deg_mod_shift [of 0 "a + 180"] deg_mod_shift [of 1 "a + 180"] assms by auto
  show ?thesis using assms
    by (auto simp: face_shown_def card_face_styles faces_viewer_def af ab)
qed

subsection \<open>Animations\<close>

lemma dot_delays: "map (\<lambda>i. anim_delay (loading_dot i)) [1, 2, 3] = [-0.32, -0.16, 0]"
  by code_simp

lemma pulse_scale_stops: "pulse_scale = [(0, 0), (0.4, 1), (0.8, 0), (1, 0)]"
  by code_simp

lemma dot_anims_all:
  "list_all (\<lambda>i. style_anim (sheet_style (with_motion_pref False micro_css) (loading_dot i) None) = Some
     \<lparr>an_name = ''pulse'', an_dur = 1.4, an_count = Forever, an_delay = anim_delay (loading_dot i),
      an_dir = Normal, an_back = True, an_fwd = True\<rparr>
   \<and> style_anim (sheet_style (with_motion_pref True micro_css) (loading_dot i) None) = Some
     \<lparr>an_name = ''pulse'', an_dur = 1/100000, an_count = Times 1, an_delay = anim_delay (loading_dot i),
      an_dir = Normal, an_back = True, an_fwd = True\<rparr>) [1, 2, 3]"
  by code_simp

lemma glitch_anims_all:
  "list_all (\<lambda>(pe, n). style_anim (sheet_style (with_motion_pref False kinetic_css) (lone ''glitch'' []) pe) = Some
     \<lparr>an_name = n, an_dur = 0.3, an_count = Forever, an_delay = 0, an_dir = AltReverse, an_back = False, an_fwd = False\<rparr>
   \<and> style_anim (sheet_style (with_motion_pref True kinetic_css) (lone ''glitch'' []) pe) = Some
     \<lparr>an_name = n, an_dur = 1/100000, an_count = Times 1, an_delay = 0, an_dir = AltReverse, an_back = False, an_fwd = False\<rparr>)
   [(pe_before, ''glitch-1''), (pe_after, ''glitch-2'')]"
  by code_simp

lemma kinetic_keyframes_of:
  "map_of kinetic_keyframes ''glitch-1'' = Some [(0, 2), (1, -2)] \<and> map_of kinetic_keyframes ''glitch-2'' = Some [(0, -2), (1, 2)]"
  by code_simp

lemma dot_delay_cases:
  assumes "i \<in> {1, 2, 3}"
  obtains "anim_delay (loading_dot i) \<le> 0"
  using assms dot_delays by auto

lemma forever_progress:
  assumes "an_count a = Forever" "an_dir a = Normal" "\<not> t < an_delay a"
    "(t - an_delay a) / an_dur a = of_nat k + y" "0 \<le> y" "y < 1"
  shows "anim_progress a t = Some y"
proof -
  have "\<lfloor>of_nat k + y\<rfloor> = int k" using assms(5,6) by (simp add: floor_eq_iff)
  thus ?thesis using assms(1-4) by (simp add: anim_progress_def Let_def dir_progress_def)
qed

text \<open>
  Without reduced motion every loading dot reaches full size once per cycle, at its
  peak time of theory \<open>DesignMicroCss\<close> and every 1.4 seconds after, whatever the easing
  (only that it ends at 1).
\<close>

lemma dots_pulse_normal:
  assumes "i \<in> {1, 2, 3}" "f 1 = 1"
  shows "dot_scale False f i (dot_peak i + of_nat k * pulse_duration) = 1"
proof -
  define a where "a = \<lparr>an_name = ''pulse'', an_dur = 1.4, an_count = Forever, an_delay = anim_delay (loading_dot i),
      an_dir = Normal, an_back = True, an_fwd = True\<rparr>"
  have sa: "style_anim (sheet_style (with_motion_pref False micro_css) (loading_dot i) None) = Some a"
    using assms(1) dot_anims_all by (auto simp: a_def)
  have pk: "pulse_peak = 0.4"
    by (simp add: pulse_peak_def pulse_keyframes_def)
  have "anim_progress a (dot_peak i + of_nat k * pulse_duration) = Some 0.4"
    by (rule forever_progress [where k = k]) (simp_all add: a_def dot_peak_def pk pulse_duration_def field_simps)
  thus ?thesis
    using assms(2) by (simp add: dot_scale_def anim_value_def sa a_def pulse_scale_stops)
qed

text \<open>
  With reduced motion each dot's \<open>pulse\<close> runs once for 0.01 ms and, its fill mode
  being \<open>both\<close>, then holds the last keyframe, \<open>scale(0)\<close>: from then on every dot
  is invisible, so the loading indicator shows nothing.
\<close>

lemma dots_vanish_reduced:
  assumes "i \<in> {1, 2, 3}" "1/100000 \<le> t"
  shows "dot_scale True f i t = 0"
proof -
  have a: "style_anim (sheet_style (with_motion_pref True micro_css) (loading_dot i) None) = Some
     \<lparr>an_name = ''pulse'', an_dur = 1/100000, an_count = Times 1, an_delay = anim_delay (loading_dot i),
      an_dir = Normal, an_back = True, an_fwd = True\<rparr>"
    using assms(1) dot_anims_all by auto
  obtain "anim_delay (loading_dot i) \<le> 0" using assms(1) by (rule dot_delay_cases)
  then show ?thesis
    using assms(2) by (simp add: dot_scale_def anim_value_def a anim_progress_def dir_progress_def pulse_scale_stops)
qed

text \<open>
  The glitch layers move in mirror image: at every moment the \<open>::before\<close> layer is
  offset by the opposite of the \<open>::after\<close> layer, for any timing function.
\<close>

lemma glitch_mirror: "glitch_offset False f pe_before t = - glitch_offset False f pe_after t"
  using glitch_anims_all kinetic_keyframes_of
  by (simp add: glitch_offset_def anim_value_def anim_progress_def Let_def)

text \<open>With reduced motion the glitch layers stop after 0.01 ms, with no offset.\<close>

lemma glitch_still_reduced:
  assumes "pe \<in> {pe_before, pe_after}" "1/100000 \<le> t"
  shows "glitch_offset True f pe t = 0"
  using assms glitch_anims_all kinetic_keyframes_of
  by (auto simp: glitch_offset_def anim_value_def anim_progress_def)

subsection \<open>Reduced motion\<close>

lemma applicable_append:
  "applicable (rs @ rs') coarse e pe p = applicable rs coarse e pe p @ applicable rs' coarse e pe p"
  by (simp add: applicable_def)

lemma applicable_no_imp:
  assumes "\<forall>r\<in>set rs. \<forall>d\<in>set (cr_decls r). dc_prop d = p \<longrightarrow> \<not> dc_imp d"
  shows "filter (dc_imp \<circ> snd) (applicable rs coarse e pe p) = []"
  using assms by (fastforce simp: applicable_def filter_empty_conv split: if_splits option.splits)

lemma reduced_applicable:
  assumes "pe \<in> {None, pe_before, pe_after}"
  shows "applicable reduced_motion_css coarse e pe p
    = map (\<lambda>d. ((0, if pe = None then 0 else 1), d)) (filter (\<lambda>d. dc_prop d = p) reduced_decls)"
  using assms by (auto simp: css_eval reduced_motion_css_def rule_def sel1_def)

lemma reduced_decl_of:
  assumes "d \<in> set reduced_decls"
  shows "filter (\<lambda>d'. dc_prop d' = dc_prop d) reduced_decls = [d] \<and> dc_imp d"
  using assms by (auto simp: reduced_decls_def impdecl_def)

text \<open>
  Under reduced motion the rule of section 9.2 decides its four properties for every
  element and pseudo-element of any stylesheet that does not itself declare them
  \<open>!important\<close>.
\<close>

lemma reduced_motion_wins:
  assumes "\<forall>r\<in>set rs. \<forall>d\<in>set (cr_decls r). dc_prop d = p \<longrightarrow> \<not> dc_imp d"
    and "pe \<in> {None, pe_before, pe_after}" and "d \<in> set reduced_decls" and "dc_prop d = p"
  shows "cascade (with_motion_pref True rs) coarse inl e pe p = Some (dc_val d)"
proof -
  have "applicable (with_motion_pref True rs) coarse e pe p = applicable rs coarse e pe p @ [((0, if pe = None then 0 else 1), d)]"
    using reduced_decl_of [OF assms(3)] assms(2,4)
    by (simp add: with_motion_pref_def applicable_append reduced_applicable)
  thus ?thesis
    using applicable_no_imp [OF assms(1)] reduced_decl_of [OF assms(3)]
    by (simp add: cascade_def css_best_def)
qed


text \<open>
  The micro-interaction stylesheets declare nothing \<open>!important\<close>, so under reduced
  motion every transition they start lasts 0.01 ms.
\<close>

lemma micro_no_important: "\<forall>r\<in>set micro_css. \<forall>d\<in>set (cr_decls r). \<not> dc_imp d"
  by code_simp

lemma micro_reduced_transitions:
  assumes "pe \<in> {None, pe_before, pe_after}"
  shows "sheet_style (with_motion_pref True micro_css) e pe ''transition-duration'' = Some (CNum (1/100000))"
  using reduced_motion_wins [of micro_css _ pe "impdecl ''transition-duration'' (CNum (1/100000))"] micro_no_important assms
  by (simp add: sheet_style_def reduced_decls_def impdecl_def)

end
