(* ===== verification/Spec2Isabelle.thy ===== *)
theory Spec2Isabelle
  imports Kinetic Cursor Tilt Nav Typewriter ScrollFx KineticFx Audio Deferred Build DesignCursor DesignMagnetic DesignKinetic DesignTilt DesignScroll DesignTransitions DesignParticles DesignCursorCss DesignMicroCss DesignMotionCss
begin

text \<open>
  \<^bold>\<open>Lumina: a verification development of the interaction modules.\<close>

  The repository is a static site whose behaviour is a set of browser modules: a custom
  cursor (\<open>src/src/js/cursor.js\<close>), magnetic buttons (\<open>src/unnamed/part_002\<close>), a 3D
  tilt (\<open>src/src/js/tilt.js\<close>), GSAP scroll animations
  (\<open>src/src/js/scroll-animations.js\<close>), kinetic typography (\<open>src/unnamed/part_001\<close>:
  text scrambler, word rotator, \<open>splitText\<close> and its effects, typewriter) and the page
  wiring of \<open>src/src/js/main.js\<close>, which initialises them all. \<open>src/unnamed/part_000\<close>
  is the interaction design document; beside prose and CSS it holds code: drafts of the
  modules and code of its own (sound feedback, reduced motion, lazy initialisation). That
  code and the drafts of the cursor and the magnetic element are modelled too.
  \<open>spec.md\<close> specifies the scrambler and the rotator.

  \<^bold>\<open>Modelling conventions.\<close> A module is a shallow embedding: a class is a \<open>record\<close> of
  its fields and of the DOM state it writes, a method or listener a function on it, and a
  run a \<open>fold\<close> of a step function over events, or an inductive reachability relation.
  Strings are lists of UTF-16 code units (\<open>jstr\<close>, theory \<open>Prelude\<close>); numbers are reals
  (theory \<open>Pointer\<close>), except the scrambler's random draws, which are 53-bit words.
  A throw is the left side of \<open>'s completion\<close>. The browser services the modules call
  (frames, timers, promises, \<open>Math.random\<close>) are the generic record \<open>'cb host\<close> of theory
  \<open>Host\<close>, modelled from the HTML and ECMAScript standards. GSAP is modelled as the
  description of the tweens the code hands it (\<open>ScrollFx.tween\<close>) and, where a property
  needs it, the placement of tweens on a timeline (\<open>tl_place\<close>), from its documentation.

  \<^bold>\<open>Theories and what they show.\<close>
  \<^item> \<open>Scramble\<close> (\<open>TextScramble\<close>, part_001 48--111): \<open>setText\<close>, \<open>update\<close> and
    the frame loop. A session left alone resolves within 78 frames (C1): a task's start
    frame is \<open>floor(random * 40)\<close> and its end frame adds another such draw, so no task
    ends after frame 78, and the loop is run with that many frames of fuel. The queue
    (C2), the throw of a finished session without a resolver (C3), the glyph set (C4) and
    the rendering of a frame (C5, C6).
  \<^item> \<open>Rotator\<close> (\<open>WordRotator\<close>, part_001 116--146) with the event loop
    \<open>loop_step\<close>: invariants of every reachable world (C7--C9), \<open>stop\<close> during a
    transition (C10) and \<open>next\<close> on every branch (C11).
  \<^item> \<open>Kinetic\<close>: \<open>splitText\<close>, \<open>glitchText\<close>, \<open>parseInt\<close> and the rotate branch of
    \<open>initKineticText\<close> (C12--C17, with the round trips of the attribute parsing);
    \<open>KineticFx\<close>: \<open>charCascade\<close>, \<open>elasticWave\<close> and the other passes of
    \<open>initKineticText\<close>, with the number of character spans and the cascade's duration.
  \<^item> \<open>Cursor\<close> (\<open>cursor.js\<close>): every listener, the dispatch of several listeners on one
    event, reachable states well formed (C18), the throw on touch devices after
    \<open>refresh()\<close> (C19), hover labels (C20, C21) and the ring's convergence (C22).
  \<^item> \<open>Magnetic\<close> (part_002): bounded pull (C23), \<open>destroy\<close> (C24), settling (C25).
  \<^item> \<open>Tilt\<close> (\<open>tilt.js\<close>): bounded angles (C26), a zero-sized box (C27), the enter timeout
    against a quick leave (C28), \<open>destroy\<close> (C29) and touch devices (C30).
  \<^item> \<open>Nav\<close> (\<open>main.js\<close>): the mobile navigation's indicators stay consistent (C31) and
    refine a one-bit menu (C32); smooth anchors and the preloader.
  \<^item> \<open>Typewriter\<close> (part_001 208--245): a run terminates with the whole text typed (C33);
    two runs interleave (C34).
  \<^item> \<open>ScrollFx\<close> (\<open>scroll-animations.js\<close>): the hero schedule (C35), the reveal passes
    equal one pass per element (C36, an equivalence of multisets), the progress bar's
    bounds (C37), the navigation's scrolled state (C38) and the counters (C39).
  \<^item> \<open>Audio\<close> (part_000 1977--2050): the stored setting survives a reload (C40), the first
    click is silent, the chord's envelopes. \<open>Deferred\<close> (part_000 2094--2129): reduced
    motion and lazy initialisation. \<open>Build\<close>: \<open>vite.config.js\<close>.
  \<^item> \<open>DesignCursor\<close> and \<open>DesignMagnetic\<close> (part_000 67--151 and 309--379): the design
    document's drafts of the cursor and of the magnetic element, with simulations showing
    that the shipped classes implement them (hover states; offsets, transforms and frames),
    and where they differ (defaults, the draft cursor's dependence on page markup).
  \<^item> \<open>DesignKinetic\<close> (part_000 712--904): the draft \<open>splitText\<close>, which does not trim,
    its cascade and wave, and the draft rotator, whose event loop is simulated by the
    shipped one's (\<open>d_emb\<close>), so the shipped invariants carry over; the draft's
    \<open>setText\<close>, \<open>update\<close> and \<open>glitchText\<close> are the shipped code and use its definitions.
  \<^item> \<open>DesignTilt\<close> (part_000 1344--1438): the draft tilt, which always eases back on a
    leave, against the shipped enter timeout.
  \<^item> \<open>DesignScroll\<close> (part_000 425--637): the draft scroll module as GSAP calls, with
    JavaScript division (a single panel snaps to \<open>Infinity\<close>) and \<open>parseInt\<close> without a
    radix (hexadecimal counters), related to \<open>ScrollFx\<close>.
  \<^item> \<open>DesignTransitions\<close> (part_000 1056--1228): the Barba.js transitions as object
    literals with spread (the literal names are overridden), Barba's choice of a
    transition, the overlay's CSS state, which no transition ever makes visible, the
    \<open>TypeError\<close> of the clip transition on back and forward navigation, and the
    \<open>after\<close> hook, which re-runs \<open>DesignScroll\<close>'s initialiser and accumulates triggers.
  \<^item> \<open>DesignParticles\<close> (part_000 1466--1560): the three.js particle background with its
    coordinates rounded to double and then to float as the engine does (they lie in the
    closed \<open>[-5, 5]\<close>, both ends reached), its pointer, rotation and endless frame loop.
  \<^item> \<open>Css\<close>: the part of the CSS cascade the stylesheets use, from the Selectors and
    Cascading specifications (compound selectors with descendant and adjacent-sibling
    combinators, specificity, \<open>!important\<close>, inline style, the coarse-pointer media
    query), and which changes of state a \<open>transition\<close> animates.
  \<^item> \<open>DesignCursorCss\<close> (part_000 158--274): the cursor's stylesheet and markup over the
    draft cursor's reachable states: where the dot, ring and label are drawn, the ring's
    centre 8px off the pointer on media, the dot never shrinking on hover (the inline
    transform outweighs the rule), the ring's offsets jumping by 16 or 36px on a change
    of state, and nothing shown on touch devices.
  \<^item> \<open>DesignMicroCss\<close> (part_000 1568--1966): the micro-interaction stylesheets rule by
    rule, with which property each hover, press or focus changes and whether it
    animates (the highlight link's colour jumps), the floating label and the phases of
    the loading dots.
  \<^item> \<open>DesignMotionCss\<close> (part_000 911--991, 1303--1340, 2079--2090): the kinetic-text
    styles (the underline draws from the left and retracts to the right, the glitch
    layers move in mirror image), the 3D card (one face drawn at every angle of the
    flip), and the reduced-motion rule with the CSS Animations timing it acts on: the
    rule wins over any sheet without \<open>!important\<close> declarations, stops the glitch, and
    leaves the loading dots at their last keyframe, \<open>scale(0)\<close>.
  \<^item> This theory: \<open>init()\<close> and the \<open>readyState\<close> branch of \<open>main.js\<close> over the
    modules' models.

  \<^bold>\<open>Not modelled.\<close> Rendering and layout: the box of an element is an input, and a
  style is the cascaded value of each property, not the pixels drawn. The design
  document's stylesheets are modelled where a behaviour of the modules or a claim of
  the document depends on them (sections 1.3, 4.4, 6.2, 7 and 9.2, and the transition
  overlay); its prose, tables, HTML usage examples and \<open>package.json\<close> hold no behaviour to
  verify, and the rest of section 5.3 (the \<open>is-transitioning\<close> class and the
  view-transition rules) applies to a class and an API that no script of the repository
  uses. Timing functions are a parameter of the animation
  lemmas (only their values at 0 and 1 are used); GSAP's easing and interpolation, and
  ScrollTrigger's scroll bookkeeping beyond the values the callbacks receive (a running
  tween is any value of the properties it moves); three.js beyond the state the code
  writes into it; the Web Audio graph beyond the notes scheduled.
  Barba.js is modelled from its documentation: the navigation data, the rule priority
  (a \<open>custom\<close> rule, then \<open>from\<close> with \<open>to\<close>, then no rule) and the order
  \<open>leave\<close>, \<open>enter\<close>, \<open>afterEnter\<close>, \<open>after\<close>; a run of navigations stops at the first
  throw. In \<open>init()\<close> every magnetic element is given its own host: the elements' frame
  callbacks are independent and the model of one element does not observe another's.
\<close>

section \<open>Page initialisation\<close>

text \<open>
  The inputs \<open>init()\<close> reads from the page: the device kind and, per module, the
  elements and attributes its initialiser queries.
\<close>

record lumina_page =
  lp_touch :: bool
  lp_magnetic :: "(real option \<times> real option \<times> rect) list"
  lp_tilt :: "(real option \<times> real option \<times> jstr option) list"
  lp_scroll :: scroll_page
  lp_kinetic :: "(nat \<times> jstr option \<times> element) list"
  lp_preloader :: bool
  lp_toggle :: bool
  lp_menu :: bool

record lumina =
  l_magnets :: "mworld list"
  l_tilts :: "tilt list"
  l_scroll :: scroll_setup
  l_kinetic :: "(nat \<times> jstr option \<times> element) list \<times> gsap_call list"
  l_preloader :: bool
  l_nav :: bool
  l_cursor :: "cursor completion"

text \<open>
  \<open>init()\<close>: the initialisers in the order of the code, then \<open>cursor.refresh()\<close> on the
  cursor that \<open>cursor.js\<close> created at import.
\<close>

definition lumina_init :: "lumina_page \<Rightarrow> (nat \<Rightarrow> rand53) \<Rightarrow> lumina" where
  "lumina_init pg rnd =
     \<lparr>l_magnets = map (\<lambda>(sa, ta, r). init_magnet sa ta r (page_host rnd)) (lp_magnetic pg),
      l_tilts = map (\<lambda>(ma, sa, ga). init_tilt (lp_touch pg) ma sa ga) (lp_tilt pg),
      l_scroll = init_scroll_animations (lp_scroll pg),
      l_kinetic = init_kinetic_fx (lp_kinetic pg),
      l_preloader = lp_preloader pg,
      l_nav = nav_bound (lp_toggle pg) (lp_menu pg),
      l_cursor = cursor_step CRefresh (new_cursor (lp_touch pg))\<rparr>"

datatype boot = Loading lumina_page | Booted lumina

text \<open>The \<open>document.readyState\<close> branch and the \<open>DOMContentLoaded\<close> listener.\<close>

definition lumina_boot :: "bool \<Rightarrow> lumina_page \<Rightarrow> (nat \<Rightarrow> rand53) \<Rightarrow> boot" where
  "lumina_boot loading pg rnd = (if loading then Loading pg else Booted (lumina_init pg rnd))"

definition dom_content_loaded :: "(nat \<Rightarrow> rand53) \<Rightarrow> boot \<Rightarrow> boot" where
  "dom_content_loaded rnd b = (case b of Loading pg \<Rightarrow> Booted (lumina_init pg rnd) | Booted l \<Rightarrow> Booted l)"

subsection \<open>Properties\<close>

text \<open>
  Whether the script runs while the document is loading or after, the page is initialised
  exactly once by the time \<open>DOMContentLoaded\<close> has been dispatched.
\<close>

lemma boot_once: "dom_content_loaded rnd (lumina_boot loading pg rnd) = Booted (lumina_init pg rnd)"
  by (simp add: lumina_boot_def dom_content_loaded_def)

text \<open>
  On a touch device \<open>init()\<close> leaves every tilt element unbound and untouched and the
  cursor without nodes, although \<open>refresh()\<close> has bound its hover listeners.
\<close>

lemma touch_init_inert:
  assumes "lp_touch pg"
  shows "(\<forall>t \<in> set (l_tilts (lumina_init pg rnd)). \<not> listening t \<and> transform t = None \<and> glare_el t = None)
    \<and> dot (state_of (l_cursor (lumina_init pg rnd))) = None"
  using assms by (auto simp: lumina_init_def init_tilt_def new_tilt_def new_cursor_def)

end
